(* ===== verification/Prelude.thy ===== *)
theory Prelude
  imports Main "HOL-Library.Word" "HOL-Library.State_Monad"
begin

text \<open>
  Shared by every theory of the library: the machine integer types of the code, the state
  monad reasoning (weakest preconditions over the library's state monad, the named
  collection \<open>wp_intros\<close> that drives the component proofs), loops over a device list, decimal
  and hexadecimal rendering as the C and C++ output functions do it, and a few facts on
  words the components need.
\<close>

section \<open>Machine integers\<close>

text \<open>Unsigned bytes, UTF-16 units (WCHAR), DWORD (32 bits) and uint64_t / size_t (64 bits, the x64 build).\<close>

type_synonym u8 = "8 word"
type_synonym u16 = "16 word"
type_synonym u32 = "32 word"
type_synonym u64 = "64 word"

text \<open>A signed 64-bit value (\<open>long long\<close>, the clock representation) and a C \<open>int\<close>, read by \<open>sint\<close>.\<close>

type_synonym i64 = "64 word"
type_synonym i32 = "32 word"

lemma unat_plus_no_overflow [simp]:
  fixes a b :: "'a::len word"
  assumes "unat a + unat b < 2 ^ LENGTH('a)"
  shows "unat (a + b) = unat a + unat b"
  using assms by (simp add: unat_word_ariths)

lemma unat_ucast_up:
  fixes x :: u32
  shows "unat (ucast x :: u64) = unat x"
proof -
  have "unat x < 2 ^ 32" using unsigned_less [of x] by simp
  then have "unat x < 2 ^ 64" by simp
  then show ?thesis by (simp add: unsigned_ucast_eq take_bit_nat_eq_self)
qed

section \<open>The state monad and weakest preconditions\<close>

text \<open>
  An effectful method of the code is an element of the library's state monad. \<open>wp m Q s\<close>
  says that running \<open>m\<close> from \<open>s\<close> gives a value and a state that satisfy \<open>Q\<close>.
\<close>

type_synonym ('s, 'a) st = "('s, 'a) State_Monad.state"

definition wp :: "('s, 'a) st \<Rightarrow> ('a \<Rightarrow> 's \<Rightarrow> bool) \<Rightarrow> 's \<Rightarrow> bool" where
  "wp m Q s = (case run_state m s of (a, s') \<Rightarrow> Q a s')"

definition modify :: "('s \<Rightarrow> 's) \<Rightarrow> ('s, unit) st" where
  "modify f = State (\<lambda>s. ((), f s))"

definition gets :: "('s \<Rightarrow> 'a) \<Rightarrow> ('s, 'a) st" where
  "gets f = State (\<lambda>s. (f s, s))"

lemma run_state_modify [simp]: "run_state (modify f) s = ((), f s)"
  by (simp add: modify_def)

lemma run_state_gets [simp]: "run_state (gets f) s = (f s, s)"
  by (simp add: gets_def)

named_theorems wp_intros \<open>rules that compute a weakest precondition, one per construct and per operation\<close>
named_theorems ext_calls \<open>definitions of the calls that leave the program\<close>

lemma wp_bind [wp_intros]: "wp m (\<lambda>a. wp (f a) Q) s \<Longrightarrow> wp (State_Monad.bind m f) Q s"
  by (simp add: wp_def split: prod.splits)

lemma wp_return [wp_intros]: "Q a s \<Longrightarrow> wp (State_Monad.return a) Q s"
  by (simp add: wp_def)

lemma wp_get [wp_intros]: "Q s s \<Longrightarrow> wp State_Monad.get Q s"
  by (simp add: wp_def)

lemma wp_gets [wp_intros]: "Q (f s) s \<Longrightarrow> wp (gets f) Q s"
  by (simp add: wp_def)

lemma wp_modify [wp_intros]: "Q () (f s) \<Longrightarrow> wp (modify f) Q s"
  by (simp add: wp_def)

lemma wp_if [wp_intros]:
  "(b \<Longrightarrow> wp m Q s) \<Longrightarrow> (\<not> b \<Longrightarrow> wp n Q s) \<Longrightarrow> wp (if b then m else n) Q s"
  by simp

lemma wp_case_option [wp_intros]:
  "(x = None \<Longrightarrow> wp m Q s) \<Longrightarrow> (\<And>y. x = Some y \<Longrightarrow> wp (f y) Q s) \<Longrightarrow>
   wp (case x of None \<Rightarrow> m | Some y \<Rightarrow> f y) Q s"
  by (cases x) auto

lemma wp_let [wp_intros]: "wp (m x) Q s \<Longrightarrow> wp (let y = x in m y) Q s"
  by simp

lemma wp_case_prod [wp_intros]:
  "(\<And>a b. p = (a, b) \<Longrightarrow> wp (f a b) Q s) \<Longrightarrow> wp (case p of (a, b) \<Rightarrow> f a b) Q s"
  by (cases p) auto

text \<open>Consequence: a specification proved once is used with a weaker postcondition.\<close>

lemma wp_mono: "wp m R s \<Longrightarrow> (\<And>a s'. R a s' \<Longrightarrow> Q a s') \<Longrightarrow> wp m Q s"
  by (auto simp: wp_def split: prod.splits)

lemma wp_conj: "wp m Q s \<Longrightarrow> wp m R s \<Longrightarrow> wp m (\<lambda>a s'. Q a s' \<and> R a s') s"
  by (auto simp: wp_def split: prod.splits)

lemma wpD: "wp m Q s \<Longrightarrow> run_state m s = (a, s') \<Longrightarrow> Q a s'"
  by (simp add: wp_def)

lemma wp_snd: "wp m (\<lambda>_ s'. Q s') s \<longleftrightarrow> Q (snd (run_state m s))"
  by (simp add: wp_def split: prod.splits)

text \<open>Running a computation on a part of a larger state (a member object of a class).\<close>

definition zoom :: "('s \<Rightarrow> 't) \<Rightarrow> ('t \<Rightarrow> 's \<Rightarrow> 's) \<Rightarrow> ('t, 'a) st \<Rightarrow> ('s, 'a) st" where
  "zoom getf putf m = State (\<lambda>s. case run_state m (getf s) of (a, t) \<Rightarrow> (a, putf t s))"

lemma run_state_zoom [simp]:
  "run_state (zoom getf putf m) s = (case run_state m (getf s) of (a, t) \<Rightarrow> (a, putf t s))"
  by (simp add: zoom_def)

lemma wp_zoom [wp_intros]: "wp m (\<lambda>a t. Q a (putf t s)) (getf s) \<Longrightarrow> wp (zoom getf putf m) Q s"
  by (simp add: wp_def split: prod.splits)

section \<open>Rendering numbers\<close>

text \<open>Decimal digits of a natural number, as \<open>std::to_string\<close>, \<open>operator<<\<close> and \<open>%lu\<close> print it.\<close>

definition digit_char :: "nat \<Rightarrow> char" where
  "digit_char d = (if d < 10 then char_of (48 + d) else char_of (55 + d))"

fun decimal :: "nat \<Rightarrow> string" where
  "decimal n = (if n < 10 then [digit_char n] else decimal (n div 10) @ [digit_char (n mod 10)])"

declare decimal.simps [simp del]

text \<open>\<open>%d\<close> of a signed value.\<close>

definition decimal_int :: "int \<Rightarrow> string" where
  "decimal_int i = (if i < 0 then ''-'' @ decimal (nat (- i)) else decimal (nat i))"

text \<open>Hexadecimal digits with letters from a given base (\<open>%x\<close> or \<open>%X\<close>), and zero padding to a width.\<close>

fun hex_digits :: "bool \<Rightarrow> nat \<Rightarrow> string" where
  "hex_digits upper n =
     (let d = n mod 16;
          c = (if d < 10 then char_of (48 + d) else char_of ((if upper then 55 else 87) + d))
      in if n < 16 then [c] else hex_digits upper (n div 16) @ [c])"

declare hex_digits.simps [simp del]

definition pad_left :: "char \<Rightarrow> nat \<Rightarrow> string \<Rightarrow> string" where
  "pad_left c k s = replicate (k - length s) c @ s"

lemma length_pad_left: "length (pad_left c k s) = max k (length s)"
  by (simp add: pad_left_def)

lemma decimal_nonempty: "decimal n \<noteq> []"
  by (subst decimal.simps) simp

lemma of_char_digit_char: "d < 10 \<Longrightarrow> of_char (digit_char d) = (48 + d :: nat)"
  by (simp add: digit_char_def)

text \<open>Reading decimal digits back: the inverse of \<open>decimal\<close>.\<close>

definition undecimal :: "string \<Rightarrow> nat" where
  "undecimal s = foldl (\<lambda>n c. 10 * n + (of_char c - 48)) 0 s"

lemma undecimal_decimal: "undecimal (decimal n) = n"
proof (induction n rule: decimal.induct)
  case (1 n)
  show ?case
  proof (cases "n < 10")
    case True
    then show ?thesis
      by (subst decimal.simps) (simp add: undecimal_def of_char_digit_char)
  next
    case False
    with 1 have "undecimal (decimal (n div 10)) = n div 10" by simp
    with False show ?thesis
      by (subst decimal.simps) (simp add: undecimal_def of_char_digit_char)
  qed
qed

lemma decimal_inj: "decimal m = decimal n \<longleftrightarrow> m = n"
  by (metis undecimal_decimal)

end
