(* ===== verification/Error_Utils.thy ===== *)
theory Error_Utils
  imports Prelude
begin

text \<open>
  \<open>include/error_utils.h\<close> and \<open>src/error_utils.cpp\<close>: the session state enumeration, its names
  for the log, and the translation of an HRESULT to text. An HRESULT is a \<open>u32\<close> whose top bit
  marks failure (the Windows macros FAILED and SUCCEEDED). The lemmas show that both renderings
  are injective, so a log line determines the state and the code it reports, and that the
  32-byte buffer of the default branch never truncates.
\<close>

type_synonym hresult = u32

definition hr_failed :: "hresult \<Rightarrow> bool" where
  "hr_failed hr \<longleftrightarrow> sint hr < 0"

abbreviation hr_succeeded :: "hresult \<Rightarrow> bool" where
  "hr_succeeded hr \<equiv> \<not> hr_failed hr"

definition S_OK :: hresult where "S_OK = 0"

definition S_FALSE :: hresult where "S_FALSE = 1"

lemma hr_failed_S_OK [simp]: "hr_succeeded S_OK"
  by (simp add: hr_failed_def S_OK_def)

lemma hr_failed_S_FALSE [simp]: "hr_succeeded S_FALSE"
  by (simp add: hr_failed_def S_FALSE_def)

section \<open>Session states\<close>

datatype session_state = INIT | CONNECTED | STREAMING | FLUSHING | CLOSED | FAILED

fun session_state_to_string :: "session_state \<Rightarrow> string" where
  "session_state_to_string INIT = ''INIT''"
| "session_state_to_string CONNECTED = ''CONNECTED''"
| "session_state_to_string STREAMING = ''STREAMING''"
| "session_state_to_string FLUSHING = ''FLUSHING''"
| "session_state_to_string CLOSED = ''CLOSED''"
| "session_state_to_string FAILED = ''FAILED''"

lemma session_state_to_string_inj:
  "session_state_to_string a = session_state_to_string b \<Longrightarrow> a = b"
  by (cases a; cases b) simp_all

section \<open>HRESULT to text\<close>

text \<open>The bytes of the UTF-8 em dash, which several message literals of the source hold.\<close>

definition em_dash :: string where
  "em_dash = [CHR 0xE2, CHR 0x80, CHR 0x94]"

text \<open>The labelled cases of the switch, in the order of the source.\<close>

definition hresult_table :: "(u32 \<times> string) list" where
  "hresult_table =
    [(0x80770001, ''VD_E_CLOSE: Session closed normally by SQL Server''),
     (0x80770002, ''VD_E_OPEN: Failed to open the device''),
     (0x80770003, ''VD_E_TIMEOUT: Operation timed out (SQL Server did not connect)''),
     (0x80770004, ''VD_E_ABORT: Operation aborted''),
     (0x80770005, ''VD_E_BUSY: Resource busy''),
     (0x80770006, ''VD_E_INVALID: Invalid parameter or configuration''),
     (0x80770007, ''VD_E_NOTENOUGH: Insufficient resources''),
     (0x80770008, ''VD_E_ALREADY: Operation already in progress''),
     (0x80770009, ''VD_E_NOTSUPPORTED: Feature or parameter not supported''),
     (0x8077000A, ''VD_E_INVALIDATE: Invalidate request''),
     (0x8077000B, ''VD_E_OPENFAIL: Device open failed''),
     (0x8077000C, ''VD_E_OBJECT: Object not in correct state or wrong call order''),
     (0x8077000D, ''VD_E_INTERRUPT: Operation interrupted''),
     (0x8077000E, ''VD_E_EOF: End of data stream / no more commands''),
     (0x80040154, ''REGDB_E_CLASSNOTREG: COM class not registered (CLSID_MSSQL_ClientVirtualDeviceSet not found)''),
     (0x800401F0, ''CO_E_NOTINITIALIZED: CoInitializeEx was not called''),
     (0x80004002, ''E_NOINTERFACE: QueryInterface failed '' @ em_dash @ '' wrong IID or vtable mismatch''),
     (0x80004001, ''E_NOTIMPL: Function not implemented''),
     (0x80070005, ''E_ACCESSDENIED: Access denied (COM permissions)''),
     (0x80070057, ''E_INVALIDARG: Invalid argument''),
     (0x80004005, ''E_FAIL: Unspecified failure''),
     (0x8000FFFF, ''E_UNEXPECTED: Catastrophic failure''),
     (0x8007006E, ''ERROR_OPEN_FAILED: Open operation failed (resource or permission)''),
     (0x80070103, ''ERROR_DEVICE_NOT_CONNECTED: Device not available''),
     (0x8007045A, ''ERROR_IO_DEVICE: I/O device error (SQL Server IO error 995)'')]"

text \<open>
  The default branch prints into \<open>char buf[32]\<close> with \<open>snprintf\<close>, which keeps at most 31
  characters and the terminator.
\<close>

definition snprintf_into :: "nat \<Rightarrow> string \<Rightarrow> string" where
  "snprintf_into n s = take (n - 1) s"

definition hresult_to_string :: "u32 \<Rightarrow> string" where
  "hresult_to_string hr =
     (case map_of hresult_table hr of
        Some s \<Rightarrow> s
      | None \<Rightarrow> snprintf_into 32
          (''Unknown HRESULT 0x'' @ pad_left (CHR ''0'') 8 (hex_digits True (unat hr))))"

subsection \<open>Hexadecimal rendering is injective\<close>

definition unhex_digit :: "char \<Rightarrow> nat" where
  "unhex_digit c = (let n = of_char c in if n < 58 then n - 48 else n - 55)"

definition unhex :: "string \<Rightarrow> nat" where
  "unhex s = foldl (\<lambda>n c. 16 * n + unhex_digit c) 0 s"

lemma unhex_snoc: "unhex (s @ [c]) = 16 * unhex s + unhex_digit c"
  by (simp add: unhex_def)

lemma unhex_Nil: "unhex [] = 0"
  by (simp add: unhex_def)

lemma unhex_digit_upper:
  "d < 16 \<Longrightarrow> unhex_digit (if d < 10 then char_of (48 + d) else char_of (55 + d)) = d"
  by (auto simp: unhex_digit_def Let_def)

lemma unhex_hex_digits: "unhex (hex_digits True n) = n"
proof (induction n rule: less_induct)
  case (less n)
  show ?case
  proof (cases "n < 16")
    case True
    then have "hex_digits True n = [] @ [if n < 10 then char_of (48 + n) else char_of (55 + n)]"
      by (subst hex_digits.simps) simp
    with True show ?thesis by (simp only: unhex_snoc unhex_Nil unhex_digit_upper)
  next
    case False
    let ?d = "n mod 16"
    have "hex_digits True n =
        hex_digits True (n div 16) @ [if ?d < 10 then char_of (48 + ?d) else char_of (55 + ?d)]"
      using False by (subst hex_digits.simps) (simp add: Let_def)
    moreover have "unhex (hex_digits True (n div 16)) = n div 16"
      using False less by simp
    ultimately show ?thesis
      by (simp only: unhex_snoc unhex_digit_upper) simp
  qed
qed

lemma unhex_zeros: "unhex (replicate k (CHR ''0'') @ s) = unhex s"
proof (induction k)
  case (Suc k)
  have "unhex_digit (CHR ''0'') = 0" by (simp add: unhex_digit_def)
  with Suc show ?case by (simp add: unhex_def)
qed simp

lemma unhex_padded: "unhex (pad_left (CHR ''0'') k (hex_digits True n)) = n"
  by (simp add: pad_left_def unhex_zeros unhex_hex_digits)

lemma length_hex_digits: "n < 16 ^ Suc k \<Longrightarrow> length (hex_digits upper n) \<le> Suc k"
proof (induction k arbitrary: n)
  case 0
  then show ?case by (subst hex_digits.simps) simp
next
  case (Suc k)
  show ?case
  proof (cases "n < 16")
    case True
    then show ?thesis by (subst hex_digits.simps) simp
  next
    case False
    from Suc.prems have "n div 16 < 16 ^ Suc k" by (simp add: less_mult_imp_div_less)
    then have "length (hex_digits upper (n div 16)) \<le> Suc k" by (rule Suc.IH)
    with False show ?thesis by (subst hex_digits.simps) (simp add: Let_def)
  qed
qed

lemma length_hex_u32: "length (hex_digits upper (unat (x :: u32))) \<le> 8"
proof -
  have "unat x < 16 ^ Suc 7" using unsigned_less [of x] by simp
  then show ?thesis using length_hex_digits [of "unat x" 7] by simp
qed

subsection \<open>The translation loses nothing\<close>

text \<open>The text printed for a code outside the table: the buffer is long enough.\<close>

lemma hresult_default_text:
  "snprintf_into 32 (''Unknown HRESULT 0x'' @ pad_left (CHR ''0'') 8 (hex_digits True (unat hr)))
   = ''Unknown HRESULT 0x'' @ pad_left (CHR ''0'') 8 (hex_digits True (unat (hr :: u32)))"
proof -
  have "length (pad_left (CHR ''0'') 8 (hex_digits True (unat hr))) = 8"
    using length_hex_u32 [of True hr] by (simp add: length_pad_left)
  then show ?thesis by (simp add: snprintf_into_def)
qed

lemma hresult_table_keys: "distinct (map fst hresult_table)"
  by (simp add: hresult_table_def)

lemma hresult_table_texts: "distinct (map snd hresult_table)"
  by (simp add: hresult_table_def em_dash_def)

lemma hresult_table_no_default: "(hr, s) \<in> set hresult_table \<Longrightarrow> \<exists>c cs. s = c # cs \<and> c \<noteq> CHR ''U''"
  by (auto simp: hresult_table_def)

lemma distinct_snd_key: "distinct (map snd xs) \<Longrightarrow> (a, s) \<in> set xs \<Longrightarrow> (b, s) \<in> set xs \<Longrightarrow> a = b"
  by (induction xs) force+

lemma hresult_to_string_known:
  "(hr, s) \<in> set hresult_table \<Longrightarrow> hresult_to_string hr = s"
  using hresult_table_keys by (simp add: hresult_to_string_def)

lemma hresult_to_string_cases:
  obtains (known) s where "(hr, s) \<in> set hresult_table" "hresult_to_string hr = s"
  | (unknown) "hresult_to_string hr =
      ''Unknown HRESULT 0x'' @ pad_left (CHR ''0'') 8 (hex_digits True (unat hr))"
proof (cases "map_of hresult_table hr")
  case None
  then have "hresult_to_string hr =
      ''Unknown HRESULT 0x'' @ pad_left (CHR ''0'') 8 (hex_digits True (unat hr))"
    unfolding hresult_to_string_def by (simp only: hresult_default_text option.case)
  then show ?thesis by (rule that(2))
next
  case (Some s)
  then have "(hr, s) \<in> set hresult_table" by (rule map_of_SomeD)
  then show ?thesis using that(1) hresult_to_string_known by blast
qed

text \<open>
  The text the log shows for an HRESULT identifies it: two codes with the same text are
  the same code, for the codes of the table and for the hexadecimal default alike.
\<close>

lemma hresult_to_string_injective: "hresult_to_string a = hresult_to_string b \<longleftrightarrow> a = b"
proof
  assume eq: "hresult_to_string a = hresult_to_string b"
  show "a = b"
  proof (cases a rule: hresult_to_string_cases)
    case a: (known s)
    show ?thesis
    proof (cases b rule: hresult_to_string_cases)
      case (known t)
      with a eq show ?thesis using distinct_snd_key [OF hresult_table_texts] by metis
    next
      case unknown
      with a eq show ?thesis using hresult_table_no_default [OF a(1)] by auto
    qed
  next
    case a: unknown
    show ?thesis
    proof (cases b rule: hresult_to_string_cases)
      case (known t)
      with a eq show ?thesis using hresult_table_no_default [OF known(1)] by auto
    next
      case unknown
      with a eq have "pad_left (CHR ''0'') 8 (hex_digits True (unat a))
          = pad_left (CHR ''0'') 8 (hex_digits True (unat b))" by simp
      then have "unat a = unat b" by (metis unhex_padded)
      then show ?thesis by (simp only: word_unat_eq_iff)
    qed
  qed
qed simp

end
