(* ===== verification/Sqlvdi.thy ===== *)
theory Sqlvdi
  imports Error_Utils
begin

text \<open>
  \<open>include/sqlvdi.h\<close>: the protocol constants and structures that the client and SQL Server
  share. The COM interfaces themselves are code outside the repository; their calls are
  replies of the world (theory \<open>World\<close>). A command carries a pointer to memory owned by the
  VDI provider: it is modelled as the bytes readable from that pointer, indexed from 0, with
  None for a null pointer.
\<close>

section \<open>Device set configuration\<close>

record vdconfig =
  deviceCount :: u32
  features :: u32
  prefixZoneSize :: u32
  alignment :: u32
  softFileMarkBlockSize :: u32
  EOMWarningSize :: u32
  serverTimeOut :: u32
  blockSize :: u32
  maxIODepth :: u32
  maxTransferSize :: u32
  bufferAreaSize :: u32

text \<open>\<open>VDConfig config = {}\<close> zeroes every field.\<close>

definition vdconfig_zero :: vdconfig where
  "vdconfig_zero = \<lparr>deviceCount = 0, features = 0, prefixZoneSize = 0, alignment = 0,
     softFileMarkBlockSize = 0, EOMWarningSize = 0, serverTimeOut = 0, blockSize = 0,
     maxIODepth = 0, maxTransferSize = 0, bufferAreaSize = 0\<rparr>"

definition VDF_Default :: u32 where "VDF_Default = 0"

section \<open>Command codes\<close>

definition VDC_Read :: u32 where "VDC_Read = 1"
definition VDC_Write :: u32 where "VDC_Write = 2"
definition VDC_ClearError :: u32 where "VDC_ClearError = 3"
definition VDC_Flush :: u32 where "VDC_Flush = 12"

text \<open>The sentinel the header defines besides the enumeration.\<close>

definition VDC_Close :: u32 where "VDC_Close = 99"

lemmas VDC_defs = VDC_Read_def VDC_Write_def VDC_ClearError_def VDC_Flush_def VDC_Close_def

section \<open>Error codes\<close>

definition VD_E_CLOSE :: hresult where "VD_E_CLOSE = 0x80770001"
definition VD_E_OPEN :: hresult where "VD_E_OPEN = 0x80770002"
definition VD_E_TIMEOUT :: hresult where "VD_E_TIMEOUT = 0x80770003"
definition VD_E_ABORT :: hresult where "VD_E_ABORT = 0x80770004"
definition VD_E_INVALID :: hresult where "VD_E_INVALID = 0x80770006"
definition VD_E_NOTSUPPORTED :: hresult where "VD_E_NOTSUPPORTED = 0x80770009"
definition VD_E_OBJECT :: hresult where "VD_E_OBJECT = 0x8077000C"
definition VD_E_EOF :: hresult where "VD_E_EOF = 0x8077000E"

lemmas VD_E_defs = VD_E_CLOSE_def VD_E_TIMEOUT_def VD_E_ABORT_def VD_E_EOF_def
  VD_E_OPEN_def VD_E_INVALID_def VD_E_NOTSUPPORTED_def VD_E_OBJECT_def

lemma VD_E_failed [simp]:
  "hr_failed VD_E_CLOSE" "hr_failed VD_E_TIMEOUT" "hr_failed VD_E_ABORT" "hr_failed VD_E_EOF"
  by (simp_all add: VD_E_defs hr_failed_def)

lemma VD_E_distinct [simp]:
  "VD_E_CLOSE \<noteq> VD_E_TIMEOUT" "VD_E_TIMEOUT \<noteq> VD_E_CLOSE"
  "VD_E_CLOSE \<noteq> VD_E_EOF" "VD_E_EOF \<noteq> VD_E_CLOSE"
  "VD_E_EOF \<noteq> VD_E_TIMEOUT" "VD_E_TIMEOUT \<noteq> VD_E_EOF"
  by (simp_all add: VD_E_defs)

section \<open>Commands\<close>

type_synonym memory = "nat \<Rightarrow> u8"

record vdc_command =
  commandCode :: u32
  cmd_size :: u32
  position :: u64
  buffer :: "memory option"

text \<open>The bytes of a block that starts at a pointer.\<close>

definition bytes_at :: "memory \<Rightarrow> nat \<Rightarrow> u8 list" where
  "bytes_at p n = map p [0..<n]"

lemma length_bytes_at [simp]: "length (bytes_at p n) = n"
  by (simp add: bytes_at_def)

lemma bytes_at_0 [simp]: "bytes_at p 0 = []"
  by (simp add: bytes_at_def)

text \<open>The data a write command delivers.\<close>

definition payload :: "vdc_command \<Rightarrow> u8 list" where
  "payload cmd = (case buffer cmd of None \<Rightarrow> [] | Some p \<Rightarrow> bytes_at p (unat (cmd_size cmd)))"

end
