(* ===== verification/World.thy ===== *)
theory World
  imports Sqlvdi
begin

text \<open>
  Everything outside the repository, as a parameter: the build's compile-time constants and,
  for each external function the code calls (COM, Win32, the C++ clock, the C runtime), the
  reply it gives as a function of the whole history of calls so far. A history is a list of
  events, newest first; an event records a call with its arguments and its reply, or a line
  of output. An arbitrary adaptive environment is one value of type \<open>world\<close>.

  The section on \<open>include/logging.h\<close> models the logging macros: which levels a build emits,
  on which stream, with which prefix and text.

  Each call is an element of the state monad over histories, and has one rule in
  \<open>wp_intros\<close> that forgets which reply the world picked: what is proved through these rules
  holds whatever the environment does.
\<close>

section \<open>Log messages\<close>

datatype log_level = L_ERROR | L_WARN | L_INFO | L_DEBUG

text \<open>A message is the text the format string prints, without prefix and newline.\<close>

section \<open>Events\<close>

type_synonym devset = nat \<comment> \<open>an IClientVirtualDeviceSet2 interface pointer, never null\<close>
type_synonym device = nat \<comment> \<open>an IClientVirtualDevice interface pointer, never null\<close>

text \<open>A FILETIME pair: kernel and user time, each (high, low).\<close>

type_synonym filetime = "u32 \<times> u32"

datatype event =
    E_Log log_level string
  | E_Trace string u32 u64 \<comment> \<open>the line a TRACE_EVENT scope prints\<close>
  | E_cout string
  | E_cerr string
  | E_CoInitializeEx hresult
  | E_CoUninitialize
  | E_CoCreateInstance hresult devset
  | E_CreateEx devset string vdconfig hresult
  | E_GetConfiguration devset u32 hresult vdconfig
  | E_OpenDevice devset string hresult device
  | E_SetClose devset
  | E_SetRelease devset
  | E_GetCommand device u32 hresult "vdc_command option"
  | E_CompleteCommand device vdc_command u32 u32 u64 hresult
  | E_DeviceRelease device
  | E_steady_clock i64
  | E_QueryPerformanceFrequency u64
  | E_QueryPerformanceCounter u64
  | E_GetCurrentThreadId u32
  | E_GetProcessTimes "(filetime \<times> filetime) option"
  | E_MultiByteToWideChar string i32
  | E_CreateFileW string bool
  | E_aligned_malloc u64 bool
  | E_WriteFile "u8 list" bool u32
  | E_FlushFileBuffers
  | E_CloseHandle
  | E_aligned_free
  | E_GetCurrentProcessId u32
  | E_wsystem string i32
  | E_wcout string
  | E_cin_get
  | E_RegOpenKeyExW string bool
  | E_RegQueryValueExW string "u16 list option"
  | E_RegCloseKey
  | E_WideCharToMultiByte "u16 list" i32 i32 string
  | E_GetSystemInfo u32
  | E_GlobalMemoryStatusEx "u64 option"

type_synonym history = "event list"

record world =
  LOGGING_LEVEL :: nat
  FAULT_INJECTION_ENABLED :: bool
  r_CoInitializeEx :: "history \<Rightarrow> hresult"
  r_CoCreateInstance :: "history \<Rightarrow> hresult \<times> devset"
  r_CreateEx :: "history \<Rightarrow> string \<Rightarrow> vdconfig \<Rightarrow> hresult"
  r_GetConfiguration :: "history \<Rightarrow> u32 \<Rightarrow> hresult \<times> vdconfig"
  r_OpenDevice :: "history \<Rightarrow> string \<Rightarrow> hresult \<times> device"
  r_GetCommand :: "history \<Rightarrow> device \<Rightarrow> u32 \<Rightarrow> hresult \<times> vdc_command option"
  r_CompleteCommand :: "history \<Rightarrow> device \<Rightarrow> vdc_command \<Rightarrow> hresult"
  r_steady_clock :: "history \<Rightarrow> i64"
  r_QueryPerformanceFrequency :: "history \<Rightarrow> u64"
  r_QueryPerformanceCounter :: "history \<Rightarrow> u64"
  r_GetCurrentThreadId :: "history \<Rightarrow> u32"
  r_GetProcessTimes :: "history \<Rightarrow> (filetime \<times> filetime) option"
  r_MultiByteToWideChar :: "history \<Rightarrow> string \<Rightarrow> i32"
  r_CreateFileW :: "history \<Rightarrow> string \<Rightarrow> bool"
  r_aligned_malloc :: "history \<Rightarrow> u64 \<Rightarrow> bool"
  r_WriteFile :: "history \<Rightarrow> u8 list \<Rightarrow> bool \<times> u32"
  r_GetCurrentProcessId :: "history \<Rightarrow> u32"
  r_wsystem :: "history \<Rightarrow> string \<Rightarrow> i32"
  r_RegOpenKeyExW :: "history \<Rightarrow> string \<Rightarrow> bool"
  r_RegQueryValueExW :: "history \<Rightarrow> string \<Rightarrow> u16 list option"
  r_WideCharToMultiByte :: "history \<Rightarrow> u16 list \<Rightarrow> i32 \<Rightarrow> i32 \<times> string"
  r_GetSystemInfo :: "history \<Rightarrow> u32"
  r_GlobalMemoryStatusEx :: "history \<Rightarrow> u64 option"

type_synonym 'a io = "(history, 'a) st"

text \<open>The two shapes of an external call: with a reply to record, and without one.\<close>

definition call :: "(history \<Rightarrow> 'r) \<Rightarrow> ('r \<Rightarrow> event) \<Rightarrow> 'r io" where
  "call reply ev = State (\<lambda>h. (reply h, ev (reply h) # h))"

definition emit :: "event \<Rightarrow> unit io" where
  "emit ev = State (\<lambda>h. ((), ev # h))"

lemma run_state_call [simp]: "run_state (call reply ev) h = (reply h, ev (reply h) # h)"
  by (simp add: call_def)

lemma run_state_emit [simp]: "run_state (emit ev) h = ((), ev # h)"
  by (simp add: emit_def)

lemma wp_call [wp_intros]: "(\<And>r. Q r (ev r # h)) \<Longrightarrow> wp (call reply ev) Q h"
  by (simp add: wp_def)

lemma wp_emit [wp_intros]: "Q () (ev # h) \<Longrightarrow> wp (emit ev) Q h"
  by (simp add: wp_def)

section \<open>The external functions\<close>

definition CoInitializeEx :: "world \<Rightarrow> hresult io" where
  "CoInitializeEx w = call (r_CoInitializeEx w) E_CoInitializeEx"

definition CoUninitialize :: "unit io" where
  "CoUninitialize = emit E_CoUninitialize"

definition CoCreateInstance :: "world \<Rightarrow> (hresult \<times> devset) io" where
  "CoCreateInstance w = call (r_CoCreateInstance w) (\<lambda>(hr, ds). E_CoCreateInstance hr ds)"

definition CreateEx :: "world \<Rightarrow> devset \<Rightarrow> string \<Rightarrow> vdconfig \<Rightarrow> hresult io" where
  "CreateEx w ds nm cfg = call (\<lambda>h. r_CreateEx w h nm cfg) (E_CreateEx ds nm cfg)"

definition GetConfiguration :: "world \<Rightarrow> devset \<Rightarrow> u32 \<Rightarrow> (hresult \<times> vdconfig) io" where
  "GetConfiguration w ds t =
     call (\<lambda>h. r_GetConfiguration w h t) (\<lambda>(hr, cfg). E_GetConfiguration ds t hr cfg)"

definition OpenDevice :: "world \<Rightarrow> devset \<Rightarrow> string \<Rightarrow> (hresult \<times> device) io" where
  "OpenDevice w ds nm = call (\<lambda>h. r_OpenDevice w h nm) (\<lambda>(hr, d). E_OpenDevice ds nm hr d)"

definition SetClose :: "devset \<Rightarrow> unit io" where
  "SetClose ds = emit (E_SetClose ds)"

definition SetRelease :: "devset \<Rightarrow> unit io" where
  "SetRelease ds = emit (E_SetRelease ds)"

definition GetCommand :: "world \<Rightarrow> device \<Rightarrow> u32 \<Rightarrow> (hresult \<times> vdc_command option) io" where
  "GetCommand w d t = call (\<lambda>h. r_GetCommand w h d t) (\<lambda>(hr, c). E_GetCommand d t hr c)"

definition CompleteCommand ::
    "world \<Rightarrow> device \<Rightarrow> vdc_command \<Rightarrow> u32 \<Rightarrow> u32 \<Rightarrow> u64 \<Rightarrow> hresult io" where
  "CompleteCommand w d c code n pos =
     call (\<lambda>h. r_CompleteCommand w h d c) (E_CompleteCommand d c code n pos)"

definition DeviceRelease :: "device \<Rightarrow> unit io" where
  "DeviceRelease d = emit (E_DeviceRelease d)"

definition steady_clock_now :: "world \<Rightarrow> i64 io" where
  "steady_clock_now w = call (r_steady_clock w) E_steady_clock"

definition QueryPerformanceFrequency :: "world \<Rightarrow> u64 io" where
  "QueryPerformanceFrequency w = call (r_QueryPerformanceFrequency w) E_QueryPerformanceFrequency"

definition QueryPerformanceCounter :: "world \<Rightarrow> u64 io" where
  "QueryPerformanceCounter w = call (r_QueryPerformanceCounter w) E_QueryPerformanceCounter"

definition GetCurrentThreadId :: "world \<Rightarrow> u32 io" where
  "GetCurrentThreadId w = call (r_GetCurrentThreadId w) E_GetCurrentThreadId"

definition GetProcessTimes :: "world \<Rightarrow> (filetime \<times> filetime) option io" where
  "GetProcessTimes w = call (r_GetProcessTimes w) E_GetProcessTimes"

definition MultiByteToWideChar :: "world \<Rightarrow> string \<Rightarrow> i32 io" where
  "MultiByteToWideChar w s = call (\<lambda>h. r_MultiByteToWideChar w h s) (E_MultiByteToWideChar s)"

definition CreateFileW :: "world \<Rightarrow> string \<Rightarrow> bool io" where
  "CreateFileW w nm = call (\<lambda>h. r_CreateFileW w h nm) (E_CreateFileW nm)"

definition aligned_malloc :: "world \<Rightarrow> u64 \<Rightarrow> bool io" where
  "aligned_malloc w n = call (\<lambda>h. r_aligned_malloc w h n) (E_aligned_malloc n)"

definition WriteFile :: "world \<Rightarrow> u8 list \<Rightarrow> (bool \<times> u32) io" where
  "WriteFile w bs = call (\<lambda>h. r_WriteFile w h bs) (\<lambda>(ok, n). E_WriteFile bs ok n)"

definition GetCurrentProcessId :: "world \<Rightarrow> u32 io" where
  "GetCurrentProcessId w = call (r_GetCurrentProcessId w) E_GetCurrentProcessId"

definition wsystem :: "world \<Rightarrow> string \<Rightarrow> i32 io" where
  "wsystem w s = call (\<lambda>h. r_wsystem w h s) (E_wsystem s)"

definition cin_get :: "unit io" where
  "cin_get = emit E_cin_get"

definition RegOpenKeyExW :: "world \<Rightarrow> string \<Rightarrow> bool io" where
  "RegOpenKeyExW w path = call (\<lambda>h. r_RegOpenKeyExW w h path) (E_RegOpenKeyExW path)"

text \<open>The bytes RegQueryValueExW stores, as UTF-16 units, or None when it does not succeed.\<close>

definition RegQueryValueExW :: "world \<Rightarrow> string \<Rightarrow> u16 list option io" where
  "RegQueryValueExW w nm = call (\<lambda>h. r_RegQueryValueExW w h nm) (E_RegQueryValueExW nm)"

definition RegCloseKey :: "unit io" where
  "RegCloseKey = emit E_RegCloseKey"

text \<open>
  A conversion to UTF-8 of a text in a buffer of a given size in bytes: the length, and the
  bytes stored (none when the size is 0, which asks for the length).
\<close>

definition WideCharToMultiByte :: "world \<Rightarrow> u16 list \<Rightarrow> i32 \<Rightarrow> (i32 \<times> string) io" where
  "WideCharToMultiByte w s n =
     call (\<lambda>h. r_WideCharToMultiByte w h s n) (\<lambda>(len, out). E_WideCharToMultiByte s n len out)"

definition GetSystemInfo :: "world \<Rightarrow> u32 io" where
  "GetSystemInfo w = call (r_GetSystemInfo w) E_GetSystemInfo"

definition GlobalMemoryStatusEx :: "world \<Rightarrow> u64 option io" where
  "GlobalMemoryStatusEx w = call (r_GlobalMemoryStatusEx w) E_GlobalMemoryStatusEx"

lemmas external_defs = CoInitializeEx_def CoUninitialize_def CoCreateInstance_def CreateEx_def
  GetConfiguration_def OpenDevice_def SetClose_def SetRelease_def GetCommand_def
  CompleteCommand_def DeviceRelease_def steady_clock_now_def QueryPerformanceFrequency_def
  QueryPerformanceCounter_def GetCurrentThreadId_def GetProcessTimes_def MultiByteToWideChar_def
  CreateFileW_def aligned_malloc_def WriteFile_def GetCurrentProcessId_def wsystem_def
  cin_get_def RegOpenKeyExW_def RegQueryValueExW_def RegCloseKey_def WideCharToMultiByte_def
  GetSystemInfo_def GlobalMemoryStatusEx_def

section \<open>The logging macros\<close>

definition LOG_LEVEL_INFO :: nat where "LOG_LEVEL_INFO = 1"
definition LOG_LEVEL_DEBUG :: nat where "LOG_LEVEL_DEBUG = 2"

definition LOG_ERROR :: "string \<Rightarrow> unit io" where
  "LOG_ERROR m = emit (E_Log L_ERROR m)"

definition LOG_INFO :: "world \<Rightarrow> string \<Rightarrow> unit io" where
  "LOG_INFO w m =
     (if LOGGING_LEVEL w \<ge> LOG_LEVEL_INFO then emit (E_Log L_INFO m) else State_Monad.return ())"

definition LOG_WARN :: "string \<Rightarrow> unit io" where
  "LOG_WARN m = emit (E_Log L_WARN m)"

definition LOG_DEBUG :: "world \<Rightarrow> string \<Rightarrow> unit io" where
  "LOG_DEBUG w m =
     (if LOGGING_LEVEL w \<ge> LOG_LEVEL_DEBUG then emit (E_Log L_DEBUG m) else State_Monad.return ())"

lemmas log_defs = LOG_ERROR_def LOG_INFO_def LOG_WARN_def LOG_DEBUG_def

text \<open>
  TRACE_EVENT: in a debug build the constructor reads the clock and the thread id, and the
  destructor at the end of the scope reads the clock again and prints the elapsed
  microseconds (a duration cast truncates towards zero). In other builds both are nothing.
\<close>

definition duration_us :: "i64 \<Rightarrow> i64 \<Rightarrow> u64" where
  "duration_us t0 t1 = word_of_int (sgn (sint (t1 - t0)) * (\<bar>sint (t1 - t0)\<bar> div 1000))"

definition trace_begin :: "world \<Rightarrow> (i64 \<times> u32) io" where
  "trace_begin w =
     (if LOGGING_LEVEL w \<ge> LOG_LEVEL_DEBUG
      then do { start \<leftarrow> steady_clock_now w; tid \<leftarrow> GetCurrentThreadId w;
                State_Monad.return (start, tid) }
      else State_Monad.return (0, 0))"

definition trace_end :: "world \<Rightarrow> string \<Rightarrow> i64 \<times> u32 \<Rightarrow> unit io" where
  "trace_end w nm d =
     (if LOGGING_LEVEL w \<ge> LOG_LEVEL_DEBUG
      then do { finish \<leftarrow> steady_clock_now w;
                emit (E_Trace nm (snd d) (duration_us (fst d) finish)) }
      else State_Monad.return ())"

section \<open>What an operation may add to the history\<close>

text \<open>
  \<open>extends P h h'\<close>: the history grew from \<open>h\<close> to \<open>h'\<close> by events that all satisfy \<open>P\<close>.
\<close>

definition extends :: "(event \<Rightarrow> bool) \<Rightarrow> history \<Rightarrow> history \<Rightarrow> bool" where
  "extends P h h' \<longleftrightarrow> (\<exists>es. h' = es @ h \<and> list_all P es)"

lemma extends_refl [simp, intro]: "extends P h h"
  by (simp add: extends_def)

lemma extends_Cons [simp]: "P e \<Longrightarrow> extends P h h' \<Longrightarrow> extends P h (e # h')"
  by (auto simp: extends_def intro: exI [of _ "e # _"])

lemma extends_trans: "extends P h h' \<Longrightarrow> extends P h' h'' \<Longrightarrow> extends P h h''"
  by (auto simp: extends_def)

lemma extends_mono: "extends P h h' \<Longrightarrow> (\<And>e. P e \<Longrightarrow> R e) \<Longrightarrow> extends R h h'"
  by (auto simp: extends_def list_all_iff)

text \<open>A quantity summed over a history is unchanged by events that do not count.\<close>

lemma extends_filter: "extends P h h' \<Longrightarrow> (\<And>e. P e \<Longrightarrow> \<not> R e) \<Longrightarrow> filter R h' = filter R h"
  by (auto simp: extends_def list_all_iff filter_empty_conv)

lemma extends_same:
  assumes "extends P h h'" "\<And>e h. P e \<Longrightarrow> f (e # h) = f h"
  shows "f h' = f h"
proof -
  obtain es where es: "h' = es @ h" "list_all P es" using assms(1) by (auto simp: extends_def)
  from es(2) have "f (es @ h) = f h" by (induction es) (auto simp: assms(2))
  with es show ?thesis by simp
qed

section \<open>A concrete world\<close>

text \<open>
  For the witnesses: a release build in which every call succeeds, WriteFile writes all it is
  given, the clocks stand still and SQL Server has nothing to send. A witness replaces the
  replies it is about.
\<close>

definition calm_world :: world where
  "calm_world = \<lparr>LOGGING_LEVEL = 0, FAULT_INJECTION_ENABLED = False,
     r_CoInitializeEx = (\<lambda>_. S_OK), r_CoCreateInstance = (\<lambda>_. (S_OK, 1)),
     r_CreateEx = (\<lambda>_ _ _. S_OK), r_GetConfiguration = (\<lambda>_ _. (S_OK, vdconfig_zero)),
     r_OpenDevice = (\<lambda>_ _. (S_OK, 1)), r_GetCommand = (\<lambda>_ _ _. (VD_E_CLOSE, None)),
     r_CompleteCommand = (\<lambda>_ _ _. S_OK), r_steady_clock = (\<lambda>_. 0),
     r_QueryPerformanceFrequency = (\<lambda>_. 10000000), r_QueryPerformanceCounter = (\<lambda>_. 0),
     r_GetCurrentThreadId = (\<lambda>_. 1), r_GetProcessTimes = (\<lambda>_. None),
     r_MultiByteToWideChar = (\<lambda>_ s. word_of_nat (length s + 1)),
     r_CreateFileW = (\<lambda>_ _. True), r_aligned_malloc = (\<lambda>_ _. True),
     r_WriteFile = (\<lambda>_ bs. (True, word_of_nat (length bs))),
     r_GetCurrentProcessId = (\<lambda>_. 42), r_wsystem = (\<lambda>_ _. 0),
     r_RegOpenKeyExW = (\<lambda>_ _. True), r_RegQueryValueExW = (\<lambda>_ _. Some [65, 66, 0]),
     r_WideCharToMultiByte = (\<lambda>_ s _. (word_of_nat (length s + 1), map (\<lambda>c. char_of (unat c)) s)),
     r_GetSystemInfo = (\<lambda>_. 8), r_GlobalMemoryStatusEx = (\<lambda>_. Some (2 ^ 34))\<rparr>"

end
