(* ===== verification/Timer.thy ===== *)
theory Timer
  imports World
begin

text \<open>
  \<open>include/timer.h\<close>: the two timer backends and their factory. The conversion of a clock
  reading to microseconds is a pure function of the reading; \<open>now_us\<close> reads the clock and
  converts. The locale \<open>us_timer\<close> is the contract the header states (monotonically
  non-decreasing within a session) with what the instrumentation needs from it: the difference
  of two readings is the elapsed time, without wrap-around. It is interpreted for both backends
  on the readings for which each keeps it; for the performance counter that range is bounded,
  and outside it the contract fails.
\<close>

datatype timer_mode = Chrono | QPC

datatype timer =
    ChronoTimer i64 \<comment> \<open>the epoch, a reading of the steady clock in nanoseconds\<close>
  | QPCTimer u64 u64 \<comment> \<open>frequency and start, in ticks\<close>

section \<open>Operations\<close>

definition chrono_us :: "i64 \<Rightarrow> i64 \<Rightarrow> u64" where
  "chrono_us epoch now = duration_us epoch now"

definition qpc_us :: "u64 \<Rightarrow> u64 \<Rightarrow> u64 \<Rightarrow> u64" where
  "qpc_us freq start now = (let elapsed_ticks = now - start in (elapsed_ticks * 1000000) div freq)"

definition new_ChronoTimer :: "world \<Rightarrow> timer io" where
  "new_ChronoTimer w = do { t \<leftarrow> steady_clock_now w; State_Monad.return (ChronoTimer t) }"

definition new_QPCTimer :: "world \<Rightarrow> timer io" where
  "new_QPCTimer w = do {
     freq \<leftarrow> QueryPerformanceFrequency w;
     start \<leftarrow> QueryPerformanceCounter w;
     State_Monad.return (QPCTimer freq start) }"

definition create_timer :: "world \<Rightarrow> timer_mode \<Rightarrow> timer io" where
  "create_timer w mode = (case mode of Chrono \<Rightarrow> new_ChronoTimer w | QPC \<Rightarrow> new_QPCTimer w)"

definition now_us :: "world \<Rightarrow> timer \<Rightarrow> u64 io" where
  "now_us w t = (case t of
       ChronoTimer epoch \<Rightarrow> do { now \<leftarrow> steady_clock_now w; State_Monad.return (chrono_us epoch now) }
     | QPCTimer freq start \<Rightarrow>
         do { now \<leftarrow> QueryPerformanceCounter w; State_Monad.return (qpc_us freq start now) })"

fun is_clock :: "event \<Rightarrow> bool" where
  "is_clock (E_steady_clock _) = True"
| "is_clock (E_QueryPerformanceCounter _) = True"
| "is_clock (E_QueryPerformanceFrequency _) = True"
| "is_clock _ = False"

text \<open>Reading a timer adds one clock event to the history, whatever the value read.\<close>

lemma wp_now_us [wp_intros]:
  assumes "\<And>t e. is_clock e \<Longrightarrow> Q t (e # h)"
  shows "wp (now_us w tm) Q h"
  using assms
  by (cases tm) (auto simp: now_us_def steady_clock_now_def QueryPerformanceCounter_def
      intro!: wp_intros)

section \<open>The contract\<close>

locale us_timer =
  fixes convert :: "'c \<Rightarrow> 'r \<Rightarrow> u64"
    and ticks :: "'r \<Rightarrow> int"
    and ok :: "'c \<Rightarrow> 'r \<Rightarrow> bool"
  assumes monotone: "ok c a \<Longrightarrow> ok c b \<Longrightarrow> ticks a \<le> ticks b \<Longrightarrow> convert c a \<le> convert c b"
begin

text \<open>The code subtracts two readings as unsigned words; the result is the true difference.\<close>

lemma elapsed:
  assumes "ok c a" "ok c b" "ticks a \<le> ticks b"
  shows "unat (convert c b - convert c a) = unat (convert c b) - unat (convert c a)"
  using monotone [OF assms] by (rule unat_sub)

lemma stages_add_up:
  assumes "ok c t0" "ok c t1" "ok c t2" "ticks t0 \<le> ticks t1" "ticks t1 \<le> ticks t2"
  shows "(convert c t1 - convert c t0) + (convert c t2 - convert c t1) = convert c t2 - convert c t0
    \<and> convert c t1 - convert c t0 \<le> convert c t2 - convert c t0"
proof -
  have "convert c t0 \<le> convert c t1" "convert c t1 \<le> convert c t2" using assms monotone by blast+
  then have "unat (convert c t1) - unat (convert c t0) \<le> unat (convert c t2) - unat (convert c t0)"
    by (intro diff_le_mono) (simp add: word_le_nat_alt)
  moreover have "convert c t0 \<le> convert c t2"
    using \<open>convert c t0 \<le> convert c t1\<close> \<open>convert c t1 \<le> convert c t2\<close> by (rule order_trans)
  ultimately have "convert c t1 - convert c t0 \<le> convert c t2 - convert c t0"
    using \<open>convert c t0 \<le> convert c t1\<close> by (simp add: word_le_nat_alt unat_sub)
  then show ?thesis by simp
qed

end

subsection \<open>The chrono backend\<close>

text \<open>A reading not before the epoch, with a difference that fits the signed representation.\<close>

definition chrono_ok :: "i64 \<Rightarrow> i64 \<Rightarrow> bool" where
  "chrono_ok epoch now \<longleftrightarrow> sint epoch \<le> sint now \<and> sint now - sint epoch < 2 ^ 63"

lemma sint_diff_small:
  fixes a b :: i64
  assumes "sint a \<le> sint b" "sint b - sint a < 2 ^ 63"
  shows "sint (b - a) = sint b - sint a"
proof -
  have "sint (b - a) = signed_take_bit 63 (sint b - sint a)"
    by (simp add: sint_word_ariths)
  also have "\<dots> = sint b - sint a"
    using assms by (intro signed_take_bit_int_eq_self) auto
  finally show ?thesis .
qed

lemma chrono_us_value:
  assumes "chrono_ok epoch now"
  shows "uint (chrono_us epoch now) = (sint now - sint epoch) div 1000"
proof -
  let ?d = "sint now - sint epoch"
  have d: "sint (now - epoch) = ?d" "0 \<le> ?d" "?d < 2 ^ 63"
    using assms sint_diff_small [of epoch now] by (auto simp: chrono_ok_def)
  then have "sgn ?d * (\<bar>?d\<bar> div 1000) = ?d div 1000" by (cases "?d = 0") simp_all
  then have "chrono_us epoch now = word_of_int (?d div 1000)"
    by (simp only: chrono_us_def duration_us_def d(1))
  moreover have "0 \<le> ?d div 1000" "?d div 1000 < 2 ^ 64" using d by auto
  ultimately show ?thesis
    by (simp add: uint_word_of_int take_bit_int_eq_self)
qed

interpretation chrono: us_timer chrono_us "sint :: i64 \<Rightarrow> int" chrono_ok
proof unfold_locales
  fix c a b :: i64
  assume "chrono_ok c a" "chrono_ok c b" "sint a \<le> sint b"
  then show "chrono_us c a \<le> chrono_us c b"
    by (simp add: word_le_def chrono_us_value zdiv_mono1)
qed

subsection \<open>The performance counter backend\<close>

text \<open>The readings for which \<open>elapsed_ticks * 1'000'000\<close> does not wrap; the counter runs at a fixed frequency.\<close>

definition qpc_ok :: "u64 \<times> u64 \<Rightarrow> u64 \<Rightarrow> bool" where
  "qpc_ok c now \<longleftrightarrow> snd c \<le> now \<and> (uint now - uint (snd c)) * 1000000 < 2 ^ 64"

definition qpc_convert :: "u64 \<times> u64 \<Rightarrow> u64 \<Rightarrow> u64" where
  "qpc_convert c now = qpc_us (fst c) (snd c) now"

lemma qpc_us_value:
  assumes "qpc_ok (freq, start) now"
  shows "uint (qpc_us freq start now) = ((uint now - uint start) * 1000000) div uint freq"
proof -
  have le: "start \<le> now" and lt: "(uint now - uint start) * 1000000 < 2 ^ 64"
    using assms by (auto simp: qpc_ok_def)
  have "uint (now - start) = uint now - uint start" using le by (rule uint_minus_simple_alt [THEN iffD1])
  moreover from this have "uint (now - start) * uint (1000000 :: u64) < 2 ^ LENGTH(64)"
    using lt by simp
  then have "uint ((now - start) * 1000000) = uint (now - start) * uint (1000000 :: u64)"
    by (rule uint_mult_lem [THEN iffD1])
  ultimately have "uint ((now - start) * 1000000) = (uint now - uint start) * 1000000" by simp
  then show ?thesis by (simp add: qpc_us_def Let_def uint_div)
qed

interpretation qpc: us_timer qpc_convert "uint :: u64 \<Rightarrow> int" qpc_ok
proof unfold_locales
  fix c :: "u64 \<times> u64" and a b :: u64
  assume ok: "qpc_ok c a" "qpc_ok c b" and le: "uint a \<le> uint b"
  obtain freq start where c: "c = (freq, start)" by (cases c)
  have "((uint a - uint start) * 1000000) div uint freq \<le> ((uint b - uint start) * 1000000) div uint freq"
    using le by (cases "uint freq = 0") (auto intro!: zdiv_mono1 simp: word_neq_0_conv [symmetric] less_le)
  then show "qpc_convert c a \<le> qpc_convert c b"
    using ok by (simp add: word_le_def qpc_convert_def qpc_us_value c)
qed

text \<open>
  The chrono timer is exact: for readings that do not go back and whose distance from the
  epoch fits 63 bits, the reported value is the whole microseconds since the epoch, and the
  unsigned difference of two reported values is the true difference.
\<close>

lemma chrono_timer_exact:
  assumes "chrono_ok epoch a" "chrono_ok epoch b" "sint a \<le> sint b"
  shows "uint (chrono_us epoch a) = (sint a - sint epoch) div 1000
    \<and> unat (chrono_us epoch b - chrono_us epoch a) = unat (chrono_us epoch b) - unat (chrono_us epoch a)"
  using chrono_us_value [OF assms(1)] chrono.elapsed [OF assms] by blast

text \<open>The last distance from the start, in ticks, whose product with 1'000'000 fits 64 bits.\<close>

definition last_tick :: int where
  "last_tick = (2 ^ 64 - 1) div 1000000"

lemma qpc_ok_iff: "qpc_ok (f, start) now \<longleftrightarrow> start \<le> now \<and> uint now - uint start \<le> last_tick"
  unfolding qpc_ok_def last_tick_def by auto

lemma qpc_us_offset: "qpc_us f start (start + k) = (k * 1000000) div f"
  by (simp add: qpc_us_def Let_def)

lemma fst_now_us_qpc: "fst (run_state (now_us w (QPCTimer f start)) h) = qpc_us f start (r_QueryPerformanceCounter w h)"
  by (simp add: now_us_def QueryPerformanceCounter_def)

text \<open>
  C31. The performance counter timer keeps the contract of the header up to a tick, and breaks it at the
  next. Whatever the frequency of the counter (positive, as a signed 64-bit number) and the tick
  at which the timer was made: up to 18446744073709 ticks after that, \<open>now_us\<close> is exactly the whole
  microseconds since then; one tick later the product with 1'000'000 has wrapped and \<open>now_us\<close> is less than it
  was a tick before. At the common 10 MHz that is after 21 days.
\<close>

theorem qpc_timer_wraps:
  assumes "0 < f" "uint f < 2 ^ 63"
  shows "let now = (\<lambda>h. fst (run_state (now_us w (QPCTimer f start)) h)); ticks = r_QueryPerformanceCounter w in
    (\<forall>h. start \<le> ticks h \<and> uint (ticks h) - uint start \<le> 18446744073709 \<longrightarrow>
       uint (now h) = (uint (ticks h) - uint start) * 1000000 div uint f) \<and>
    (\<forall>h h'. ticks h = start + 18446744073709 \<and> ticks h' = start + 18446744073710 \<longrightarrow> now h' < now h)"
proof -
  have f: "0 < uint f" using assms(1) by (simp add: word_less_def)
  have "448384 div uint f < 18446744073709000000 div uint f"
  proof (cases "uint f \<le> 448384")
    case True
    have "448384 div uint f < (448384 + uint f) div uint f" using f by (subst div_add_self2) simp_all
    also have "\<dots> \<le> 18446744073709000000 div uint f" by (rule zdiv_mono1) (use True f in simp_all)
    finally show ?thesis .
  next
    case False
    have "1 \<le> 18446744073709000000 div uint f" using assms(2) f by (simp add: pos_imp_zdiv_pos_iff int_one_le_iff_zero_less)
    then show ?thesis using False by simp
  qed
  then have "qpc_us f start (start + 18446744073710) < qpc_us f start (start + 18446744073709)"
    by (simp add: qpc_us_offset word_less_def uint_div)
  moreover have "uint (qpc_us f start t) = (uint t - uint start) * 1000000 div uint f"
    if "start \<le> t" "uint t - uint start \<le> 18446744073709" for t
    by (rule qpc_us_value) (use that in \<open>simp add: qpc_ok_iff last_tick_def\<close>)
  ultimately show ?thesis
    unfolding Let_def fst_now_us_qpc by (intro conjI allI impI; elim conjE) (simp_all only:)
qed

text \<open>A counter of 10 MHz, made at tick 5 and read at the last tick and at the one after it.\<close>

theorem qpc_timer_wraps_witness:
  "let w = calm_world\<lparr>r_QueryPerformanceCounter := (\<lambda>h. if h = [] then 18446744073714 else 18446744073715)\<rparr>;
       now = (\<lambda>h. fst (run_state (now_us w (QPCTimer 10000000 5)) h))
   in uint (now []) = 1844674407370 \<and> now [E_CoUninitialize] < now []"
  using qpc_timer_wraps [of 10000000
    "calm_world\<lparr>r_QueryPerformanceCounter := (\<lambda>h. if h = [] then 18446744073714 else 18446744073715)\<rparr>" 5]
  by (simp add: Let_def)

end
