(* ===== verification/Double.thy ===== *)
theory Double
  imports Prelude Complex_Main
begin

text \<open>
  The double arithmetic the reports use: IEEE 754 binary64 with the default rounding (to
  nearest, ties to even), on the values that occur here, which are counts, times and ratios
  far from the exponent limits; so the model rounds to 53 significant bits and has no
  subnormals, no overflow and no negative zero. \<open>static_cast<double>\<close>, \<open>*\<close>, \<open>/\<close>, \<open>std::ceil\<close> and the
  stream's \<open>std::fixed << std::setprecision(n)\<close> are translated; division by zero gives the
  infinities and NaN of the standard. Lemmas: the rounding error bound, exactness on
  integers, and monotonicity against integers, which is what the percentile ranks need.
\<close>

section \<open>Rounding\<close>

fun bit_length :: "nat \<Rightarrow> nat" where
  "bit_length n = (if n = 0 then 0 else Suc (bit_length (n div 2)))"

declare bit_length.simps [simp del]

lemma bit_length_bounds: "0 < n \<Longrightarrow> 2 ^ (bit_length n - 1) \<le> n \<and> n < 2 ^ bit_length n \<and> 0 < bit_length n"
proof (induction n rule: bit_length.induct)
  case (1 n)
  show ?case
  proof (cases "n = 1")
    case True
    then show ?thesis by (simp add: bit_length.simps)
  next
    case False
    with 1 have m: "n \<noteq> 0" "0 < n div 2" by auto
    with 1 have IH: "2 ^ (bit_length (n div 2) - 1) \<le> n div 2" "n div 2 < 2 ^ bit_length (n div 2)"
      "0 < bit_length (n div 2)" by auto
    have s: "bit_length n = Suc (bit_length (n div 2))" using m by (simp add: bit_length.simps [of n])
    obtain k where k: "bit_length (n div 2) = Suc k" using IH(3) by (cases "bit_length (n div 2)") auto
    show ?thesis using IH s k by auto
  qed
qed

text \<open>The binary exponent of a positive rational.\<close>

definition exponent :: "rat \<Rightarrow> int" where
  "exponent x = (case quotient_of x of (a, b) \<Rightarrow>
     let e = int (bit_length (nat a)) - int (bit_length (nat b))
     in if x < 2 powi e then e - 1 else e)"

lemma exponent_bounds:
  assumes "0 < x"
  shows "2 powi exponent x \<le> x \<and> x < 2 powi (exponent x + 1)"
proof -
  obtain a b where q: "quotient_of x = (a, b)" by (cases "quotient_of x")
  have b: "0 < b" using quotient_of_denom_pos [OF q] .
  have x: "x = of_int a / of_int b" using quotient_of_div [OF q] .
  have a: "0 < a" using assms b by (simp add: x zero_less_divide_iff)
  define i where "i = bit_length (nat a)"
  define j where "j = bit_length (nat b)"
  obtain m where m: "i = Suc m" using bit_length_bounds [of "nat a"] a by (cases i) (auto simp: i_def)
  obtain n where n: "j = Suc n" using bit_length_bounds [of "nat b"] b by (cases j) (auto simp: j_def)
  have "(2::int) ^ m \<le> a" "a < 2 ^ Suc m"
    using bit_length_bounds [of "nat a"] a m by (auto simp: i_def nat_less_iff le_nat_iff)
  then have A: "(2::rat) ^ m \<le> of_int a" "of_int a < (2::rat) ^ Suc m"
    by (metis of_int_le_iff of_int_numeral of_int_power, metis of_int_less_iff of_int_numeral of_int_power)
  have "(2::int) ^ n \<le> b" "b < 2 ^ Suc n"
    using bit_length_bounds [of "nat b"] b n by (auto simp: j_def nat_less_iff le_nat_iff)
  then have B: "(2::rat) ^ n \<le> of_int b" "of_int b < (2::rat) ^ Suc n"
    by (metis of_int_le_iff of_int_numeral of_int_power, metis of_int_less_iff of_int_numeral of_int_power)
  define e where "e = int i - int j"
  have pe: "(2::rat) powi e = 2 ^ m / 2 ^ n" by (simp add: e_def m n power_int_diff)
  have "(2::rat) ^ m / 2 ^ n < 2 * x"
  proof -
    have "(2::rat) ^ m / 2 ^ n \<le> of_int a / 2 ^ n" using A(1) by (simp add: divide_right_mono)
    also have "\<dots> < of_int a / (of_int b / 2)" using B(2) a b by (intro divide_strict_left_mono) auto
    finally show ?thesis by (simp add: x mult.commute)
  qed
  moreover have "x < 2 * (2 ^ m / 2 ^ n)"
  proof -
    have "x < 2 ^ Suc m / of_int b" using A(2) b by (simp add: x divide_strict_right_mono)
    also have "\<dots> \<le> 2 ^ Suc m / 2 ^ n" using B(1) b by (intro divide_left_mono) auto
    finally show ?thesis by simp
  qed
  ultimately have "2 powi (e - 1) < x" "x < 2 powi (e + 1)"
    by (simp_all add: pe power_int_diff power_int_add mult.commute)
  then show ?thesis
    using q by (auto simp: exponent_def e_def [symmetric] i_def [symmetric] j_def [symmetric] Let_def)
qed

text \<open>The nearest integer, ties to even.\<close>

definition round_even :: "rat \<Rightarrow> int" where
  "round_even x = (let f = \<lfloor>x\<rfloor>; d = x - of_int f in
     if d < 1 / 2 then f else if 1 / 2 < d then f + 1 else if even f then f else f + 1)"

lemma round_even_error: "\<bar>of_int (round_even x) - x\<bar> \<le> 1 / 2"
proof -
  have "of_int \<lfloor>x\<rfloor> \<le> x" "x < of_int \<lfloor>x\<rfloor> + 1" by linarith+
  moreover have "round_even x = \<lfloor>x\<rfloor> \<and> x - of_int \<lfloor>x\<rfloor> \<le> 1 / 2
      \<or> round_even x = \<lfloor>x\<rfloor> + 1 \<and> 1 / 2 \<le> x - of_int \<lfloor>x\<rfloor>"
    by (simp add: round_even_def Let_def not_less)
  ultimately show ?thesis by (auto simp: abs_le_iff)
qed

lemma round_even_of_int [simp]: "round_even (of_int n) = n"
  by (simp add: round_even_def)

lemma round_even_between: "of_int m \<le> x \<Longrightarrow> m \<le> round_even x"
  using le_floor_iff [of m x] by (auto simp: round_even_def Let_def)

lemma round_even_le: "x \<le> of_int m \<Longrightarrow> round_even x \<le> m"
proof -
  assume le: "x \<le> of_int m"
  show ?thesis
  proof (cases "x = of_int m")
    case False
    with le have "\<lfloor>x\<rfloor> < m" by (simp add: floor_less_iff)
    then show ?thesis by (auto simp: round_even_def Let_def)
  qed simp
qed

text \<open>Rounding to 53 significant bits.\<close>

definition dround :: "rat \<Rightarrow> rat" where
  "dround x = (if x = 0 then 0 else
     (let s = 2 powi (exponent \<bar>x\<bar> - 52) in of_int (round_even (x / s)) * s))"

lemma dround_0 [simp]: "dround 0 = 0"
  by (simp add: dround_def)

lemma dround_error:
  assumes "0 < x"
  shows "\<bar>dround x - x\<bar> \<le> x / 2 ^ 53"
proof -
  define s :: rat where "s = 2 powi (exponent x - 52)"
  have s: "0 < s" by (simp add: s_def)
  have "s = 2 powi exponent x / 2 ^ 52" by (simp add: s_def power_int_diff)
  then have sx: "s \<le> x / 2 ^ 52" using exponent_bounds [OF assms] by (simp add: divide_right_mono)
  have "dround x - x = (of_int (round_even (x / s)) - x / s) * s"
    using assms s by (simp add: dround_def s_def [symmetric] Let_def left_diff_distrib)
  then have "\<bar>dround x - x\<bar> = \<bar>of_int (round_even (x / s)) - x / s\<bar> * s"
    using s by (simp add: abs_mult)
  also have "\<dots> \<le> 1 / 2 * s" using round_even_error [of "x / s"] s by (simp add: mult_right_mono)
  also have "\<dots> \<le> x / 2 ^ 53" using sx by simp
  finally show ?thesis .
qed

text \<open>An integer below \<open>2^53\<close> lies on the grid of every smaller number, so rounding cannot cross it.\<close>

lemma int_on_grid:
  assumes "0 < x" "x < 2 ^ 53"
  shows "\<exists>m. (of_int k :: rat) / 2 powi (exponent x - 52) = of_int m"
proof -
  have "(2::rat) powi exponent x < 2 powi 53"
    using exponent_bounds [OF assms(1)] assms(2) by simp
  then have "exponent x < 53" using power_int_increasing [of 53 "exponent x" "2::rat"]
    by (cases "53 \<le> exponent x") auto
  then have e: "exponent x \<le> 52" by simp
  obtain n where n: "52 - exponent x = int n" using e zero_le_imp_eq_int [of "52 - exponent x"] by auto
  have "(2::rat) powi (exponent x - 52) = 1 / 2 ^ n"
    using n by (metis minus_diff_eq power_int_minus_divide power_int_of_nat)
  then have "(of_int k :: rat) / 2 powi (exponent x - 52) = of_int (k * 2 ^ n)" by simp
  then show ?thesis by blast
qed

lemma dround_le_int:
  assumes "0 < x" "x < 2 ^ 53" "x \<le> of_int k"
  shows "dround x \<le> of_int k"
proof -
  define s :: rat where "s = 2 powi (exponent x - 52)"
  have s: "0 < s" by (simp add: s_def)
  obtain m where m: "of_int k / s = of_int m" using int_on_grid [OF assms(1,2)] by (auto simp: s_def)
  have "x / s \<le> of_int m" using assms(3) s by (simp add: m [symmetric] divide_right_mono)
  then have "round_even (x / s) \<le> m" by (rule round_even_le)
  then have "of_int (round_even (x / s)) * s \<le> of_int m * s" using s by simp
  also have "of_int m * s = of_int k" using m s by (metis less_numeral_extra(3) nonzero_eq_divide_eq)
  finally show ?thesis using assms(1) by (simp add: dround_def s_def [symmetric] Let_def)
qed

lemma dround_of_int:
  assumes "0 \<le> k" "k < 2 ^ 53"
  shows "dround (of_int k) = of_int k"
proof (cases "k = 0")
  case False
  with assms have k: "(0::rat) < of_int k" "(of_int k::rat) < 2 ^ 53"
    by (simp, metis of_int_less_iff of_int_numeral of_int_power)
  define s :: rat where "s = 2 powi (exponent (of_int k) - 52)"
  have s: "0 < s" by (simp add: s_def)
  obtain m where m: "of_int k / s = of_int m" using int_on_grid [OF k] by (auto simp: s_def)
  have "dround (of_int k) = of_int (round_even (of_int k / s)) * s"
    using k by (simp add: dround_def s_def [symmetric] Let_def)
  also have "\<dots> = of_int k" using m s by (metis less_numeral_extra(3) nonzero_eq_divide_eq round_even_of_int)
  finally show ?thesis .
qed simp

section \<open>Values and operations\<close>

datatype dbl = Fin rat | PosInf | NegInf | NaN

text \<open>\<open>static_cast<double>\<close> of an unsigned 64-bit integer, and of a signed count.\<close>

definition dbl_of_u64 :: "u64 \<Rightarrow> dbl" where
  "dbl_of_u64 n = Fin (dround (of_int (uint n)))"

definition dbl_of_int :: "int \<Rightarrow> dbl" where
  "dbl_of_int n = Fin (dround (of_int n))"

fun dmul :: "dbl \<Rightarrow> dbl \<Rightarrow> dbl" where
  "dmul (Fin x) (Fin y) = Fin (dround (x * y))"
| "dmul NaN _ = NaN"
| "dmul _ NaN = NaN"
| "dmul (Fin x) i = (if x = 0 then NaN else if 0 < x then i else if i = PosInf then NegInf else PosInf)"
| "dmul i (Fin x) = (if x = 0 then NaN else if 0 < x then i else if i = PosInf then NegInf else PosInf)"
| "dmul i j = (if i = j then PosInf else NegInf)"

fun ddiv :: "dbl \<Rightarrow> dbl \<Rightarrow> dbl" where
  "ddiv (Fin x) (Fin y) =
     (if y = 0 then (if x = 0 then NaN else if 0 < x then PosInf else NegInf)
      else Fin (dround (x / y)))"
| "ddiv NaN _ = NaN"
| "ddiv _ NaN = NaN"
| "ddiv (Fin x) _ = Fin 0"
| "ddiv i (Fin y) = (if 0 \<le> y then i else if i = PosInf then NegInf else PosInf)"
| "ddiv _ _ = NaN"

definition dpositive :: "dbl \<Rightarrow> bool" where
  "dpositive d = (case d of Fin x \<Rightarrow> 0 < x | PosInf \<Rightarrow> True | _ \<Rightarrow> False)"

text \<open>\<open>std::ceil\<close> followed by the conversion to \<open>size_t\<close>; only applied to finite values.\<close>

definition ceil_u64 :: "dbl \<Rightarrow> u64" where
  "ceil_u64 d = (case d of Fin x \<Rightarrow> word_of_int \<lceil>x\<rceil> | _ \<Rightarrow> 0)"

section \<open>Fixed notation\<close>

text \<open>
  \<open>os << std::fixed << std::setprecision(p) << d\<close>: the exact value rounded to \<open>p\<close> decimals. The
  texts for the special values are those of the Microsoft library.
\<close>

definition format_fixed :: "nat \<Rightarrow> dbl \<Rightarrow> string" where
  "format_fixed p d = (case d of
      PosInf \<Rightarrow> ''inf''
    | NegInf \<Rightarrow> ''-inf''
    | NaN \<Rightarrow> ''-nan(ind)''
    | Fin x \<Rightarrow>
        (let n = nat \<bar>round_even (x * 10 ^ p)\<bar>;
             frac = (if p = 0 then [] else ''.'' @ pad_left (CHR ''0'') p (decimal (n mod 10 ^ p)))
         in (if x < 0 then ''-'' else []) @ decimal (n div 10 ^ p) @ frac))"

end
