(* ===== verification/Metrics.thy ===== *)
theory Metrics
  imports Timer Double "HOL-Library.Multiset"
begin

text \<open>
  \<open>include/chunk_timing.h\<close>, \<open>include/metrics.h\<close> and the recording half of \<open>src/metrics.cpp\<close>: the
  counters of a session, the operations that update them, and the percentile computation with
  its double arithmetic. The text reports are in theory \<open>Metrics_Report\<close>. The counters are
  atomics of 64 bits: additions wrap. The client has one thread, so each atomic operation is
  a plain update; the compare-and-exchange loops are translated with the spurious failures
  the weak form may have (a list of them), and the result is shown not to depend on them.
\<close>

record chunk_timing =
  ct_size :: u64
  getcommand_us :: u64
  dispatch_us :: u64
  sink_us :: u64
  complete_us :: u64
  total_us :: u64
  timestamp_us :: u64

record metrics =
  m_timer :: timer
  m_metrics_logging :: bool
  m_total_bytes :: u64
  m_chunk_count :: u64
  m_min_chunk_size :: u64
  m_max_chunk_size :: u64
  m_sum_chunk_sizes :: u64
  m_buffer_acquire_count :: u64
  m_buffer_release_count :: u64
  m_buffer_pool_hits :: u64
  m_buffer_pool_misses :: u64
  m_timings :: "chunk_timing list"
  m_start_time :: i64

definition UINT64_MAX :: u64 where "UINT64_MAX = 0xFFFFFFFFFFFFFFFF"

section \<open>Recording\<close>

text \<open>The constructor takes the start time from the clock.\<close>

definition new_Metrics :: "world \<Rightarrow> timer \<Rightarrow> bool \<Rightarrow> metrics io" where
  "new_Metrics w timer enable_logging = do {
     start \<leftarrow> steady_clock_now w;
     State_Monad.return
       \<lparr>m_timer = timer, m_metrics_logging = enable_logging, m_total_bytes = 0, m_chunk_count = 0,
        m_min_chunk_size = UINT64_MAX, m_max_chunk_size = 0, m_sum_chunk_sizes = 0,
        m_buffer_acquire_count = 0, m_buffer_release_count = 0, m_buffer_pool_hits = 0,
        m_buffer_pool_misses = 0, m_timings = [], m_start_time = start\<rparr> }"

definition add_bytes :: "u64 \<Rightarrow> metrics \<Rightarrow> metrics" where
  "add_bytes n m = m\<lparr>m_total_bytes := m_total_bytes m + n, m_chunk_count := m_chunk_count m + 1\<rparr>"

text \<open>
  \<open>while (better size cur) if (cell.compare_exchange_weak(cur, size)) break;\<close>: an attempt that
  fails, because \<open>cur\<close> is stale or spuriously, reloads \<open>cur\<close> from the cell. The list says which
  of the next attempts fail spuriously.
\<close>

fun cas_loop :: "(u64 \<Rightarrow> u64 \<Rightarrow> bool) \<Rightarrow> bool list \<Rightarrow> u64 \<Rightarrow> u64 \<Rightarrow> u64 \<Rightarrow> u64" where
  "cas_loop better (True # sp) n cell cur =
     (if better n cur then cas_loop better sp n cell cell else cell)"
| "cas_loop better (False # sp) n cell cur =
     (if better n cur then (if cell = cur then n else cas_loop better sp n cell cell) else cell)"
| "cas_loop better [] n cell cur =
     (if better n cur then (if cell = cur then n else if better n cell then n else cell) else cell)"

lemma cas_loop_current: "cas_loop better sp n cell cell = (if better n cell then n else cell)"
proof (induction sp)
  case (Cons b sp)
  then show ?case by (cases b) auto
qed simp

definition record_chunk_size :: "bool list \<Rightarrow> bool list \<Rightarrow> u64 \<Rightarrow> metrics \<Rightarrow> metrics" where
  "record_chunk_size sp1 sp2 n m =
     (let cur_min = m_min_chunk_size m;
          m = m\<lparr>m_min_chunk_size := cas_loop (<) sp1 n (m_min_chunk_size m) cur_min\<rparr>;
          cur_max = m_max_chunk_size m;
          m = m\<lparr>m_max_chunk_size := cas_loop (>) sp2 n (m_max_chunk_size m) cur_max\<rparr>
      in m\<lparr>m_sum_chunk_sizes := m_sum_chunk_sizes m + n\<rparr>)"

definition record_chunk_timing :: "chunk_timing \<Rightarrow> metrics \<Rightarrow> metrics" where
  "record_chunk_timing t m = m\<lparr>m_timings := m_timings m @ [t]\<rparr>"

definition record_buffer_acquire :: "bool \<Rightarrow> metrics \<Rightarrow> metrics" where
  "record_buffer_acquire success m =
     (let m = m\<lparr>m_buffer_acquire_count := m_buffer_acquire_count m + 1\<rparr>
      in if success then m\<lparr>m_buffer_pool_hits := m_buffer_pool_hits m + 1\<rparr>
         else m\<lparr>m_buffer_pool_misses := m_buffer_pool_misses m + 1\<rparr>)"

definition record_buffer_release :: "metrics \<Rightarrow> metrics" where
  "record_buffer_release m = m\<lparr>m_buffer_release_count := m_buffer_release_count m + 1\<rparr>"

definition metrics_now_us :: "world \<Rightarrow> metrics \<Rightarrow> u64 io" where
  "metrics_now_us w m = now_us w (m_timer m)"

lemma record_chunk_size_eq:
  "record_chunk_size sp1 sp2 n m =
     m\<lparr>m_min_chunk_size := min n (m_min_chunk_size m),
       m_max_chunk_size := max n (m_max_chunk_size m),
       m_sum_chunk_sizes := m_sum_chunk_sizes m + n\<rparr>"
  by (simp add: record_chunk_size_def Let_def cas_loop_current min_def max_def)

lemma wp_metrics_now_us [wp_intros]:
  "(\<And>t e. is_clock e \<Longrightarrow> Q t (e # h)) \<Longrightarrow> wp (metrics_now_us w m) Q h"
  unfolding metrics_now_us_def by (rule wp_now_us)

section \<open>What a sequence of chunks leaves in the counters\<close>

definition record_chunk :: "u64 \<Rightarrow> metrics \<Rightarrow> metrics" where
  "record_chunk n m = add_bytes n (record_chunk_size [] [] n m)"

definition word_sum :: "u64 list \<Rightarrow> u64" where
  "word_sum ns = foldr (+) ns 0"

lemma record_chunks_state:
  "let m' = fold record_chunk ns m in
     m_total_bytes m' = m_total_bytes m + word_sum ns
   \<and> m_sum_chunk_sizes m' = m_sum_chunk_sizes m + word_sum ns
   \<and> m_chunk_count m' = m_chunk_count m + of_nat (length ns)
   \<and> m_min_chunk_size m' = fold min ns (m_min_chunk_size m)
   \<and> m_max_chunk_size m' = fold max ns (m_max_chunk_size m)"
  by (induction ns arbitrary: m)
     (simp_all add: record_chunk_def record_chunk_size_eq add_bytes_def word_sum_def Let_def algebra_simps)

lemma word_sum_unat:
  "(\<Sum>n\<leftarrow>ns. unat n) < 2 ^ 64 \<Longrightarrow> unat (word_sum ns) = (\<Sum>n\<leftarrow>ns. unat n)"
proof (induction ns)
  case (Cons n ns)
  then have "unat (word_sum ns) = (\<Sum>n\<leftarrow>ns. unat n)" by simp
  with Cons.prems show ?case by (simp add: word_sum_def)
qed (simp add: word_sum_def)

lemma u64_top: "n \<le> UINT64_MAX"
proof -
  have "unat n < 2 ^ 64" using unsigned_less [of n] by simp
  then show ?thesis by (simp add: UINT64_MAX_def word_le_nat_alt)
qed

text \<open>The minimum and maximum of a non-empty sequence, from the initial values of the cells.\<close>

lemma fold_min_sizes: "ns \<noteq> [] \<Longrightarrow> fold min ns UINT64_MAX = Min (set ns)"
  using Min.set_eq_fold [of UINT64_MAX ns] u64_top by (simp add: min_absorb2)

lemma fold_max_sizes: "ns \<noteq> [] \<Longrightarrow> fold max ns (0 :: u64) = Max (set ns)"
  using Max.set_eq_fold [of 0 ns] by (simp add: max_absorb2)

text \<open>
  The counters after a sequence of chunks on a fresh \<open>Metrics\<close>, whatever spurious failures
  the compare-and-exchange loops meet: minimum and maximum are those of the sizes, and while
  the true total fits 64 bits the byte total and the running sum are the true total and the chunk
  count is the number of chunks, so the reported average is the true average rounded down.
\<close>

lemma metrics_count_chunks:
  assumes "ns \<noteq> []" "(\<Sum>n\<leftarrow>ns. unat n) < 2 ^ 64" "length ns < 2 ^ 64"
    and fresh: "m_total_bytes m = 0" "m_chunk_count m = 0" "m_sum_chunk_sizes m = 0"
      "m_min_chunk_size m = UINT64_MAX" "m_max_chunk_size m = 0"
  shows "let m' = fold record_chunk ns m in
      unat (m_total_bytes m') = (\<Sum>n\<leftarrow>ns. unat n)
    \<and> unat (m_chunk_count m') = length ns
    \<and> m_min_chunk_size m' = Min (set ns) \<and> m_max_chunk_size m' = Max (set ns)
    \<and> unat (m_sum_chunk_sizes m' div m_chunk_count m') = (\<Sum>n\<leftarrow>ns. unat n) div length ns"
proof -
  have "unat (of_nat (length ns) :: u64) = length ns"
    using assms(3) by (simp add: unat_of_nat take_bit_nat_eq_self)
  with record_chunks_state [of ns m] fold_min_sizes [OF assms(1)] fold_max_sizes [OF assms(1)] show ?thesis
    by (simp add: Let_def fresh word_sum_unat [OF assms(2)] unat_div)
qed

text \<open>A fresh object for the witnesses.\<close>

definition empty_metrics :: metrics where
  "empty_metrics = \<lparr>m_timer = ChronoTimer 0, m_metrics_logging = False, m_total_bytes = 0,
     m_chunk_count = 0, m_min_chunk_size = UINT64_MAX, m_max_chunk_size = 0, m_sum_chunk_sizes = 0,
     m_buffer_acquire_count = 0, m_buffer_release_count = 0, m_buffer_pool_hits = 0,
     m_buffer_pool_misses = 0, m_timings = [], m_start_time = 0\<rparr>"

section \<open>Percentiles\<close>

definition stage_values :: "(chunk_timing \<Rightarrow> u64) \<Rightarrow> metrics \<Rightarrow> u64 list" where
  "stage_values field m = map field (m_timings m)"

definition percentile :: "u64 list \<Rightarrow> dbl \<Rightarrow> u64" where
  "percentile values p =
     (if values = [] then 0
      else
        let sorted = sort values;
            n = (of_nat (length sorted) :: u64);
            rank = dmul (ddiv p (Fin 100)) (dbl_of_u64 n);
            idx = ceil_u64 rank - 1;
            idx = (if n \<le> idx then n - 1 else idx)
        in sorted ! unat idx)"

text \<open>The double the code computes for \<open>p / 100.0\<close>, for the three percentiles it asks for.\<close>

lemma percent_constants:
  "ddiv (Fin 50) (Fin 100) = Fin (50 / 100)"
  "ddiv (Fin 95) (Fin 100) = Fin (8556839292003942 / 9007199254740992)"
  "ddiv (Fin 99) (Fin 100) = Fin (8917127262193582 / 9007199254740992)"
  by code_simp+

text \<open>The nearest-rank position the comment of the source asks for: the ceiling of \<open>p N / 100\<close>.\<close>

definition nearest_rank :: "nat \<Rightarrow> nat \<Rightarrow> nat" where
  "nearest_rank p N = (p * N + 99) div 100"

lemma ceil_div_100:
  fixes M :: nat
  shows "M \<le> 100 * ((M + 99) div 100)" "100 * ((M + 99) div 100) \<le> M + 99"
    "0 < M \<Longrightarrow> 100 * ((M + 99) div 100 - 1) < M"
proof -
  have "M + 99 < 100 + 100 * ((M + 99) div 100)" by (rule dividend_less_times_div) simp
  then show "M \<le> 100 * ((M + 99) div 100)" by linarith
  show le: "100 * ((M + 99) div 100) \<le> M + 99" by (rule times_div_less_eq_dividend)
  show "100 * ((M + 99) div 100 - 1) < M" if "0 < M" using le that by linarith
qed

lemma nearest_rank_real:
  "(of_nat (p * N) :: rat) / 100 \<le> of_nat (nearest_rank p N)
   \<and> of_nat (nearest_rank p N) \<le> (of_nat (p * N) + 99 :: rat) / 100"
proof -
  have "p * N \<le> 100 * nearest_rank p N" "100 * nearest_rank p N \<le> p * N + 99"
    unfolding nearest_rank_def by (rule ceil_div_100)+
  then have "(of_nat (p * N) :: rat) \<le> of_nat (100 * nearest_rank p N)"
      "(of_nat (100 * nearest_rank p N) :: rat) \<le> of_nat (p * N + 99)"
    by (simp_all only: of_nat_le_iff)
  then show ?thesis by (simp add: field_simps)
qed

text \<open>
  A factor a little below \<open>p/100\<close> gives the exact rank after rounding the product: rounding cannot
  cross the integer above, and the distance to the integer below is at least 1/100.
\<close>

lemma rounded_rank:
  fixes c :: rat
  assumes p: "0 < p" "p \<le> 100" and N: "0 < N" "N < 2 ^ 45"
    and c: "c \<le> of_nat p / 100" "of_nat p / 100 - of_nat p / 100 / 2 ^ 53 \<le> c" "0 < c"
  shows "\<lceil>dround (c * of_nat N)\<rceil> = int (nearest_rank p N)"
proof -
  define z where "z = c * of_nat N"
  define y :: rat where "y = of_nat (p * N) / 100"
  define k where "k = nearest_rank p N"
  have N': "(1::rat) \<le> of_nat N" "(of_nat N :: rat) < 2 ^ 45"
    using N by (simp, metis of_nat_less_iff of_nat_numeral of_nat_power)
  have y: "y = of_nat p / 100 * of_nat N" by (simp add: y_def)
  have z: "0 < z" "z \<le> y" using c N by (simp_all add: z_def y mult_right_mono)
  have "y - y / 2 ^ 53 = (of_nat p / 100 - of_nat p / 100 / 2 ^ 53) * of_nat N"
    by (simp add: y algebra_simps)
  also have "\<dots> \<le> c * of_nat N" by (rule mult_right_mono [OF c(2)]) simp
  finally have zl: "y - y / 2 ^ 53 \<le> z" by (simp only: z_def)
  have "y \<le> of_nat N" using p by (simp add: y mult_right_mono mult.commute [of _ 100])
  then have y45: "y < 2 ^ 45" using N' by simp
  have k: "y \<le> of_nat k" "of_nat k \<le> y + 99 / 100"
    using nearest_rank_real [of p N] by (simp_all add: y_def k_def add_divide_distrib)
  have "dround z \<le> of_int (int k)"
    using z y45 k by (intro dround_le_int) auto
  moreover have "of_int (int k) - 1 < dround z"
  proof -
    have "z - z / 2 ^ 53 \<le> dround z" using dround_error [OF z(1)] unfolding abs_le_iff by linarith
    moreover have "z / 2 ^ 53 \<le> y / 2 ^ 53" using z by (simp add: divide_right_mono)
    moreover have "y / 2 ^ 53 < 1 / 2 ^ 8" using y45 by simp
    ultimately show ?thesis using zl k by simp
  qed
  ultimately show ?thesis by (simp add: ceiling_eq_iff z_def [symmetric] k_def [symmetric])
qed

lemma percentile_rank:
  assumes p: "p \<in> {50, 95, 99}" and N: "0 < N" "N < 2 ^ 45"
  shows "ceil_u64 (dmul (ddiv (Fin (of_nat p)) (Fin 100)) (dbl_of_u64 (of_nat N)))
         = of_nat (nearest_rank p N)"
proof -
  have "uint (of_nat N :: u64) = int N"
    using N by (simp add: uint_nat unat_of_nat take_bit_nat_eq_self)
  moreover have "dround (of_int (int N)) = of_nat N"
    using N dround_of_int [of "int N"] by simp
  ultimately have n: "dbl_of_u64 (of_nat N) = Fin (of_nat N)" by (simp add: dbl_of_u64_def)
  obtain c where c: "ddiv (Fin (of_nat p)) (Fin 100) = Fin c" "c \<le> of_nat p / 100"
      "of_nat p / 100 - of_nat p / 100 / 2 ^ 53 \<le> c" "0 < c"
    using p percent_constants by auto
  have "0 < p" "p \<le> 100" using p by auto
  from rounded_rank [OF this N c(2-4)]
  have "ceil_u64 (Fin (dround (c * of_nat N))) = of_nat (nearest_rank p N)"
    by (simp add: ceil_u64_def)
  then show ?thesis by (simp only: c(1) n dmul.simps)
qed

lemma nearest_rank_bounds:
  assumes "0 < p" "p \<le> 100" "0 < N"
  shows "0 < nearest_rank p N \<and> nearest_rank p N \<le> N"
proof -
  have "p * N \<le> 100 * N" "0 < p * N" using assms by simp_all
  then have "100 * nearest_rank p N < 100 * N + 100" "0 < 100 * nearest_rank p N"
    using ceil_div_100 [of "p * N"] unfolding nearest_rank_def by linarith+
  then show ?thesis by simp
qed

lemma percentile_eq:
  assumes p: "p \<in> {50, 95, 99}" and N: "values \<noteq> []" "length values < 2 ^ 45"
  shows "percentile values (Fin (of_nat p)) = sort values ! (nearest_rank p (length values) - 1)"
proof -
  let ?N = "length values"
  let ?k = "nearest_rank p ?N"
  have N': "0 < ?N" using N by simp
  have k: "0 < ?k" "?k \<le> ?N" using nearest_rank_bounds [of p ?N] p N' by auto
  have u: "unat (of_nat m :: u64) = m" if "m \<le> ?N" for m
    using that N by (simp add: unat_of_nat take_bit_nat_eq_self)
  have idx: "(of_nat ?k - 1 :: u64) = of_nat (?k - 1)" using k by (simp add: of_nat_diff)
  have u1: "unat (of_nat (?k - 1) :: u64) = ?k - 1" using k by (intro u) simp
  have "\<not> (of_nat ?N :: u64) \<le> of_nat (?k - 1)"
    using k unfolding word_le_nat_alt u1 u [OF order_refl] by linarith
  then show ?thesis
    using N(1) by (simp only: percentile_def Let_def length_sort percentile_rank [OF p N' N(2)] idx u1
        if_False)
qed

subsection \<open>What the rank means\<close>

lemma sorted_count_le:
  "sorted xs \<Longrightarrow> i < length xs \<Longrightarrow> Suc i \<le> length (filter (\<lambda>x. x \<le> xs ! i) xs)"
proof -
  assume s: "sorted xs" and i: "i < length xs"
  have "\<forall>x \<in> set (take (Suc i) xs). x \<le> xs ! i"
    using s i by (auto simp: in_set_conv_nth less_Suc_eq_le intro!: sorted_nth_mono)
  then have "filter (\<lambda>x. x \<le> xs ! i) (take (Suc i) xs) = take (Suc i) xs" by (simp add: filter_id_conv)
  then have "filter (\<lambda>x. x \<le> xs ! i) xs = take (Suc i) xs @ filter (\<lambda>x. x \<le> xs ! i) (drop (Suc i) xs)"
    by (metis append_take_drop_id filter_append)
  then show ?thesis using i by simp
qed

lemma sorted_count_less:
  "sorted xs \<Longrightarrow> i < length xs \<Longrightarrow> length (filter (\<lambda>x. x < xs ! i) xs) \<le> i"
proof -
  assume s: "sorted xs" and i: "i < length xs"
  have "\<forall>x \<in> set (drop i xs). \<not> x < xs ! i"
    using s i by (auto simp: in_set_conv_nth not_less intro!: sorted_nth_mono)
  then have "filter (\<lambda>x. x < xs ! i) (drop i xs) = []" by (simp add: filter_empty_conv)
  then have "filter (\<lambda>x. x < xs ! i) xs = filter (\<lambda>x. x < xs ! i) (take i xs)"
    by (metis append_take_drop_id filter_append append_Nil2)
  then have "length (filter (\<lambda>x. x < xs ! i) xs) \<le> length (take i xs)"
    by (simp only: length_filter_le)
  then show ?thesis using i by simp
qed

lemma length_filter_sort: "length (filter P (sort xs)) = length (filter P xs)"
  by (metis mset_filter mset_sort size_mset)

text \<open>
  C28. The percentiles the reports ask for (50, 95, 99) are nearest-rank percentiles in spite of
  the double arithmetic that computes the rank: the value returned was recorded, at least
  p percent of the recorded values are not above it, and less than p percent are below it.
\<close>

theorem percentile_nearest_rank:
  assumes "p \<in> {50, 95, 99}" "values \<noteq> []" "length values < 2 ^ 45"
  shows "let r = percentile values (Fin (of_nat p)); N = length values in
      r \<in> set values
    \<and> p * N \<le> 100 * length (filter (\<lambda>x. x \<le> r) values)
    \<and> 100 * length (filter (\<lambda>x. x < r) values) < p * N"
proof -
  let ?N = "length values" and ?s = "sort values"
  let ?i = "nearest_rank p ?N - 1"
  have k: "0 < nearest_rank p ?N" "nearest_rank p ?N \<le> ?N"
    using nearest_rank_bounds [of p ?N] assms by auto
  then have i: "?i < length ?s" by simp
  have r: "percentile values (Fin (of_nat p)) = ?s ! ?i" by (rule percentile_eq [OF assms])
  have le: "nearest_rank p ?N \<le> length (filter (\<lambda>x. x \<le> ?s ! ?i) values)"
    using sorted_count_le [OF sorted_sort i] k by (simp add: length_filter_sort)
  have lt: "length (filter (\<lambda>x. x < ?s ! ?i) values) \<le> ?i"
    using sorted_count_less [OF sorted_sort i] by (simp add: length_filter_sort)
  have "p * ?N \<le> 100 * nearest_rank p ?N" "100 * (nearest_rank p ?N - 1) < p * ?N"
    using assms unfolding nearest_rank_def by (intro ceil_div_100; auto)+
  moreover have "?s ! ?i \<in> set values" using i by (metis nth_mem set_sort)
  ultimately show ?thesis using le lt by (simp add: r Let_def)
qed

theorem percentile_nearest_rank_witness:
  "percentile [40, 10, 30, 20] (Fin 50) \<in> {10, 20, 30, 40}"
  using percentile_nearest_rank [of 50 "[40, 10, 30, 20]"] by (auto simp: Let_def)

end
