(* ===== verification/Json.thy ===== *)
theory Json
  imports Double
begin

text \<open>
  What a consumer of the JSON reports relies on (RFC 8259, as far as the reports use it: objects,
  strings, numbers without exponent and the two booleans): a reader, and the layout the code's
  reports have, as a printer. The reader undoes the printer on every document whose strings
  need no escape. The theories of the reports show that the code's text is that layout.
\<close>

datatype json = JNum string | JStr string | JBool bool | JObj "(string \<times> json) list"

abbreviation quote_char :: char where "quote_char \<equiv> CHR 0x22"
abbreviation backslash :: char where "backslash \<equiv> CHR 0x5C"

definition nl :: string where "nl = [CHR 0x0A]"
definition dq :: string where "dq = [quote_char]"

section \<open>The layout\<close>

definition json_key :: "nat \<Rightarrow> string \<Rightarrow> string" where
  "json_key indent key = replicate indent (CHR '' '') @ dq @ key @ dq @ '': ''"

fun render :: "nat \<Rightarrow> json \<Rightarrow> string"
and render_members :: "nat \<Rightarrow> (string \<times> json) list \<Rightarrow> string" where
  "render k (JNum t) = t"
| "render k (JStr s) = dq @ s @ dq"
| "render k (JBool b) = (if b then ''true'' else ''false'')"
| "render k (JObj ms) = ''{'' @ nl @ render_members (k + 2) ms @ replicate k (CHR '' '') @ ''}''"
| "render_members k [] = []"
| "render_members k [(n, v)] = json_key k n @ render k v @ nl"
| "render_members k ((n, v) # m # ms) = json_key k n @ render k v @ '','' @ nl @ render_members k (m # ms)"

section \<open>The reader\<close>

definition is_ws :: "char \<Rightarrow> bool" where
  "is_ws c \<longleftrightarrow> c \<in> {CHR '' '', CHR 0x09, CHR 0x0A, CHR 0x0D}"

definition skip_ws :: "string \<Rightarrow> string" where
  "skip_ws s = dropWhile is_ws s"

definition is_digit :: "char \<Rightarrow> bool" where
  "is_digit c \<longleftrightarrow> 48 \<le> (of_char c :: nat) \<and> (of_char c :: nat) \<le> 57"

definition escape_of :: "char \<Rightarrow> char option" where
  "escape_of c = map_of [(quote_char, quote_char), (backslash, backslash), (CHR ''/'', CHR ''/''),
     (CHR ''b'', CHR 0x08), (CHR ''f'', CHR 0x0C), (CHR ''n'', CHR 0x0A), (CHR ''r'', CHR 0x0D),
     (CHR ''t'', CHR 0x09)] c"

text \<open>The rest of a string, after its opening quote.\<close>

fun read_string :: "string \<Rightarrow> (string \<times> string) option" where
  "read_string [] = None"
| "read_string (c # s) =
     (if c = quote_char then Some ([], s)
      else if c = backslash
      then (case s of
          [] \<Rightarrow> None
        | e # s' \<Rightarrow> (case escape_of e of
            None \<Rightarrow> None
          | Some d \<Rightarrow> map_option (apfst ((#) d)) (read_string s')))
      else if (of_char c :: nat) < 32 then None
      else map_option (apfst ((#) c)) (read_string s))"

text \<open>A number: an optional minus, digits without a leading zero, an optional fraction.\<close>

definition is_int_part :: "string \<Rightarrow> bool" where
  "is_int_part s \<longleftrightarrow> s \<noteq> [] \<and> list_all is_digit s \<and> (hd s = CHR ''0'' \<longrightarrow> s = ''0'')"

definition is_unsigned :: "string \<Rightarrow> bool" where
  "is_unsigned s \<longleftrightarrow>
     (let i = takeWhile is_digit s; r = dropWhile is_digit s
      in is_int_part i \<and> (r = [] \<or> hd r = CHR ''.'' \<and> tl r \<noteq> [] \<and> list_all is_digit (tl r)))"

definition is_number :: "string \<Rightarrow> bool" where
  "is_number s \<longleftrightarrow> is_unsigned (if s \<noteq> [] \<and> hd s = CHR ''-'' then tl s else s)"

definition number_char :: "char \<Rightarrow> bool" where
  "number_char c \<longleftrightarrow> is_digit c \<or> c = CHR ''.'' \<or> c = CHR ''-''"

definition read_number :: "string \<Rightarrow> (string \<times> string) option" where
  "read_number s = (let t = takeWhile number_char s
     in if is_number t then Some (t, dropWhile number_char s) else None)"

text \<open>Values and the members of an object, after its opening brace; the fuel bounds the recursion.\<close>

fun read_value :: "nat \<Rightarrow> string \<Rightarrow> (json \<times> string) option"
and read_members :: "nat \<Rightarrow> string \<Rightarrow> ((string \<times> json) list \<times> string) option" where
  "read_value 0 s = None"
| "read_value (Suc n) s = (case skip_ws s of
      [] \<Rightarrow> None
    | c # r \<Rightarrow>
        if c = CHR ''{''
        then (case skip_ws r of
            [] \<Rightarrow> None
          | d # r' \<Rightarrow> if d = CHR ''}'' then Some (JObj [], r')
                    else map_option (apfst JObj) (read_members n (d # r')))
        else if c = quote_char then map_option (apfst JStr) (read_string r)
        else if take 4 (c # r) = ''true'' then Some (JBool True, drop 4 (c # r))
        else if take 5 (c # r) = ''false'' then Some (JBool False, drop 5 (c # r))
        else map_option (apfst JNum) (read_number (c # r)))"
| "read_members 0 s = None"
| "read_members (Suc n) s = (case skip_ws s of
      [] \<Rightarrow> None
    | c # r \<Rightarrow>
        if c \<noteq> quote_char then None
        else (case read_string r of
            None \<Rightarrow> None
          | Some (key, r) \<Rightarrow> (case skip_ws r of
              [] \<Rightarrow> None
            | d # r \<Rightarrow>
                if d \<noteq> CHR '':'' then None
                else (case read_value n r of
                    None \<Rightarrow> None
                  | Some (v, r) \<Rightarrow> (case skip_ws r of
                      [] \<Rightarrow> None
                    | e # r \<Rightarrow>
                        if e = CHR ''}'' then Some ([(key, v)], r)
                        else if e = CHR '','' then map_option (apfst ((#) (key, v))) (read_members n r)
                        else None)))))"

definition read_json :: "string \<Rightarrow> json option" where
  "read_json s = (case read_value (Suc (length s)) s of
      None \<Rightarrow> None
    | Some (j, r) \<Rightarrow> if skip_ws r = [] then Some j else None)"

section \<open>Reading tokens\<close>

text \<open>A text that can stand between quotes as it is.\<close>

definition plain_char :: "char \<Rightarrow> bool" where
  "plain_char c \<longleftrightarrow> c \<noteq> quote_char \<and> c \<noteq> backslash \<and> 32 \<le> (of_char c :: nat)"

abbreviation plain :: "string \<Rightarrow> bool" where
  "plain \<equiv> list_all plain_char"

lemma read_string_plain: "plain s \<Longrightarrow> read_string (s @ quote_char # r) = Some (s, r)"
  by (induction s) (auto simp: plain_char_def)

text \<open>What may follow a number.\<close>

definition delimited :: "string \<Rightarrow> bool" where
  "delimited r \<longleftrightarrow> (case r of [] \<Rightarrow> True | c # _ \<Rightarrow> \<not> number_char c)"

lemma digit_number_char: "is_digit c \<Longrightarrow> number_char c"
  by (simp add: number_char_def)

lemma unsigned_chars: "is_unsigned s \<Longrightarrow> list_all number_char s"
proof -
  assume u: "is_unsigned s"
  have "list_all number_char (takeWhile is_digit s)"
    by (auto simp: list_all_iff digit_number_char dest: set_takeWhileD)
  moreover have "list_all number_char (dropWhile is_digit s)"
    using u by (cases "dropWhile is_digit s")
      (auto simp: is_unsigned_def Let_def list_all_iff digit_number_char number_char_def dest: set_dropWhileD)
  ultimately show ?thesis by (metis list_all_append takeWhile_dropWhile_id)
qed

lemma number_chars: "is_number t \<Longrightarrow> list_all number_char t"
  using unsigned_chars [of t] unsigned_chars [of "tl t"]
  by (cases t) (auto simp: is_number_def number_char_def split: if_splits)

lemma number_nonempty: "is_number t \<Longrightarrow> t \<noteq> []"
  by (auto simp: is_number_def is_unsigned_def is_int_part_def)

lemma take_number:
  assumes "list_all number_char t" "delimited r"
  shows "takeWhile number_char (t @ r) = t \<and> dropWhile number_char (t @ r) = r"
  using assms by (induction t) (auto simp: delimited_def split: list.splits)

lemma read_number_token: "is_number t \<Longrightarrow> delimited r \<Longrightarrow> read_number (t @ r) = Some (t, r)"
  using take_number [OF number_chars] by (simp add: read_number_def)

lemma number_char_other:
  "number_char c \<Longrightarrow> \<not> is_ws c \<and> c \<noteq> CHR ''{'' \<and> c \<noteq> quote_char \<and> c \<noteq> CHR ''t'' \<and> c \<noteq> CHR ''f''"
  by (auto simp: number_char_def is_digit_def is_ws_def)

section \<open>The reader undoes the printer\<close>

text \<open>Documents whose strings are plain and whose number texts are numbers.\<close>

fun well_formed :: "json \<Rightarrow> bool" where
  "well_formed (JNum t) = is_number t"
| "well_formed (JStr s) = plain s"
| "well_formed (JBool b) = True"
| "well_formed (JObj ms) = list_all (\<lambda>(n, v). plain n \<and> well_formed v) ms"

text \<open>The fuel that is enough for a document.\<close>

fun need :: "json \<Rightarrow> nat"
and need_members :: "(string \<times> json) list \<Rightarrow> nat" where
  "need (JObj ms) = Suc (need_members ms)"
| "need (JNum t) = 1"
| "need (JStr s) = 1"
| "need (JBool b) = 1"
| "need_members [] = 0"
| "need_members ((n, v) # ms) = Suc (need v + need_members ms)"

lemma skip_spaces [simp]: "skip_ws (replicate k (CHR '' '') @ r) = skip_ws r"
  by (induction k) (simp_all add: is_ws_def skip_ws_def)

lemma skip_char [simp]:
  "skip_ws [] = []" "skip_ws (CHR '' '' # r) = skip_ws r" "skip_ws (CHR 0x0A # r) = skip_ws r"
  "skip_ws (quote_char # r) = quote_char # r" "skip_ws (CHR ''{'' # r) = CHR ''{'' # r"
  "skip_ws (CHR ''}'' # r) = CHR ''}'' # r" "skip_ws (CHR '','' # r) = CHR '','' # r"
  "skip_ws (CHR '':'' # r) = CHR '':'' # r" "skip_ws (CHR ''t'' # r) = CHR ''t'' # r"
  "skip_ws (CHR ''f'' # r) = CHR ''f'' # r"
  by (simp_all add: is_ws_def skip_ws_def)

lemma delimited_char [simp]:
  "delimited []" "delimited (CHR 0x0A # r)" "delimited (CHR '','' # r)"
  by (simp_all add: delimited_def number_char_def is_digit_def)

lemma read_value_number:
  assumes "is_number t" "delimited r"
  shows "read_value (Suc n) (t @ r) = Some (JNum t, r)"
proof -
  obtain c t' where t: "t = c # t'" using number_nonempty [OF assms(1)] by (cases t) auto
  then have "number_char c" using number_chars [OF assms(1)] by simp
  then show ?thesis
    using t number_char_other [of c] read_number_token [OF assms] by (simp add: skip_ws_def)
qed

lemma read_value_skip: "read_value n (CHR '' '' # s) = read_value n s"
  by (cases n) simp_all

lemma read_members_skip: "read_members n (CHR 0x0A # s) = read_members n s"
  by (cases n) simp_all

lemma read_members_key:
  "plain key \<Longrightarrow> read_members (Suc n) (json_key k key @ s) =
     (case read_value n s of
        None \<Rightarrow> None
      | Some (v, r) \<Rightarrow> (case skip_ws r of
          [] \<Rightarrow> None
        | e # r \<Rightarrow>
            if e = CHR ''}'' then Some ([(key, v)], r)
            else if e = CHR '','' then map_option (apfst ((#) (key, v))) (read_members n r)
            else None))"
  by (simp add: json_key_def dq_def read_string_plain read_value_skip)

lemma read_value_object:
  assumes "ms \<noteq> []" "read_members n (render_members k ms @ s) = Some (ms, r)"
  shows "read_value (Suc n) (''{'' @ nl @ render_members k ms @ s) = Some (JObj ms, r)"
proof -
  obtain key s' where "render_members k ms = json_key k key @ s'"
    using assms(1) by (cases "(k, ms)" rule: render_members.cases) auto
  then obtain z where z: "skip_ws (render_members k ms @ s) = quote_char # z"
    by (simp add: json_key_def dq_def)
  have "read_members n (skip_ws t) = read_members n t" for t
    by (cases n) (simp_all add: skip_ws_def)
  from this [of "render_members k ms @ s"] have "read_members n (quote_char # z) = Some (ms, r)"
    using assms(2) z by simp
  then show ?thesis using z by (simp add: nl_def)
qed

lemma read_render:
  shows "\<lbrakk>well_formed j; need j \<le> n; delimited r\<rbrakk> \<Longrightarrow> read_value n (render k j @ r) = Some (j, r)"
    and "\<lbrakk>well_formed (JObj ms); need_members ms \<le> n; ms \<noteq> []\<rbrakk> \<Longrightarrow>
      read_members n (render_members k ms @ replicate i (CHR '' '') @ ''}'' @ r) = Some (ms, r)"
proof (induction k j and k ms arbitrary: n r and n r i rule: render_render_members.induct)
  case (1 k t)
  then show ?case by (cases n) (simp_all add: read_value_number del: read_value.simps(2))
next
  case (2 k s)
  then show ?case by (cases n) (simp_all add: dq_def read_string_plain)
next
  case (3 k b)
  then show ?case by (cases n) simp_all
next
  case (4 k ms)
  then obtain n' where n: "n = Suc n'" by (cases n) simp_all
  show ?case
  proof (cases "ms = []")
    case True
    then show ?thesis using n by (simp add: nl_def)
  next
    case False
    then have "read_members n' (render_members (k + 2) ms @ replicate k (CHR '' '') @ ''}'' @ r) = Some (ms, r)"
      using 4 n by simp
    from read_value_object [OF False this] show ?thesis using n by simp
  qed
next
  case (5 k)
  then show ?case by simp
next
  case (6 k key v)
  then obtain n' where n: "n = Suc n'" by (cases n) simp_all
  with 6 show ?case by (simp add: read_members_key nl_def del: read_members.simps(2))
next
  case (7 k key v m ms)
  then obtain n' where n: "n = Suc n'" by (cases n) simp_all
  with 7 show ?case by (simp add: read_members_key read_members_skip nl_def del: read_members.simps(2))
qed

lemma need_render:
  shows "well_formed j \<Longrightarrow> need j \<le> length (render k j)"
    and "well_formed (JObj ms) \<Longrightarrow> need_members ms \<le> length (render_members k ms)"
proof (induction k j and k ms rule: render_render_members.induct)
  case (1 k t)
  then show ?case using number_nonempty by (cases t) auto
qed (auto simp: dq_def nl_def json_key_def)

lemma read_json_render: "well_formed j \<Longrightarrow> read_json (render k j) = Some j"
proof -
  assume wf: "well_formed j"
  have "read_value (Suc (length (render k j))) (render k j @ []) = Some (j, [])"
    by (rule read_render(1) [OF wf]) (use need_render(1) [OF wf, of k] in simp_all)
  then show ?thesis by (simp add: read_json_def del: read_value.simps(2))
qed

section \<open>The numbers the code prints\<close>

lemma digit_char_digit: "d < 10 \<Longrightarrow> is_digit (digit_char d)"
  by (simp add: is_digit_def of_char_digit_char)

lemma decimal_digits: "list_all is_digit (decimal n)"
proof (induction n rule: decimal.induct)
  case (1 n)
  then show ?case by (subst decimal.simps) (simp add: digit_char_digit)
qed

lemma decimal_no_zero: "0 < n \<Longrightarrow> hd (decimal n) \<noteq> CHR ''0''"
proof (induction n rule: decimal.induct)
  case (1 n)
  show ?case
  proof (cases "n < 10")
    case True
    then have "of_char (digit_char n) \<noteq> (48 :: nat)" using 1 by (simp add: of_char_digit_char)
    then have "digit_char n \<noteq> CHR ''0''" by auto
    with True show ?thesis by (subst decimal.simps) simp
  next
    case False
    with 1 show ?thesis by (subst decimal.simps) (simp add: decimal_nonempty)
  qed
qed

lemma decimal_int_part: "is_int_part (decimal n)"
proof (cases "n = 0")
  case True
  moreover have "decimal 0 = ''0''" by code_simp
  ultimately show ?thesis by (simp add: is_int_part_def is_digit_def)
next
  case False
  then show ?thesis by (simp add: is_int_part_def decimal_nonempty decimal_digits decimal_no_zero)
qed

lemma unsigned_fraction:
  "list_all is_digit f \<Longrightarrow> f \<noteq> [] \<Longrightarrow> is_unsigned (decimal n @ CHR ''.'' # f)"
  "is_unsigned (decimal n)"
proof -
  have t: "takeWhile is_digit (decimal n @ r) = decimal n @ takeWhile is_digit r"
    "dropWhile is_digit (decimal n @ r) = dropWhile is_digit r" for r
    using decimal_digits [of n] by (simp_all add: list_all_iff)
  have dot: "\<not> is_digit (CHR ''.'')" by (simp add: is_digit_def)
  show "list_all is_digit f \<Longrightarrow> f \<noteq> [] \<Longrightarrow> is_unsigned (decimal n @ CHR ''.'' # f)"
    by (simp add: is_unsigned_def Let_def t dot decimal_int_part)
  show "is_unsigned (decimal n)"
    using t [of "[]"] decimal_int_part [of n] by (simp only: is_unsigned_def Let_def append_Nil2 takeWhile.simps dropWhile.simps simp_thms)
qed

lemma digit_not_minus: "is_digit c \<Longrightarrow> c \<noteq> CHR ''-''"
  by (auto simp: is_digit_def)

lemma number_of_unsigned: "is_unsigned s \<Longrightarrow> is_number s \<and> is_number (CHR ''-'' # s)"
proof -
  assume u: "is_unsigned s"
  have "s \<noteq> [] \<and> hd s \<noteq> CHR ''-''"
    using u by (cases s) (auto simp: is_unsigned_def is_int_part_def digit_not_minus split: if_splits)
  with u show ?thesis by (auto simp: is_number_def)
qed

lemma decimal_number [simp]: "is_number (decimal n)"
  using number_of_unsigned unsigned_fraction(2) by blast

lemma format_fixed_number:
  assumes "0 < p"
  shows "is_number (format_fixed p (Fin x))"
proof -
  have "list_all is_digit (replicate m (CHR ''0''))" for m
    by (induction m) (simp_all add: is_digit_def)
  then have "list_all is_digit (pad_left (CHR ''0'') p (decimal n))" "pad_left (CHR ''0'') p (decimal n) \<noteq> []" for n
    by (simp_all add: pad_left_def decimal_nonempty decimal_digits)
  then have "is_unsigned (decimal k @ ''.'' @ pad_left (CHR ''0'') p (decimal n))" for k n
    using unsigned_fraction(1) by simp
  then show ?thesis
    using assms number_of_unsigned by (simp add: format_fixed_def Let_def)
qed

end
