(* ===== verification/Metrics_Report.thy ===== *)
theory Metrics_Report
  imports Metrics Json
begin

text \<open>
  The reporting half of \<open>src/metrics.cpp\<close> (and the version string of \<open>include/version.h\<close>): the
  summary printed to the standard output and the JSON document, as the exact text the stream
  operators produce, with the double arithmetic of theory \<open>Double\<close>. Both read the steady clock
  and the process times.
\<close>

section \<open>Pieces of text\<close>

definition VDI_WRAPPER_VERSION_STRING :: string where
  "VDI_WRAPPER_VERSION_STRING = ''0.1.0''"

definition show_u64 :: "u64 \<Rightarrow> string" where
  "show_u64 n = decimal (unat n)"

text \<open>\<open>std::right << std::setw(12)\<close>.\<close>

definition setw12 :: "string \<Rightarrow> string" where
  "setw12 s = pad_left (CHR '' '') 12 s"

section \<open>Derived figures\<close>

definition filetime_to_us :: "filetime \<Rightarrow> u64" where
  "filetime_to_us ft = (word_cat (fst ft) (snd ft) :: u64) div 10"

text \<open>\<open>duration_cast<milliseconds>(end - start).count() / 1000.0\<close>, a truncating cast.\<close>

definition elapsed_seconds :: "i64 \<Rightarrow> i64 \<Rightarrow> dbl" where
  "elapsed_seconds start finish =
     (let d = sint (finish - start)
      in ddiv (dbl_of_int (sgn d * (\<bar>d\<bar> div 1000000))) (Fin 1000))"

definition megabytes :: "u64 \<Rightarrow> dbl" where
  "megabytes n = ddiv (ddiv (dbl_of_u64 n) (Fin 1024)) (Fin 1024)"

definition kilobytes :: "u64 \<Rightarrow> dbl" where
  "kilobytes n = ddiv (dbl_of_u64 n) (Fin 1024)"

definition reported_min :: "metrics \<Rightarrow> u64" where
  "reported_min m = (if m_min_chunk_size m = UINT64_MAX then 0 else m_min_chunk_size m)"

definition reported_avg :: "metrics \<Rightarrow> u64" where
  "reported_avg m = (if 0 < m_chunk_count m then m_sum_chunk_sizes m div m_chunk_count m else 0)"

definition reuse_rate :: "metrics \<Rightarrow> dbl" where
  "reuse_rate m =
     (if 0 < m_buffer_acquire_count m
      then dmul (ddiv (dbl_of_u64 (m_buffer_pool_hits m)) (dbl_of_u64 (m_buffer_acquire_count m))) (Fin 100)
      else Fin 0)"

text \<open>The summary divides by the elapsed seconds without a guard, the JSON document with one.\<close>

definition summary_throughput :: "metrics \<Rightarrow> dbl \<Rightarrow> dbl" where
  "summary_throughput m seconds = ddiv (megabytes (m_total_bytes m)) seconds"

definition json_throughput :: "metrics \<Rightarrow> dbl \<Rightarrow> dbl" where
  "json_throughput m seconds =
     (if dpositive seconds then ddiv (megabytes (m_total_bytes m)) seconds else Fin 0)"

section \<open>The printed summary\<close>

definition size_line :: "string \<Rightarrow> u64 \<Rightarrow> string" where
  "size_line label n =
     label @ show_u64 n @ '' bytes ('' @ format_fixed 1 (kilobytes n) @ '' KB)'' @ nl"

definition summary_sizes :: "metrics \<Rightarrow> string" where
  "summary_sizes m =
     ''Bytes: '' @ show_u64 (m_total_bytes m) @ nl @
     ''Chunks: '' @ show_u64 (m_chunk_count m) @ nl @
     nl @ ''Chunk Sizes:'' @ nl @
     (if 0 < m_chunk_count m
      then size_line ''  Min: '' (reported_min m) @ size_line ''  Avg: '' (reported_avg m)
           @ size_line ''  Max: '' (m_max_chunk_size m)
      else ''  (no data)'' @ nl) @
     (if 0 < m_chunk_count m
      then nl @ size_line ''Average chunk size (from totals): '' (m_total_bytes m div m_chunk_count m)
      else [])"

definition summary_elapsed :: "dbl \<Rightarrow> string" where
  "summary_elapsed seconds = nl @ ''Total elapsed time: '' @ format_fixed 1 seconds @ '' s'' @ nl"

definition summary_cpu :: "dbl \<Rightarrow> (filetime \<times> filetime) option \<Rightarrow> string" where
  "summary_cpu seconds ptimes = (case ptimes of None \<Rightarrow> [] | Some (ker, usr) \<Rightarrow>
     (let kernel_us = filetime_to_us ker;
          user_us = filetime_to_us usr;
          total_cpu_us = kernel_us + user_us;
          wall_us = dmul seconds (Fin 1000000);
          cpu_pct = (if dpositive wall_us then dmul (ddiv (dbl_of_u64 total_cpu_us) wall_us) (Fin 100)
                     else Fin 0)
      in ''CPU utilization: '' @ format_fixed 1 cpu_pct @ ''%'' @
         '' (kernel='' @ show_u64 (kernel_us div 1000) @ '' ms, user='' @ show_u64 (user_us div 1000) @
         '' ms, total='' @ show_u64 (total_cpu_us div 1000) @ '' ms)'' @ nl))"

definition print_stage :: "metrics \<Rightarrow> string \<Rightarrow> (chunk_timing \<Rightarrow> u64) \<Rightarrow> string" where
  "print_stage m name field =
     (let values = stage_values field m
      in setw12 name @ setw12 (show_u64 (percentile values (Fin 50)))
         @ setw12 (show_u64 (percentile values (Fin 95)))
         @ setw12 (show_u64 (percentile values (Fin 99))) @ nl)"

definition summary_stages :: "metrics \<Rightarrow> string" where
  "summary_stages m = (if m_timings m = [] then [] else
     nl @ ''--- Per-Stage Latency Breakdown (us) ---'' @ nl @
     setw12 ''Stage'' @ setw12 ''P50'' @ setw12 ''P95'' @ setw12 ''P99'' @ nl @
     replicate 48 (CHR ''-'') @ nl @
     print_stage m ''GetCommand'' getcommand_us @
     print_stage m ''Dispatch'' dispatch_us @
     print_stage m ''Sink'' sink_us @
     print_stage m ''Complete'' complete_us @
     print_stage m ''Total'' total_us @ nl)"

definition summary_pool :: "metrics \<Rightarrow> string" where
  "summary_pool m =
     nl @ ''Buffer Pool:'' @ nl @
     ''  Acquires:      '' @ show_u64 (m_buffer_acquire_count m) @ nl @
     ''  Releases:      '' @ show_u64 (m_buffer_release_count m) @ nl @
     ''  Hits:          '' @ show_u64 (m_buffer_pool_hits m) @ nl @
     ''  Misses:        '' @ show_u64 (m_buffer_pool_misses m) @ nl @
     ''  Reuse rate:    '' @ format_fixed 1 (reuse_rate m) @ ''%'' @ nl"

definition print_summary :: "world \<Rightarrow> metrics \<Rightarrow> unit io" where
  "print_summary w m = do {
     finish \<leftarrow> steady_clock_now w;
     let seconds = elapsed_seconds (m_start_time m) finish;
     let throughput = summary_throughput m seconds;
     emit (E_cout (summary_sizes m @ summary_elapsed seconds));
     ptimes \<leftarrow> GetProcessTimes w;
     emit (E_cout (summary_cpu seconds ptimes @
       nl @ ''Throughput MB/s: '' @ format_fixed 1 throughput @ nl @
       summary_stages m @ summary_pool m @
       (if m_metrics_logging m then nl @ ''* Logging was ON during this run'' @ nl else []) @ nl)) }"

section \<open>The JSON document\<close>

definition stage_p :: "metrics \<Rightarrow> (chunk_timing \<Rightarrow> u64) \<Rightarrow> rat \<Rightarrow> u64" where
  "stage_p m field p = percentile (stage_values field m) (Fin p)"

definition json_stage :: "metrics \<Rightarrow> string \<Rightarrow> (chunk_timing \<Rightarrow> u64) \<Rightarrow> string" where
  "json_stage m name field =
     json_key 4 name @ ''{'' @ nl @
     json_key 6 ''p50'' @ show_u64 (stage_p m field 50) @ '','' @ nl @
     json_key 6 ''p95'' @ show_u64 (stage_p m field 95) @ '','' @ nl @
     json_key 6 ''p99'' @ show_u64 (stage_p m field 99) @ nl"

definition json_text :: "metrics \<Rightarrow> dbl \<Rightarrow> (filetime \<times> filetime) option \<Rightarrow> string" where
  "json_text m seconds ptimes =
     (let throughput = json_throughput m seconds;
          kernel_us = (case ptimes of None \<Rightarrow> 0 | Some (k, _) \<Rightarrow> filetime_to_us k);
          user_us = (case ptimes of None \<Rightarrow> 0 | Some (_, u) \<Rightarrow> filetime_to_us u)
      in
     ''{'' @ nl @
     json_key 2 ''tool_version'' @ dq @ VDI_WRAPPER_VERSION_STRING @ dq @ '','' @ nl @
     json_key 2 ''throughput_mbps'' @ format_fixed 1 throughput @ '','' @ nl @
     json_key 2 ''total_bytes'' @ show_u64 (m_total_bytes m) @ '','' @ nl @
     json_key 2 ''chunk_count'' @ show_u64 (m_chunk_count m) @ '','' @ nl @
     json_key 2 ''elapsed_seconds'' @ format_fixed 2 seconds @ '','' @ nl @
     json_key 2 ''chunk_sizes'' @ ''{'' @ nl @
     json_key 4 ''min_bytes'' @ show_u64 (reported_min m) @ '','' @ nl @
     json_key 4 ''avg_bytes'' @ show_u64 (reported_avg m) @ '','' @ nl @
     json_key 4 ''max_bytes'' @ show_u64 (m_max_chunk_size m) @ nl @
     ''  },'' @ nl @
     json_key 2 ''cpu'' @ ''{'' @ nl @
     json_key 4 ''kernel_ms'' @ show_u64 (kernel_us div 1000) @ '','' @ nl @
     json_key 4 ''user_ms'' @ show_u64 (user_us div 1000) @ '','' @ nl @
     json_key 4 ''total_ms'' @ show_u64 ((kernel_us + user_us) div 1000) @ nl @
     ''  },'' @ nl @
     json_key 2 ''per_stage_timing_us'' @ ''{'' @ nl @
     json_stage m ''getcommand'' getcommand_us @ ''    },'' @ nl @
     json_stage m ''dispatch'' dispatch_us @ ''    },'' @ nl @
     json_stage m ''sink'' sink_us @ ''    },'' @ nl @
     json_stage m ''complete'' complete_us @ ''    },'' @ nl @
     json_stage m ''total'' total_us @ ''    }'' @ nl @
     ''  },'' @ nl @
     json_key 2 ''buffer_pool'' @ ''{'' @ nl @
     json_key 4 ''acquires'' @ show_u64 (m_buffer_acquire_count m) @ '','' @ nl @
     json_key 4 ''releases'' @ show_u64 (m_buffer_release_count m) @ '','' @ nl @
     json_key 4 ''hits'' @ show_u64 (m_buffer_pool_hits m) @ '','' @ nl @
     json_key 4 ''misses'' @ show_u64 (m_buffer_pool_misses m) @ '','' @ nl @
     json_key 4 ''reuse_rate_pct'' @ format_fixed 1 (reuse_rate m) @ nl @
     ''  },'' @ nl @
     json_key 2 ''logging_enabled'' @ (if m_metrics_logging m then ''true'' else ''false'') @ nl @
     ''}'')"

definition to_json :: "world \<Rightarrow> metrics \<Rightarrow> string io" where
  "to_json w m = do {
     finish \<leftarrow> steady_clock_now w;
     ptimes \<leftarrow> GetProcessTimes w;
     State_Monad.return (json_text m (elapsed_seconds (m_start_time m) finish) ptimes) }"

text \<open>The events the two reports add: clock and process time reads and output.\<close>

fun is_report :: "event \<Rightarrow> bool" where
  "is_report (E_steady_clock _) = True"
| "is_report (E_GetProcessTimes _) = True"
| "is_report (E_cout _) = True"
| "is_report _ = False"

lemma wp_print_summary: "wp (print_summary w m) (\<lambda>_ h'. extends is_report h h') h"
  unfolding print_summary_def steady_clock_now_def GetProcessTimes_def
  by (intro wp_intros) simp

lemma wp_to_json: "wp (to_json w m) (\<lambda>_ h'. extends is_report h h') h"
  unfolding to_json_def steady_clock_now_def GetProcessTimes_def
  by (intro wp_intros) simp

section \<open>Properties of the figures\<close>

lemma dround_100: "dround 100 = 100"
  using dround_of_int [of 100] by simp

lemma dround_1: "dround 1 = 1"
  using dround_of_int [of 1] by simp

lemma dround_pos: "0 < x \<Longrightarrow> 0 < dround x"
proof -
  assume x: "0 < x"
  have "x - x / 2 ^ 53 \<le> dround x" using dround_error [OF x] unfolding abs_le_iff by linarith
  moreover have "0 < x - x / 2 ^ 53" using x by simp
  ultimately show ?thesis by linarith
qed

lemma dround_u64_pos: "n \<noteq> 0 \<Longrightarrow> 0 < dround (of_int (uint (n :: u64)))"
proof -
  assume "n \<noteq> 0"
  then have "uint n \<noteq> 0" by (simp add: word_uint_eq_iff)
  then have "0 < uint n" using uint_ge_0 [of n] by linarith
  then have "(0::rat) < of_int (uint n)" by (simp only: of_int_0_less_iff)
  then show ?thesis by (rule dround_pos)
qed

lemma dbl_of_u64_eq_0: "dround (of_int (uint (n :: u64))) = 0 \<longleftrightarrow> n = 0"
  using dround_u64_pos [of n] by (cases "n = 0") auto

text \<open>
  A pool that served every request shows as one hundred percent: whenever as many hits as
  acquisitions were counted, and at least one, both reports print the reuse rate as 100.0.
\<close>

lemma reuse_rate_full:
  assumes "m_buffer_pool_hits m = m_buffer_acquire_count m" "0 < m_buffer_acquire_count m"
  shows "format_fixed 1 (reuse_rate m) = ''100.0''"
proof -
  have "dround (of_int (uint (m_buffer_acquire_count m))) \<noteq> 0"
    using assms(2) dbl_of_u64_eq_0 by auto
  then have "reuse_rate m = Fin 100"
    using assms by (simp add: reuse_rate_def dbl_of_u64_def dround_1 dround_100)
  moreover have "format_fixed 1 (Fin 100) = ''100.0''" by code_simp
  ultimately show ?thesis by simp
qed

lemma reuse_rate_full_witness:
  "format_fixed 1 (reuse_rate (record_buffer_acquire True empty_metrics)) = ''100.0''"
  by (rule reuse_rate_full) (simp_all add: record_buffer_acquire_def empty_metrics_def)

text \<open>
  The two reports disagree on a session shorter than a millisecond: the JSON document guards
  the division and prints a throughput of 0.0, the summary divides by zero and prints \<open>inf\<close>
  as soon as a byte was transferred.
\<close>

lemma throughput_short_session:
  assumes "\<bar>sint (finish - start)\<bar> < 1000000" "0 < m_total_bytes m"
  shows "format_fixed 1 (summary_throughput m (elapsed_seconds start finish)) = ''inf''
    \<and> format_fixed 1 (json_throughput m (elapsed_seconds start finish)) = ''0.0''"
proof -
  have s: "elapsed_seconds start finish = Fin 0"
    using assms(1) by (simp add: elapsed_seconds_def Let_def dbl_of_int_def)
  have n: "0 < dround (of_int (uint (m_total_bytes m)))"
    by (rule dround_u64_pos) (use assms(2) in auto)
  have "\<exists>x > 0. megabytes (m_total_bytes m) = Fin x"
    using n by (simp add: megabytes_def dbl_of_u64_def dround_pos)
  then obtain x where "0 < x" "megabytes (m_total_bytes m) = Fin x" by blast
  then have "summary_throughput m (Fin 0) = PosInf" by (simp add: summary_throughput_def)
  moreover have "json_throughput m (Fin 0) = Fin 0" by (simp add: json_throughput_def dpositive_def)
  moreover have "format_fixed 1 PosInf = ''inf''" "format_fixed 1 (Fin 0) = ''0.0''" by code_simp+
  ultimately show ?thesis using s by simp
qed

end
