(* ===== verification/Buffer_Pool.thy ===== *)
theory Buffer_Pool
  imports Prelude "HOL-Library.Multiset"
begin

text \<open>
  \<open>include/buffer_pool.h\<close> and \<open>src/buffer_pool.cpp\<close>. A pool owns a vector of byte vectors and
  a queue of the data pointers that are free. A data pointer is the index of its vector:
  moving a \<open>std::vector\<close> keeps its storage, so growing the outer vector in the constructor does
  not change the pointers already queued. Every method holds the mutex for its whole body, so
  each is one atomic step; the threads that share a pool are the step relation \<open>pool_step\<close>.

  The interface a client relies on is the locale \<open>buffer_queue\<close>, interpreted on the model.
\<close>

type_synonym ptr = nat

text \<open>A byte vector: its length and its contents.\<close>

type_synonym byte_vector = "nat \<times> (nat \<Rightarrow> u8)"

record buffer_pool =
  m_buffers :: "byte_vector list"
  m_free_buffers :: "ptr list"

section \<open>Operations\<close>

definition add_buffer :: "nat \<Rightarrow> buffer_pool \<Rightarrow> buffer_pool" where
  "add_buffer buffer_size p =
     (let bs = m_buffers p @ [(buffer_size, \<lambda>_. 0)]
      in p\<lparr>m_buffers := bs, m_free_buffers := m_free_buffers p @ [length bs - 1]\<rparr>)"

text \<open>The constructor: its loop runs \<open>cnt\<close> times.\<close>

definition BufferPool :: "nat \<Rightarrow> nat \<Rightarrow> buffer_pool" where
  "BufferPool buffer_size cnt = (add_buffer buffer_size ^^ cnt) \<lparr>m_buffers = [], m_free_buffers = []\<rparr>"

definition acquire :: "buffer_pool \<Rightarrow> ptr option \<times> buffer_pool" where
  "acquire p = (case m_free_buffers p of
       [] \<Rightarrow> (None, p)
     | q # qs \<Rightarrow> (Some q, p\<lparr>m_free_buffers := qs\<rparr>))"

definition release :: "ptr \<Rightarrow> buffer_pool \<Rightarrow> buffer_pool" where
  "release q p = p\<lparr>m_free_buffers := m_free_buffers p @ [q]\<rparr>"

lemma BufferPool_state:
  "m_free_buffers (BufferPool n k) = [0..<k] \<and> m_buffers (BufferPool n k) = replicate k (n, \<lambda>_. 0)"
proof (induction k)
  case (Suc k)
  then show ?case
    by (simp add: BufferPool_def add_buffer_def Let_def replicate_append_same)
qed (simp add: BufferPool_def)

section \<open>The interface\<close>

locale buffer_queue =
  fixes acq :: "'p \<Rightarrow> 'b option \<times> 'p"
    and rel :: "'b \<Rightarrow> 'p \<Rightarrow> 'p"
    and avail :: "'p \<Rightarrow> 'b list"
  assumes acq_empty: "avail p = [] \<Longrightarrow> acq p = (None, p)"
    and acq_front: "avail p = b # bs \<Longrightarrow> fst (acq p) = Some b \<and> avail (snd (acq p)) = bs"
    and rel_back: "avail (rel b p) = avail p @ [b]"
begin

lemma acq_fails_iff: "fst (acq p) = None \<longleftrightarrow> avail p = []"
  using acq_empty acq_front by (cases "avail p") auto

lemma acq_some: "acq p = (Some b, p') \<Longrightarrow> avail p = b # avail p'"
  using acq_empty [of p] acq_front [of p] by (cases "avail p") auto

lemma acq_none: "acq p = (None, p') \<Longrightarrow> p' = p \<and> avail p = []"
  using acq_empty [of p] acq_front [of p] by (cases "avail p") auto

text \<open>Taking a buffer and giving it straight back rotates the queue: nothing is lost.\<close>

lemma acq_rel_rotates: "acq p = (Some b, p') \<Longrightarrow> avail (rel b p') = rotate1 (avail p)"
  using acq_some [of p b p'] rel_back [of b p'] by simp

lemma acq_rel_length: "acq p = (Some b, p') \<Longrightarrow> length (avail (rel b p')) = length (avail p)"
  by (simp add: acq_rel_rotates)

end

interpretation pool: buffer_queue acquire release m_free_buffers
  by unfold_locales (simp_all add: acquire_def release_def)

text \<open>A client that acquires and gives back in turn, \<open>n\<close> times: the buffers it gets.\<close>

fun cycle :: "nat \<Rightarrow> buffer_pool \<Rightarrow> ptr option list" where
  "cycle 0 p = []"
| "cycle (Suc n) p =
     (case acquire p of
        (None, p') \<Rightarrow> None # cycle n p'
      | (Some q, p') \<Rightarrow> Some q # cycle n (release q p'))"

lemma cycle_rotate:
  "m_free_buffers p \<noteq> [] \<Longrightarrow>
   cycle n p = map (\<lambda>i. Some (m_free_buffers p ! (i mod length (m_free_buffers p)))) [0..<n]"
proof (induction n arbitrary: p)
  case (Suc n)
  let ?xs = "m_free_buffers p"
  let ?k = "length ?xs"
  from Suc.prems obtain q qs where xs: "?xs = q # qs" by (cases ?xs) auto
  let ?p' = "release q (snd (acquire p))"
  have acq: "acquire p = (Some q, snd (acquire p))" using xs by (simp add: acquire_def)
  have free': "m_free_buffers ?p' = rotate1 ?xs" by (rule pool.acq_rel_rotates [OF acq])
  have "cycle (Suc n) p = Some q # cycle n ?p'"
    by (subst cycle.simps(2), subst acq) simp
  also have "cycle n ?p' = map (\<lambda>i. Some (rotate1 ?xs ! (i mod ?k))) [0..<n]"
    using Suc.IH [of ?p'] Suc.prems free' by simp
  also have "\<dots> = map (\<lambda>i. Some (?xs ! (Suc i mod ?k))) [0..<n]"
    using Suc.prems by (intro map_cong refl) (simp add: nth_rotate1 mod_Suc_eq)
  also have "Some q # \<dots> = map (\<lambda>i. Some (?xs ! (i mod ?k))) [0..<Suc n]"
    by (subst upt_conv_Cons [of 0 "Suc n"], simp, simp only: map_Suc_upt [symmetric] list.map
        map_map o_def) (simp add: xs)
  finally show ?case .
qed simp

text \<open>
  Acquiring and giving back \<open>n\<close> times in a row, the pattern of the command loop, never fails when the
  pool has a buffer, and hands out buffer \<open>i mod cnt\<close> on the \<open>i\<close>-th turn.
\<close>

lemma pool_cycle_round_robin:
  "0 < cnt \<Longrightarrow> cycle n (BufferPool buffer_size cnt) = map (\<lambda>i. Some (i mod cnt)) [0..<n]"
  using cycle_rotate [of "BufferPool buffer_size cnt" n] by (simp add: BufferPool_state)

section \<open>Threads that share a pool\<close>

text \<open>
  One step is one critical section of one thread: it acquires (and may find the pool empty) or
  gives back a buffer it holds. Which thread goes next is not determined.
\<close>

type_synonym thread = nat

inductive pool_step ::
    "buffer_pool \<times> (thread \<times> ptr) list \<Rightarrow> buffer_pool \<times> (thread \<times> ptr) list \<Rightarrow> bool" where
  take: "acquire p = (Some q, p') \<Longrightarrow> pool_step (p, held) (p', (t, q) # held)"
| miss: "acquire p = (None, p') \<Longrightarrow> pool_step (p, held) (p', held)"
| give: "(t, q) \<in> set held \<Longrightarrow> pool_step (p, held) (release q p, remove1 (t, q) held)"

inductive pool_reachable :: "nat \<Rightarrow> buffer_pool \<times> (thread \<times> ptr) list \<Rightarrow> bool" for cnt where
  start: "pool_reachable cnt (BufferPool buffer_size cnt, [])"
| step: "pool_reachable cnt s \<Longrightarrow> pool_step s s' \<Longrightarrow> pool_reachable cnt s'"

text \<open>The buffers in the queue and those held by threads are together the buffers of the pool.\<close>

definition pool_account :: "nat \<Rightarrow> buffer_pool \<times> (thread \<times> ptr) list \<Rightarrow> bool" where
  "pool_account cnt s \<longleftrightarrow>
     mset (m_free_buffers (fst s)) + image_mset snd (mset (snd s)) = mset [0..<cnt]"

lemma pool_step_account: "pool_step s s' \<Longrightarrow> pool_account cnt s \<Longrightarrow> pool_account cnt s'"
proof (induction rule: pool_step.induct)
  case (take p q p' held t)
  then show ?case using pool.acq_some [OF take(1)] by (simp add: pool_account_def)
next
  case (miss p p' held)
  then show ?case using pool.acq_none [OF miss(1)] by simp
next
  case (give t q held p)
  from give(1) have "mset held = add_mset (t, q) (mset (remove1 (t, q) held))" by simp
  then have "image_mset snd (mset held) = add_mset q (image_mset snd (mset (remove1 (t, q) held)))"
    by (metis image_mset_add_mset snd_conv)
  with give(2) show ?case by (simp add: pool_account_def pool.rel_back)
qed

lemma pool_start_account: "pool_account cnt (BufferPool n cnt, [])"
  by (simp add: pool_account_def BufferPool_state)

lemma pool_reachable_account: "pool_reachable cnt s \<Longrightarrow> pool_account cnt s"
  by (induction rule: pool_reachable.induct) (blast intro: pool_start_account pool_step_account)+

lemma pool_account_distinct:
  "pool_account cnt (p, held) \<Longrightarrow> distinct (m_free_buffers p @ map snd held)"
proof -
  assume "pool_account cnt (p, held)"
  then have "mset (m_free_buffers p @ map snd held) = mset [0..<cnt]"
    by (simp add: pool_account_def mset_map)
  then show ?thesis by (metis distinct_upt mset_eq_imp_distinct_iff)
qed

text \<open>
  C26. However the threads interleave, no buffer is held twice: two entries of the holders'
  list with the same buffer are the same position, a held buffer is never in the free queue,
  and the buffers in the queue and held are always exactly the \<open>cnt\<close> of the constructor.
\<close>

theorem pool_mutual_exclusion:
  assumes "pool_reachable cnt (p, held)"
  shows "distinct (map snd held) \<and> set (map snd held) \<inter> set (m_free_buffers p) = {}
    \<and> set (map snd held) \<union> set (m_free_buffers p) = {0..<cnt}
    \<and> length held + length (m_free_buffers p) = cnt"
proof -
  have acc: "pool_account cnt (p, held)" by (rule pool_reachable_account [OF assms])
  have d: "distinct (m_free_buffers p @ map snd held)" by (rule pool_account_distinct [OF acc])
  have m: "mset (m_free_buffers p @ map snd held) = mset [0..<cnt]"
    using acc by (simp add: pool_account_def mset_map)
  have "set (m_free_buffers p @ map snd held) = {0..<cnt}"
    by (metis m mset_eq_setD set_upt)
  moreover have "length (m_free_buffers p @ map snd held) = cnt"
    by (metis m mset_eq_length length_upt diff_zero)
  ultimately show ?thesis using d by auto
qed

text \<open>Threads 7 and 8 have each taken a buffer of a pool of three.\<close>

lemma two_threads: "pool_reachable 3 (snd (acquire (snd (acquire (BufferPool 16 3)))), [(8, 1), (7, 0)])"
proof (rule pool_reachable.step [OF pool_reachable.step [OF pool_reachable.start [of 3 16]]])
  have p: "m_free_buffers (BufferPool 16 3) = [0, 1, 2]" by (simp add: BufferPool_state upt_rec)
  show "pool_step (BufferPool 16 3, []) (snd (acquire (BufferPool 16 3)), [(7, 0)])"
    by (rule pool_step.take) (simp add: acquire_def p)
  show "pool_step (snd (acquire (BufferPool 16 3)), [(7, 0)])
      (snd (acquire (snd (acquire (BufferPool 16 3)))), [(8, 1), (7, 0)])"
    by (rule pool_step.take) (simp add: acquire_def p)
qed

theorem pool_mutual_exclusion_witness:
  "\<exists>p. pool_reachable 3 (p, [(8, 1), (7, 0)]) \<and> {1, 0} \<inter> set (m_free_buffers p) = {} \<and>
     {1, 0} \<union> set (m_free_buffers p) = {0..<3} \<and> length (m_free_buffers p) = 1"
  using pool_mutual_exclusion [OF two_threads] two_threads by auto

end
