(* ===== verification/Sinks.thy ===== *)
theory Sinks
  imports World
begin

text \<open>
  \<open>include/sink.h\<close>, \<open>include/file_sink.h\<close> and \<open>src/file_sink.cpp\<close>: the abstract \<open>Sink\<close> as a record of
  its virtual methods, and its two classes, \<open>NullSink\<close> and \<open>FileSink\<close>. A method works on the
  sink object and the history. The 1 MB write buffer is memory with a fill count, as in the
  code; the bytes that reached the file are read off the history of WriteFile calls.

  Two locales are the interface: \<open>sink_contract\<close> (a sink touches nothing but its file) for
  every sink, and \<open>durable_sink\<close>, which adds what a caller wants to rely on about the data:
  while the operating system writes what it is asked to, a write that returns true appends its
  bytes and a flush loses none and puts them in the file. Both are interpreted for \<open>FileSink\<close>,
  the first for \<open>NullSink\<close> as well.
\<close>

section \<open>The virtual interface\<close>

type_synonym ('s, 'a) smethod = "('s \<times> history, 'a) st"

record 's sink_vtbl =
  vt_write :: "memory \<Rightarrow> u64 \<Rightarrow> ('s, bool) smethod"
  vt_flush :: "('s, unit) smethod"
  vt_is_open :: "'s \<Rightarrow> bool"
  vt_dtor :: "('s, unit) smethod"

text \<open>The history part and the object part of a method's state.\<close>

definition on_history :: "'a io \<Rightarrow> ('s, 'a) smethod" where
  "on_history m = zoom snd (\<lambda>h s. (fst s, h)) m"

definition on_object :: "('s \<Rightarrow> 's) \<Rightarrow> ('s, unit) smethod" where
  "on_object f = modify (\<lambda>s. (f (fst s), snd s))"

lemma wp_on_history [wp_intros]: "wp m (\<lambda>a h'. Q a (s, h')) h \<Longrightarrow> wp (on_history m) Q (s, h)"
  by (simp add: wp_def on_history_def split: prod.splits)

lemma wp_on_object [wp_intros]: "Q () (f s, h) \<Longrightarrow> wp (on_object f) Q (s, h)"
  by (simp add: wp_def on_object_def)

text \<open>The events a sink may cause.\<close>

fun is_sink_event :: "event \<Rightarrow> bool" where
  "is_sink_event (E_WriteFile _ _ _) = True"
| "is_sink_event E_FlushFileBuffers = True"
| "is_sink_event E_CloseHandle = True"
| "is_sink_event E_aligned_free = True"
| "is_sink_event (E_MultiByteToWideChar _ _) = True"
| "is_sink_event (E_CreateFileW _ _) = True"
| "is_sink_event (E_aligned_malloc _ _) = True"
| "is_sink_event _ = False"

section \<open>NullSink\<close>

definition null_vtbl :: "unit sink_vtbl" where
  "null_vtbl = \<lparr>vt_write = (\<lambda>_ _. State_Monad.return True), vt_flush = State_Monad.return (),
     vt_is_open = (\<lambda>_. True), vt_dtor = State_Monad.return ()\<rparr>"

section \<open>FileSink\<close>

datatype handle = INVALID_HANDLE_VALUE | Handle

record file_sink =
  m_file_handle :: handle
  m_write_buffer :: "memory option"
  m_buffered_bytes :: u64

definition WRITE_BUFFER_SIZE :: u64 where "WRITE_BUFFER_SIZE = 1 * 1024 * 1024"

text \<open>\<open>memcpy(dst + off, src, n)\<close>.\<close>

definition memcpy_at :: "memory \<Rightarrow> nat \<Rightarrow> memory \<Rightarrow> nat \<Rightarrow> memory" where
  "memcpy_at dst off src n = (\<lambda>i. if off \<le> i \<and> i < off + n then src (i - off) else dst i)"

text \<open>
  The constructor. A path that does not convert leaves the object without a file and without
  a buffer; a failed allocation leaves it without a buffer. Fresh memory is shown as zeros;
  no byte of it is read before it is written.
\<close>

definition new_FileSink :: "world \<Rightarrow> string \<Rightarrow> file_sink io" where
  "new_FileSink w path = do {
     wide_len \<leftarrow> MultiByteToWideChar w path;
     if sint wide_len \<le> 0
     then State_Monad.return
            \<lparr>m_file_handle = INVALID_HANDLE_VALUE, m_write_buffer = None, m_buffered_bytes = 0\<rparr>
     else do {
       wide_len2 \<leftarrow> MultiByteToWideChar w path;
       opened \<leftarrow> CreateFileW w path;
       allocated \<leftarrow> aligned_malloc w WRITE_BUFFER_SIZE;
       State_Monad.return
         \<lparr>m_file_handle = (if opened then Handle else INVALID_HANDLE_VALUE),
          m_write_buffer = (if allocated then Some (\<lambda>_. 0) else None), m_buffered_bytes = 0\<rparr> } }"

text \<open>The bytes of the write buffer that \<open>buffered_bytes_\<close> covers, as the DWORD passed to WriteFile counts them.\<close>

definition buffer_block :: "file_sink \<Rightarrow> u8 list" where
  "buffer_block fs = (case m_write_buffer fs of
       None \<Rightarrow> []
     | Some p \<Rightarrow> bytes_at p (unat (ucast (m_buffered_bytes fs) :: u32)))"

text \<open>\<open>flush_buffer()\<close>: the outcome of WriteFile is not looked at.\<close>

definition flush_buffer :: "world \<Rightarrow> (file_sink, unit) smethod" where
  "flush_buffer w = do {
     fs \<leftarrow> gets fst;
     if m_buffered_bytes fs = 0 then State_Monad.return ()
     else do {
       outcome \<leftarrow> on_history (WriteFile w (buffer_block fs));
       on_object (\<lambda>fs. fs\<lparr>m_buffered_bytes := 0\<rparr>) } }"

text \<open>A direct write of a chunk of the buffer's size or more.\<close>

definition write_direct :: "world \<Rightarrow> memory \<Rightarrow> u64 \<Rightarrow> (file_sink, bool) smethod" where
  "write_direct w data n = do {
     outcome \<leftarrow> on_history (WriteFile w (bytes_at data (unat (ucast n :: u32))));
     if \<not> fst outcome then State_Monad.return False
     else State_Monad.return (ucast (snd outcome) = n) }"

definition append_to_buffer :: "memory \<Rightarrow> u64 \<Rightarrow> file_sink \<Rightarrow> file_sink" where
  "append_to_buffer data n fs =
     fs\<lparr>m_write_buffer :=
          map_option (\<lambda>p. memcpy_at p (unat (m_buffered_bytes fs)) data (unat n)) (m_write_buffer fs),
        m_buffered_bytes := m_buffered_bytes fs + n\<rparr>"

definition file_write :: "world \<Rightarrow> memory \<Rightarrow> u64 \<Rightarrow> (file_sink, bool) smethod" where
  "file_write w data n = do {
     fs \<leftarrow> gets fst;
     if m_file_handle fs = INVALID_HANDLE_VALUE \<or> m_write_buffer fs = None
     then State_Monad.return False
     else if WRITE_BUFFER_SIZE \<le> n
     then do {
       (if 0 < m_buffered_bytes fs then flush_buffer w else State_Monad.return ());
       write_direct w data n }
     else do {
       (if WRITE_BUFFER_SIZE < m_buffered_bytes fs + n then flush_buffer w else State_Monad.return ());
       on_object (append_to_buffer data n);
       State_Monad.return True } }"

definition file_is_open :: "file_sink \<Rightarrow> bool" where
  "file_is_open fs \<longleftrightarrow> m_file_handle fs \<noteq> INVALID_HANDLE_VALUE"

definition file_flush :: "world \<Rightarrow> (file_sink, unit) smethod" where
  "file_flush w = do {
     flush_buffer w;
     fs \<leftarrow> gets fst;
     if m_file_handle fs \<noteq> INVALID_HANDLE_VALUE
     then on_history (emit E_FlushFileBuffers) else State_Monad.return () }"

definition file_dtor :: "world \<Rightarrow> (file_sink, unit) smethod" where
  "file_dtor w = do {
     flush_buffer w;
     fs \<leftarrow> gets fst;
     (if m_file_handle fs \<noteq> INVALID_HANDLE_VALUE
      then on_history (emit E_CloseHandle) else State_Monad.return ());
     (if m_write_buffer fs \<noteq> None
      then on_history (emit E_aligned_free) else State_Monad.return ()) }"

definition file_vtbl :: "world \<Rightarrow> file_sink sink_vtbl" where
  "file_vtbl w = \<lparr>vt_write = file_write w, vt_flush = file_flush w, vt_is_open = file_is_open,
     vt_dtor = file_dtor w\<rparr>"

section \<open>The bytes in the file\<close>

text \<open>
  WriteFile reports the number of bytes it wrote (0 when it fails); the file holds those bytes,
  call after call. \<open>os_ok\<close>: every WriteFile so far succeeded and wrote all it was given.
\<close>

fun file_bytes :: "history \<Rightarrow> u8 list" where
  "file_bytes [] = []"
| "file_bytes (E_WriteFile bs ok n # h) = file_bytes h @ take (unat n) bs"
| "file_bytes (_ # h) = file_bytes h"

fun os_ok :: "history \<Rightarrow> bool" where
  "os_ok [] = True"
| "os_ok (E_WriteFile bs ok n # h) \<longleftrightarrow> ok \<and> unat n = length bs \<and> os_ok h"
| "os_ok (_ # h) \<longleftrightarrow> os_ok h"

lemma file_bytes_other: "\<not> is_sink_event e \<Longrightarrow> file_bytes (e # h) = file_bytes h"
  by (cases e) auto

lemma os_ok_other: "\<not> is_sink_event e \<Longrightarrow> os_ok (e # h) = os_ok h"
  by (cases e) auto

lemma os_ok_tail: "os_ok (e # h) \<Longrightarrow> os_ok h"
  by (cases e) auto

lemma os_ok_extends: "extends P h h' \<Longrightarrow> os_ok h' \<Longrightarrow> os_ok h"
proof -
  have "os_ok (es @ h) \<Longrightarrow> os_ok h" for es
    by (induction es) (auto dest: os_ok_tail)
  then show "extends P h h' \<Longrightarrow> os_ok h' \<Longrightarrow> os_ok h" by (auto simp: extends_def)
qed

definition buffered_data :: "file_sink \<Rightarrow> u8 list" where
  "buffered_data fs = (case m_write_buffer fs of
       None \<Rightarrow> [] | Some p \<Rightarrow> bytes_at p (unat (m_buffered_bytes fs)))"

definition file_stored :: "file_sink \<Rightarrow> history \<Rightarrow> u8 list" where
  "file_stored fs h = file_bytes h @ buffered_data fs"

text \<open>The buffer never overflows, and only a sink with a file and a buffer holds data.\<close>

definition file_inv :: "file_sink \<Rightarrow> bool" where
  "file_inv fs \<longleftrightarrow> m_buffered_bytes fs \<le> WRITE_BUFFER_SIZE \<and>
     (m_buffered_bytes fs \<noteq> 0 \<longrightarrow> m_file_handle fs = Handle \<and> m_write_buffer fs \<noteq> None)"

section \<open>The interfaces\<close>

locale sink_contract =
  fixes vt :: "'s sink_vtbl"
  assumes write_frame: "wp (vt_write vt data n) (\<lambda>_ s'. extends is_sink_event h (snd s')) (s, h)"
    and flush_frame: "wp (vt_flush vt) (\<lambda>_ s'. extends is_sink_event h (snd s')) (s, h)"
    and dtor_frame: "wp (vt_dtor vt) (\<lambda>_ s'. extends is_sink_event h (snd s')) (s, h)"

locale durable_sink = sink_contract vt for vt :: "'s sink_vtbl" +
  fixes sinv :: "'s \<Rightarrow> bool"
    and stored :: "'s \<Rightarrow> history \<Rightarrow> u8 list"
    and durable :: "history \<Rightarrow> u8 list"
    and healthy :: "history \<Rightarrow> bool"
  assumes write_spec: "sinv s \<Longrightarrow> wp (vt_write vt data n)
      (\<lambda>ok s'. sinv (fst s') \<and> (healthy (snd s') \<longrightarrow> ok \<longrightarrow>
         stored (fst s') (snd s') = stored s h @ bytes_at data (unat n))) (s, h)"
    and flush_spec: "sinv s \<Longrightarrow> wp (vt_flush vt)
      (\<lambda>_ s'. sinv (fst s') \<and> (healthy (snd s') \<longrightarrow>
         stored (fst s') (snd s') = stored s h \<and> durable (snd s') = stored s h)) (s, h)"
    and other_event: "\<not> is_sink_event e \<Longrightarrow>
      stored s (e # h) = stored s h \<and> durable (e # h) = durable h \<and> healthy (e # h) = healthy h"
    and healthy_tail: "healthy (e # h) \<Longrightarrow> healthy h"
begin

lemma healthy_extends: "extends P h h' \<Longrightarrow> healthy h' \<Longrightarrow> healthy h"
proof -
  have "healthy (es @ h) \<Longrightarrow> healthy h" for es
    by (induction es) (auto dest: healthy_tail)
  then show "extends P h h' \<Longrightarrow> healthy h' \<Longrightarrow> healthy h" by (auto simp: extends_def)
qed

lemma other_extends:
  "extends P h h' \<Longrightarrow> (\<And>e. P e \<Longrightarrow> \<not> is_sink_event e) \<Longrightarrow>
   stored s h' = stored s h \<and> durable h' = durable h \<and> healthy h' = healthy h"
proof -
  assume P: "\<And>e. P e \<Longrightarrow> \<not> is_sink_event e"
  have "list_all P es \<Longrightarrow> stored s (es @ h) = stored s h \<and> durable (es @ h) = durable h
      \<and> healthy (es @ h) = healthy h" for es
    by (induction es) (auto dest: P simp: other_event)
  then show "extends P h h' \<Longrightarrow> ?thesis" by (auto simp: extends_def)
qed

end

section \<open>The two sinks provide the interfaces\<close>

interpretation null: sink_contract null_vtbl
  by unfold_locales (auto simp: null_vtbl_def intro!: wp_intros)

lemmas file_defs = file_write_def file_flush_def file_dtor_def flush_buffer_def write_direct_def
  WriteFile_def

interpretation file_frame: sink_contract "file_vtbl w" for w
  by unfold_locales (auto simp: file_vtbl_def file_defs intro!: wp_intros)

subsection \<open>FileSink keeps the data\<close>

lemma unat_WRITE_BUFFER_SIZE: "unat WRITE_BUFFER_SIZE = 1048576"
  by (simp add: WRITE_BUFFER_SIZE_def)

lemma unat_ucast_down:
  fixes n :: u64
  assumes "unat n < 2 ^ 32"
  shows "unat (ucast n :: u32) = unat n"
  using assms by (simp add: unsigned_ucast_eq take_bit_nat_eq_self)

lemma file_inv_small: "file_inv fs \<Longrightarrow> unat (m_buffered_bytes fs) \<le> 1048576"
  by (simp add: file_inv_def word_le_nat_alt unat_WRITE_BUFFER_SIZE)

lemma buffer_block_eq: "file_inv fs \<Longrightarrow> buffer_block fs = buffered_data fs"
  using file_inv_small [of fs]
  by (simp add: buffer_block_def buffered_data_def unat_ucast_down split: option.splits)

lemma buffered_data_0: "m_buffered_bytes fs = 0 \<Longrightarrow> buffered_data fs = []"
  by (simp add: buffered_data_def split: option.splits)

lemma bytes_at_memcpy: "bytes_at (memcpy_at dst k src n) (k + n) = bytes_at dst k @ bytes_at src n"
proof -
  have "[0..<k + n] = [0..<k] @ [k..<k + n]" by (rule upt_add_eq_append) simp
  then have "bytes_at (memcpy_at dst k src n) (k + n) =
      map (memcpy_at dst k src n) [0..<k] @ map (memcpy_at dst k src n) [k..<k + n]"
    unfolding bytes_at_def by (simp only: map_append)
  moreover have "map (memcpy_at dst k src n) [0..<k] = bytes_at dst k"
    by (simp add: bytes_at_def memcpy_at_def)
  moreover have "map (memcpy_at dst k src n) [k..<k + n] = bytes_at src n"
    by (rule nth_equalityI) (simp_all add: bytes_at_def memcpy_at_def)
  ultimately show ?thesis by simp
qed

text \<open>A flush of the buffer moves its bytes to the file, and empties it whatever happens.\<close>

lemma flush_buffer_spec:
  assumes "file_inv fs"
  shows "wp (flush_buffer w)
    (\<lambda>_ s'. fst s' = fs\<lparr>m_buffered_bytes := 0\<rparr> \<and> 
       (os_ok (snd s') \<longrightarrow> os_ok h \<and> file_bytes (snd s') = file_stored fs h)) (fs, h)"
proof (cases "m_buffered_bytes fs = 0")
  case True
  then have "fs = fs\<lparr>m_buffered_bytes := 0\<rparr>" by (metis file_sink.surjective file_sink.update_convs(3))
  with True show ?thesis
    unfolding flush_buffer_def by (intro wp_intros) (auto simp: file_stored_def buffered_data_0)
next
  case False
  then show ?thesis
    unfolding flush_buffer_def WriteFile_def buffer_block_eq [OF assms, symmetric] file_stored_def
    by (intro wp_intros) auto
qed

lemma file_inv_flushed [simp]: "file_inv (fs\<lparr>m_buffered_bytes := 0\<rparr>)"
  by (simp add: file_inv_def)

lemma append_to_buffer_spec:
  assumes "file_inv fs" "m_file_handle fs = Handle" "m_write_buffer fs \<noteq> None" "n < WRITE_BUFFER_SIZE"
    and "m_buffered_bytes fs + n \<le> WRITE_BUFFER_SIZE"
  shows "file_inv (append_to_buffer data n fs)
    \<and> buffered_data (append_to_buffer data n fs) = buffered_data fs @ bytes_at data (unat n)"
proof -
  have "unat n < 1048576" using assms(4) by (simp add: word_less_nat_alt unat_WRITE_BUFFER_SIZE)
  then have "unat (m_buffered_bytes fs + n) = unat (m_buffered_bytes fs) + unat n"
    using file_inv_small [OF assms(1)] by simp
  then show ?thesis
    using assms by (auto simp: append_to_buffer_def file_inv_def buffered_data_def bytes_at_memcpy)
qed

lemma write_direct_spec:
  assumes "file_inv fs" "m_buffered_bytes fs = 0"
  shows "wp (write_direct w data n)
    (\<lambda>ok s'. fst s' = fs \<and> (os_ok (snd s') \<longrightarrow> os_ok h \<and>
       (ok \<longrightarrow> file_stored fs (snd s') = file_bytes h @ bytes_at data (unat n)))) (fs, h)"
proof -
  have "unat k = unat n" if "unat k = unat (ucast n :: u32)" "ucast k = n" for k :: u32
    using that unat_ucast_up [of k] by simp
  then show ?thesis
    unfolding write_direct_def WriteFile_def using assms
    by (intro wp_intros) (auto simp: file_stored_def buffered_data_0)
qed

text \<open>
  The paths of a write: refused; direct, after the buffer has been written; into the buffer as it is;
  into the buffer after it has been written. \<open>F\<close> is what is known once the buffer is empty.
\<close>

lemma wp_file_write:
  assumes "file_inv fs"
    and refused: "m_file_handle fs = INVALID_HANDLE_VALUE \<or> m_write_buffer fs = None \<Longrightarrow> Q False (fs, h)"
    and flush: "wp (flush_buffer w) (\<lambda>_ s'. fst s' = fs\<lparr>m_buffered_bytes := 0\<rparr> \<and> F (snd s')) (fs, h)"
    and empty: "m_buffered_bytes fs = 0 \<Longrightarrow> F h"
    and direct: "\<And>gs h'. file_inv gs \<Longrightarrow> m_file_handle gs = Handle \<Longrightarrow> m_write_buffer gs \<noteq> None \<Longrightarrow>
      m_buffered_bytes gs = 0 \<Longrightarrow> F h' \<Longrightarrow> wp (write_direct w data n) Q (gs, h')"
    and append: "\<And>gs h'. file_inv gs \<Longrightarrow> m_file_handle gs = Handle \<Longrightarrow> m_write_buffer gs \<noteq> None \<Longrightarrow>
      n < WRITE_BUFFER_SIZE \<Longrightarrow> m_buffered_bytes gs + n \<le> WRITE_BUFFER_SIZE \<Longrightarrow>
      gs = fs \<and> h' = h \<or> m_buffered_bytes gs = 0 \<and> F h' \<Longrightarrow> Q True (append_to_buffer data n gs, h')"
  shows "wp (file_write w data n) Q (fs, h)"
proof -
  have flushed: "wp (flush_buffer w) (\<lambda>_. R) (fs, h)" if "\<And>h'. F h' \<Longrightarrow> R (fs\<lparr>m_buffered_bytes := 0\<rparr>, h')" for R
    by (rule wp_mono [OF flush]) (use that in auto)
  have buf: "m_file_handle fs = Handle \<and> m_write_buffer fs \<noteq> None"
    if "\<not> (m_file_handle fs = INVALID_HANDLE_VALUE \<or> m_write_buffer fs = None)"
    using that by (cases "m_file_handle fs") auto
  show ?thesis
    unfolding file_write_def
  proof (intro wp_intros, simp_all only: fst_conv, goal_cases)
    case 1
    then show ?case by (rule refused)
  next
    case 2
    with buf show ?case by (intro flushed direct) simp_all
  next
    case 3
    with buf show ?case by (intro direct empty assms(1)) (simp_all add: word_gt_0)
  next
    case 4
    with buf show ?case by (intro flushed wp_intros append) auto
  next
    case 5
    with buf show ?case by (intro append assms(1)) auto
  qed
qed

lemma file_write_spec:
  assumes "file_inv fs"
  shows "wp (file_write w data n)
    (\<lambda>ok s'. file_inv (fst s') \<and> (os_ok (snd s') \<longrightarrow> ok \<longrightarrow>
       file_stored (fst s') (snd s') = file_stored fs h @ bytes_at data (unat n))) (fs, h)"
proof (rule wp_file_write [OF assms, where F = "\<lambda>h'. os_ok h' \<longrightarrow> file_bytes h' = file_stored fs h"], goal_cases)
  case (4 gs h')
  show ?case by (rule wp_mono [OF write_direct_spec [OF 4(1,4)]]) (use 4 in auto)
next
  case (5 gs h')
  with append_to_buffer_spec [OF 5(1-5), of data] show ?case by (auto simp: file_stored_def buffered_data_0)
qed (use assms flush_buffer_spec [OF assms, of w h] in \<open>auto simp: file_stored_def buffered_data_0 elim: wp_mono\<close>)

lemma file_flush_spec:
  assumes "file_inv fs"
  shows "wp (file_flush w)
    (\<lambda>_ s'. file_inv (fst s') \<and> (os_ok (snd s') \<longrightarrow>
       file_stored (fst s') (snd s') = file_stored fs h \<and> file_bytes (snd s') = file_stored fs h)) (fs, h)"
  unfolding file_flush_def
  by (intro wp_intros wp_mono [OF flush_buffer_spec [OF assms]])
     (auto simp: file_stored_def buffered_data_0 intro!: wp_intros)

interpretation fsink: durable_sink "file_vtbl w" file_inv file_stored file_bytes os_ok for w
proof unfold_locales
  show "wp (vt_write (file_vtbl w) data n) (\<lambda>ok s'. file_inv (fst s') \<and> (os_ok (snd s') \<longrightarrow> ok \<longrightarrow>
      file_stored (fst s') (snd s') = file_stored s h @ bytes_at data (unat n))) (s, h)"
    if "file_inv s" for s data n h
    using file_write_spec [OF that] by (simp add: file_vtbl_def)
  show "wp (vt_flush (file_vtbl w)) (\<lambda>_ s'. file_inv (fst s') \<and> (os_ok (snd s') \<longrightarrow>
      file_stored (fst s') (snd s') = file_stored s h \<and> file_bytes (snd s') = file_stored s h)) (s, h)"
    if "file_inv s" for s h
    using file_flush_spec [OF that] by (simp add: file_vtbl_def)
qed (auto simp: file_stored_def file_bytes_other os_ok_other dest: os_ok_tail)

section \<open>Properties\<close>

text \<open>
  C25. \<open>FileSink::write\<close> is a faithful append: from any well-formed object it keeps the
  buffer within its 1 MB, and if it returns true while every WriteFile call so far wrote all it was
  given, then the bytes in the file followed by the bytes in the buffer are the old ones
  followed by the \<open>n\<close> bytes of the chunk, on the buffered, flushing and direct paths alike.
\<close>

theorem file_sink_write_appends:
  assumes "file_inv fs"
  shows "case run_state (file_write w data n) (fs, h) of (ok, fs', h') \<Rightarrow>
    file_inv fs' \<and> (ok \<longrightarrow> os_ok h' \<longrightarrow> file_stored fs' h' = file_stored fs h @ bytes_at data (unat n))"
  using file_write_spec [OF assms, of w data n h] by (auto simp: wp_def split: prod.splits)

definition demo_file_sink :: file_sink where
  "demo_file_sink = \<lparr>m_file_handle = Handle, m_write_buffer = Some (\<lambda>i. 5), m_buffered_bytes = 2\<rparr>"

lemma demo_file_inv: "file_inv demo_file_sink" "m_buffered_bytes demo_file_sink \<noteq> 0"
  by (simp_all add: demo_file_sink_def file_inv_def WRITE_BUFFER_SIZE_def)

theorem file_sink_write_appends_witness:
  "case run_state (file_write calm_world (\<lambda>i. 7) 3) (demo_file_sink, []) of (ok, fs', h') \<Rightarrow>
    ok \<and> os_ok h' \<and> file_stored fs' h' = [5, 5, 7, 7, 7]"
proof -
  have "case run_state (file_write calm_world (\<lambda>i. 7) 3) (demo_file_sink, []) of (ok, fs', h') \<Rightarrow>
      ok \<and> os_ok h'"
    by (simp add: file_write_def demo_file_sink_def WRITE_BUFFER_SIZE_def on_object_def)
  moreover have "file_stored demo_file_sink [] @ bytes_at (\<lambda>i. 7) 3 = [5, 5, 7, 7, 7]"
    by (simp add: file_stored_def buffered_data_def demo_file_sink_def bytes_at_def upt_rec)
  ultimately show ?thesis
    using file_sink_write_appends [OF demo_file_inv(1), where w = calm_world and data = "\<lambda>i. 7" and n = 3 and h = "[]"]
    by (auto split: prod.splits)
qed

text \<open>
  The sink hides the loss of buffered data. Whatever WriteFile answers for the buffered
  block, \<open>flush\<close> leaves an empty buffer and reports nothing: after it the file holds what it held
  and the first \<open>k\<close> buffered bytes, where \<open>k\<close> is what WriteFile wrote; the rest is gone.
\<close>

lemma file_sink_flush_drops_rest:
  assumes "file_inv fs" "m_buffered_bytes fs \<noteq> 0"
  shows "case run_state (file_flush w) (fs, h) of (_, fs', h') \<Rightarrow>
    buffered_data fs' = [] \<and>
    file_stored fs' h' =
      file_bytes h @ take (unat (snd (r_WriteFile w h (buffered_data fs)))) (buffered_data fs)"
  using assms
  by (auto simp: file_flush_def flush_buffer_def WriteFile_def on_history_def on_object_def file_inv_def
      file_stored_def buffered_data_0 buffer_block_eq split: prod.splits)

end
