(* ===== verification/Fault_Injector.thy ===== *)
theory Fault_Injector
  imports Prelude
begin

text \<open>
  \<open>include/fault_injector.h\<close>: the two classes of that name that FAULT_INJECTION_ENABLED chooses
  between, the counting one and the stub without state. Each method takes the compile-time
  constant as its first argument; the stub's branch returns the object unchanged.
\<close>

record fault_injector =
  m_fail_after_n_chunks :: u64
  m_chunk_counter :: u64
  m_fail_next_command :: bool

definition new_FaultInjector :: fault_injector where
  "new_FaultInjector = \<lparr>m_fail_after_n_chunks = 0, m_chunk_counter = 0, m_fail_next_command = False\<rparr>"

definition set_fail_after_n_chunks :: "bool \<Rightarrow> u64 \<Rightarrow> fault_injector \<Rightarrow> fault_injector" where
  "set_fail_after_n_chunks enabled n fi =
     (if enabled then fi\<lparr>m_fail_after_n_chunks := n, m_chunk_counter := 0\<rparr> else fi)"

definition set_fail_next_command :: "bool \<Rightarrow> fault_injector \<Rightarrow> fault_injector" where
  "set_fail_next_command enabled fi = (if enabled then fi\<lparr>m_fail_next_command := True\<rparr> else fi)"

definition on_chunk_completed :: "bool \<Rightarrow> fault_injector \<Rightarrow> bool \<times> fault_injector" where
  "on_chunk_completed enabled fi =
     (if enabled then
        (if 0 < m_fail_after_n_chunks fi
         then let fi = fi\<lparr>m_chunk_counter := m_chunk_counter fi + 1\<rparr>
              in (m_fail_after_n_chunks fi \<le> m_chunk_counter fi, fi)
         else (False, fi))
      else (False, fi))"

definition should_fail :: "bool \<Rightarrow> fault_injector \<Rightarrow> bool \<times> fault_injector" where
  "should_fail enabled fi =
     (if enabled then
        (if m_fail_next_command fi then (True, fi\<lparr>m_fail_next_command := False\<rparr>)
         else if 0 < m_fail_after_n_chunks fi \<and> m_fail_after_n_chunks fi \<le> m_chunk_counter fi
         then (True, fi)
         else (False, fi))
      else (False, fi))"

definition reset :: "bool \<Rightarrow> fault_injector \<Rightarrow> fault_injector" where
  "reset enabled fi =
     (if enabled
      then fi\<lparr>m_fail_after_n_chunks := 0, m_chunk_counter := 0, m_fail_next_command := False\<rparr>
      else fi)"

definition fi_chunk_count :: "bool \<Rightarrow> fault_injector \<Rightarrow> u64" where
  "fi_chunk_count enabled fi = (if enabled then m_chunk_counter fi else 0)"

definition is_armed :: "bool \<Rightarrow> fault_injector \<Rightarrow> bool" where
  "is_armed enabled fi = (if enabled then 0 < m_fail_after_n_chunks fi \<or> m_fail_next_command fi else False)"

text \<open>The answers of \<open>k\<close> completions in a row.\<close>

fun completions :: "bool \<Rightarrow> nat \<Rightarrow> fault_injector \<Rightarrow> bool list" where
  "completions enabled 0 fi = []"
| "completions enabled (Suc k) fi =
     fst (on_chunk_completed enabled fi) # completions enabled k (snd (on_chunk_completed enabled fi))"

lemma completions_from:
  assumes "0 < m_fail_after_n_chunks fi" "unat (m_chunk_counter fi) + k < 2 ^ 64"
  shows "completions True k fi =
    map (\<lambda>i. unat (m_fail_after_n_chunks fi) \<le> unat (m_chunk_counter fi) + Suc i) [0..<k]"
  using assms
proof (induction k arbitrary: fi)
  case (Suc k)
  let ?fi = "snd (on_chunk_completed True fi)"
  have c: "unat (m_chunk_counter fi + 1) = unat (m_chunk_counter fi) + 1"
    using Suc.prems unat_plus_no_overflow [of "m_chunk_counter fi" 1] by simp
  have fi': "m_fail_after_n_chunks ?fi = m_fail_after_n_chunks fi"
      "m_chunk_counter ?fi = m_chunk_counter fi + 1"
    using Suc.prems by (simp_all add: on_chunk_completed_def Let_def)
  have "completions True k ?fi =
      map (\<lambda>i. unat (m_fail_after_n_chunks fi) \<le> unat (m_chunk_counter fi) + Suc (Suc i)) [0..<k]"
    using Suc.IH [of ?fi] Suc.prems by (simp add: fi' c)
  moreover have "fst (on_chunk_completed True fi)
      \<longleftrightarrow> unat (m_fail_after_n_chunks fi) \<le> unat (m_chunk_counter fi) + Suc 0"
    using Suc.prems by (simp add: on_chunk_completed_def Let_def word_le_nat_alt c)
  ultimately show ?case by (simp add: map_upt_Suc del: upt_Suc)
qed simp

text \<open>
  Armed with \<open>n\<close> completions, the injector answers false to the first \<open>n - 1\<close> completions and true
  from the \<open>n\<close>-th on. Compiled out, it never answers true.
\<close>

lemma completions_disabled: "completions False k fi = replicate k False"
  by (induction k arbitrary: fi) (simp_all add: on_chunk_completed_def)

lemma fault_after_n_chunks:
  "0 < n \<Longrightarrow> k < 2 ^ 64 \<Longrightarrow>
     completions True k (set_fail_after_n_chunks True n fi) = map (\<lambda>i. unat n \<le> Suc i) [0..<k]"
  using completions_from [of "set_fail_after_n_chunks True n fi" k] by (simp add: set_fail_after_n_chunks_def)

text \<open>The next-command flag is consumed by one query.\<close>

lemma should_fail_single_shot:
  "m_fail_after_n_chunks fi = 0 \<Longrightarrow>
   should_fail True (set_fail_next_command True fi) = (True, fi\<lparr>m_fail_next_command := False\<rparr>)
   \<and> fst (should_fail True (snd (should_fail True (set_fail_next_command True fi)))) = False"
  by (simp add: should_fail_def set_fail_next_command_def)

lemma reset_disarms: "\<not> is_armed enabled (reset enabled fi)"
  by (simp add: is_armed_def reset_def)

section \<open>The answers as a function of the calls\<close>

text \<open>The calls made so far, newest first, and the object they leave.\<close>

datatype fi_call = Arm u64 | Fail_Next | Completed | Query | Reset

fun fi_apply :: "bool \<Rightarrow> fi_call \<Rightarrow> fault_injector \<Rightarrow> fault_injector" where
  "fi_apply enabled (Arm n) fi = set_fail_after_n_chunks enabled n fi"
| "fi_apply enabled Fail_Next fi = set_fail_next_command enabled fi"
| "fi_apply enabled Completed fi = snd (on_chunk_completed enabled fi)"
| "fi_apply enabled Query fi = snd (should_fail enabled fi)"
| "fi_apply enabled Reset fi = reset enabled fi"

definition fi_after :: "bool \<Rightarrow> fi_call list \<Rightarrow> fault_injector" where
  "fi_after enabled cs = foldr (fi_apply enabled) cs new_FaultInjector"

text \<open>
  The specification: the quota is what the last arming asked for, unless a reset followed; the
  progress is the number of completions since; a single failure is pending when it was asked for
  and neither a query nor a reset came after.
\<close>

fun rearms :: "fi_call \<Rightarrow> bool" where
  "rearms (Arm n) = True"
| "rearms Reset = True"
| "rearms _ = False"

definition quota :: "fi_call list \<Rightarrow> nat" where
  "quota cs = (case dropWhile (\<lambda>c. \<not> rearms c) cs of Arm n # _ \<Rightarrow> unat n | _ \<Rightarrow> 0)"

definition progress :: "fi_call list \<Rightarrow> nat" where
  "progress cs =
     (if quota cs = 0 then 0 else length (filter (\<lambda>c. c = Completed) (takeWhile (\<lambda>c. \<not> rearms c) cs)))"

definition single_pending :: "fi_call list \<Rightarrow> bool" where
  "single_pending cs \<longleftrightarrow> Fail_Next \<in> set (takeWhile (\<lambda>c. c \<noteq> Query \<and> c \<noteq> Reset) cs)"

lemma spec_simps [simp]:
  "quota [] = 0" "quota (Arm n # cs) = unat n" "quota (Reset # cs) = 0"
  "\<not> rearms c \<Longrightarrow> quota (c # cs) = quota cs"
  "progress [] = 0" "progress (Arm n # cs) = 0" "progress (Reset # cs) = 0"
  "progress (Completed # cs) = (if quota cs = 0 then 0 else Suc (progress cs))"
  "progress (Query # cs) = progress cs" "progress (Fail_Next # cs) = progress cs"
  "\<not> single_pending []" "single_pending (Arm n # cs) = single_pending cs" "\<not> single_pending (Reset # cs)"
  "single_pending (Completed # cs) = single_pending cs" "\<not> single_pending (Query # cs)"
  "single_pending (Fail_Next # cs)"
  by (simp_all add: quota_def progress_def single_pending_def)

lemma progress_le: "progress cs \<le> length cs"
  unfolding progress_def by (simp add: le_trans [OF length_filter_le length_takeWhile_le])

text \<open>The object holds the three figures of the specification.\<close>

lemma fi_after_fields:
  "length cs < 2 ^ 64 \<Longrightarrow> unat (m_fail_after_n_chunks (fi_after True cs)) = quota cs \<and>
     unat (m_chunk_counter (fi_after True cs)) = progress cs \<and>
     m_fail_next_command (fi_after True cs) = single_pending cs"
proof (induction cs)
  case Nil
  then show ?case by (simp add: fi_after_def new_FaultInjector_def)
next
  case (Cons c cs)
  let ?fi = "fi_after True cs"
  have fi: "unat (m_fail_after_n_chunks ?fi) = quota cs" "unat (m_chunk_counter ?fi) = progress cs"
      "m_fail_next_command ?fi = single_pending cs" using Cons by simp_all
  have "unat (m_chunk_counter ?fi) + 1 < 2 ^ 64" using Cons.prems progress_le [of cs] fi(2) by simp
  then have count: "unat (m_chunk_counter ?fi + 1) = Suc (progress cs)"
    using unat_plus_no_overflow [of "m_chunk_counter ?fi" 1] fi(2) by simp
  have zero: "m_fail_after_n_chunks ?fi = 0 \<longleftrightarrow> quota cs = 0" "quota cs = 0 \<Longrightarrow> progress cs = 0"
    using fi(1) by (auto simp: progress_def unat_eq_0)
  have "fi_after True (c # cs) = fi_apply True c ?fi" by (simp add: fi_after_def)
  then show ?case
    by (cases c) (auto simp: fi zero count word_neq_0_conv [symmetric] set_fail_after_n_chunks_def set_fail_next_command_def
        on_chunk_completed_def should_fail_def reset_def Let_def)
qed

lemma fi_after_disabled: "fi_after False cs = new_FaultInjector"
proof (induction cs)
  case (Cons c cs)
  then show ?case
    by (cases c) (simp_all add: fi_after_def set_fail_after_n_chunks_def set_fail_next_command_def
        on_chunk_completed_def should_fail_def reset_def)
qed (simp add: fi_after_def)

text \<open>
  C29. What the injector answers, after any calls in any order: a completion is answered true when the
  armed number of completions is reached with it (the abort comes on the \<open>n\<close>-th completion itself,
  not on the command after it), a query when a single failure is pending or the number has been
  reached, and the two diagnostics report the specification's figures. Compiled out, every answer
  is false whatever was asked for.
\<close>

theorem fault_injector_answers:
  assumes "Suc (length cs) < 2 ^ 64"
  shows "let fi = fi_after True cs; off = fi_after False cs in
      (fst (on_chunk_completed True fi) \<longleftrightarrow> 0 < quota cs \<and> quota cs \<le> Suc (progress cs))
    \<and> (fst (should_fail True fi) \<longleftrightarrow> single_pending cs \<or> 0 < quota cs \<and> quota cs \<le> progress cs)
    \<and> unat (fi_chunk_count True fi) = progress cs
    \<and> (is_armed True fi \<longleftrightarrow> 0 < quota cs \<or> single_pending cs)
    \<and> \<not> fst (on_chunk_completed False off) \<and> \<not> fst (should_fail False off) \<and> \<not> is_armed False off"
proof -
  let ?fi = "fi_after True cs"
  have fi: "unat (m_fail_after_n_chunks ?fi) = quota cs" "unat (m_chunk_counter ?fi) = progress cs"
      "m_fail_next_command ?fi = single_pending cs"
    using fi_after_fields [of cs] assms by simp_all
  have pos: "0 < m_fail_after_n_chunks ?fi \<longleftrightarrow> 0 < quota cs"
    using fi(1) by (simp add: word_less_nat_alt)
  have reached: "m_fail_after_n_chunks ?fi \<le> m_chunk_counter ?fi \<longleftrightarrow> quota cs \<le> progress cs"
    using fi by (simp add: word_le_nat_alt)
  have "unat (m_chunk_counter ?fi) + 1 < 2 ^ 64" using assms progress_le [of cs] fi(2) by simp
  then have next_reached: "m_fail_after_n_chunks ?fi \<le> m_chunk_counter ?fi + 1 \<longleftrightarrow> quota cs \<le> Suc (progress cs)"
    using fi unat_plus_no_overflow [of "m_chunk_counter ?fi" 1] by (simp add: word_le_nat_alt)
  show ?thesis
    by (auto simp: Let_def on_chunk_completed_def should_fail_def fi_chunk_count_def is_armed_def
        pos reached next_reached fi)
qed

text \<open>Armed for two, one completion done: the next one fires, a query does not.\<close>

theorem fault_injector_answers_witness:
  "fst (on_chunk_completed True (fi_after True [Completed, Arm 2]))
   \<and> \<not> fst (should_fail True (fi_after True [Completed, Arm 2]))"
  using fault_injector_answers [of "[Completed, Arm 2]"] by (simp add: Let_def)

end
