(* ===== verification/Com_Runtime.thy ===== *)
theory Com_Runtime
  imports World
begin

text \<open>
  \<open>include/com_runtime.h\<close> and \<open>src/com_runtime.cpp\<close>: the guard object for the COM runtime. Its
  destructor is the operation that matters: it uninitialises COM when this object initialised
  it. The balance of the two calls is read off the history.
\<close>

record com_runtime =
  m_initialized :: bool
  m_init_result :: hresult
  m_already_init :: bool

definition new_ComRuntime :: "world \<Rightarrow> com_runtime io" where
  "new_ComRuntime w = do {
     hr \<leftarrow> CoInitializeEx w;
     if hr_succeeded hr
     then do {
       (if hr = S_FALSE
        then LOG_WARN ''COM was already initialized on this thread (S_FALSE).''
        else State_Monad.return ());
       State_Monad.return \<lparr>m_initialized = True, m_init_result = hr, m_already_init = (hr = S_FALSE)\<rparr> }
     else do {
       LOG_ERROR (''CoInitializeEx failed: HRESULT=0x'' @ pad_left (CHR ''0'') 8 (hex_digits False (unat hr)));
       State_Monad.return \<lparr>m_initialized = False, m_init_result = hr, m_already_init = False\<rparr> } }"

definition ComRuntime_dtor :: "com_runtime \<Rightarrow> unit io" where
  "ComRuntime_dtor com =
     (if m_initialized com \<and> \<not> m_already_init com then CoUninitialize else State_Monad.return ())"

text \<open>
  The COM runtime of the thread as the history leaves it: the number of successful initialisations,
  S_FALSE ones included, less the uninitialisations.
\<close>

fun com_count :: "history \<Rightarrow> int" where
  "com_count [] = 0"
| "com_count (E_CoInitializeEx hr # h) = com_count h + (if hr_succeeded hr then 1 else 0)"
| "com_count (E_CoUninitialize # h) = com_count h - 1"
| "com_count (_ # h) = com_count h"

definition com_scope :: "world \<Rightarrow> (com_runtime \<Rightarrow> 'a io) \<Rightarrow> 'a io" where
  "com_scope w body = do {
     com \<leftarrow> new_ComRuntime w;
     r \<leftarrow> body com;
     ComRuntime_dtor com;
     State_Monad.return r }"

lemma wp_new_ComRuntime:
  "wp (new_ComRuntime w)
     (\<lambda>com h'. m_initialized com = hr_succeeded (m_init_result com)
       \<and> m_already_init com = (m_init_result com = S_FALSE)
       \<and> com_count h' = com_count h + (if m_initialized com then 1 else 0)) h"
  unfolding new_ComRuntime_def CoInitializeEx_def LOG_WARN_def LOG_ERROR_def
  by (intro wp_intros) (auto simp: hr_failed_def S_FALSE_def)

text \<open>
  C30. A scope guarded by \<open>ComRuntime\<close> leaves the initialisation count of the thread as it found
  it, if the body does, exactly when COM was not already initialised: on S_FALSE the successful
  CoInitializeEx is never matched by a CoUninitialize and the count stays one too high.
\<close>

theorem com_scope_balance:
  assumes "\<And>com h. com_count (snd (run_state (body com) h)) = com_count h"
  shows "case run_state (new_ComRuntime w) h of (com, _) \<Rightarrow>
    com_count (snd (run_state (com_scope w body) h)) =
      com_count h + (if m_init_result com = S_FALSE then 1 else 0)"
proof (cases "run_state (new_ComRuntime w) h")
  case (Pair com h1)
  have i: "m_initialized com = hr_succeeded (m_init_result com)"
      "m_already_init com = (m_init_result com = S_FALSE)"
      "com_count h1 = com_count h + (if m_initialized com then 1 else 0)"
    using wpD [OF wp_new_ComRuntime Pair] by auto
  obtain r h2 where b: "run_state (body com) h1 = (r, h2)" by (cases "run_state (body com) h1")
  have "com_count h2 = com_count h1" using assms [of com h1] b by simp
  then show ?thesis
    using Pair b i
    by (auto simp: com_scope_def ComRuntime_dtor_def CoUninitialize_def split: prod.splits if_splits)
qed

theorem com_scope_balance_witness:
  "com_count (snd (run_state
     (com_scope (calm_world\<lparr>r_CoInitializeEx := (\<lambda>_. S_FALSE)\<rparr>) (\<lambda>_. State_Monad.return ())) [])) = 1"
  using com_scope_balance [of "\<lambda>_. State_Monad.return ()" "calm_world\<lparr>r_CoInitializeEx := (\<lambda>_. S_FALSE)\<rparr>" "[]"]
  by (simp add: new_ComRuntime_def CoInitializeEx_def LOG_WARN_def split: prod.splits)

end
