(* ===== verification/Vdi_Protocol.thy ===== *)
theory Vdi_Protocol
  imports World
begin

text \<open>
  \<open>src/vdi_protocol.h\<close> and \<open>src/vdi_protocol.cpp\<close>: the name of a command code, the validation of
  a write command, and the dispatch that decides what the command loop does with a command.
  The functions change no state; they only log.
\<close>

datatype command_result = CR_CONTINUE | CR_CLOSE_REQUEST | CR_FAILED

definition command_code_string :: "u32 \<Rightarrow> string" where
  "command_code_string code =
     (if code = VDC_Read then ''VDC_Read''
      else if code = VDC_Write then ''VDC_Write''
      else if code = VDC_Flush then ''VDC_Flush''
      else if code = VDC_Close then ''VDC_Close''
      else if code = VDC_ClearError then ''VDC_ClearError''
      else ''UNKNOWN('' @ decimal (unat code) @ '')'')"

definition MAX_SANE_CHUNK_SIZE :: u32 where
  "MAX_SANE_CHUNK_SIZE = 1024 * 1024 * 1024"

definition validate_write_command :: "vdc_command option \<Rightarrow> bool io" where
  "validate_write_command c = (case c of
       None \<Rightarrow> do { LOG_ERROR ''validate_write_command: cmd is null''; State_Monad.return False }
     | Some cmd \<Rightarrow>
         if buffer cmd = None
         then do { LOG_ERROR ''validate_write_command: buffer pointer is null''; State_Monad.return False }
         else if cmd_size cmd = 0
         then do { LOG_ERROR ''validate_write_command: chunk size is 0''; State_Monad.return False }
         else if MAX_SANE_CHUNK_SIZE < cmd_size cmd
         then do {
           LOG_ERROR (''validate_write_command: chunk size '' @ decimal (unat (cmd_size cmd)) @
             '' exceeds sanity limit '' @ decimal (unat MAX_SANE_CHUNK_SIZE));
           State_Monad.return False }
         else State_Monad.return True)"

definition dispatch_command :: "world \<Rightarrow> vdc_command option \<Rightarrow> (u32 \<times> command_result) io" where
  "dispatch_command w c = (case c of
       None \<Rightarrow> do { LOG_ERROR ''dispatch_command: cmd is null''; State_Monad.return (0, CR_FAILED) }
     | Some cmd \<Rightarrow>
         if commandCode cmd = VDC_Read
         then do { LOG_DEBUG w ''  [VDC_Read]''; State_Monad.return (commandCode cmd, CR_CONTINUE) }
         else if commandCode cmd = VDC_Write
         then do { LOG_DEBUG w (''[WRITE] size='' @ decimal (unat (cmd_size cmd)));
                   State_Monad.return (commandCode cmd, CR_CONTINUE) }
         else if commandCode cmd = VDC_Flush
         then do { LOG_DEBUG w ''  [VDC_Flush]''; State_Monad.return (commandCode cmd, CR_CONTINUE) }
         else if commandCode cmd = VDC_ClearError
         then do { LOG_DEBUG w ''  [VDC_ClearError]''; State_Monad.return (commandCode cmd, CR_CONTINUE) }
         else if commandCode cmd = VDC_Close
         then do { LOG_INFO w ''  [VDC_Close]''; State_Monad.return (commandCode cmd, CR_CLOSE_REQUEST) }
         else do { LOG_DEBUG w (''  [UNKNOWN COMMAND: '' @ decimal (unat (commandCode cmd)) @ '']'');
                   State_Monad.return (commandCode cmd, CR_CONTINUE) })"

section \<open>Logging is all they do\<close>

fun is_log :: "event \<Rightarrow> bool" where
  "is_log (E_Log _ _) = True"
| "is_log _ = False"

lemma wp_LOG_ERROR [wp_intros]: "(\<And>h'. extends is_log h h' \<Longrightarrow> Q () h') \<Longrightarrow> wp (LOG_ERROR m) Q h"
  by (simp add: LOG_ERROR_def wp_def)

lemma wp_LOG_WARN [wp_intros]: "(\<And>h'. extends is_log h h' \<Longrightarrow> Q () h') \<Longrightarrow> wp (LOG_WARN m) Q h"
  by (simp add: LOG_WARN_def wp_def)

lemma wp_LOG_INFO [wp_intros]: "(\<And>h'. extends is_log h h' \<Longrightarrow> Q () h') \<Longrightarrow> wp (LOG_INFO w m) Q h"
  by (simp add: LOG_INFO_def wp_def)

lemma wp_LOG_DEBUG [wp_intros]: "(\<And>h'. extends is_log h h' \<Longrightarrow> Q () h') \<Longrightarrow> wp (LOG_DEBUG w m) Q h"
  by (simp add: LOG_DEBUG_def wp_def)

definition write_acceptable :: "vdc_command \<Rightarrow> bool" where
  "write_acceptable cmd \<longleftrightarrow> buffer cmd \<noteq> None \<and> 0 < unat (cmd_size cmd) \<and> unat (cmd_size cmd) \<le> 2 ^ 30"

lemma wp_validate_write_command [wp_intros]:
  "(\<And>h'. extends is_log h h' \<Longrightarrow> Q (case c of None \<Rightarrow> False | Some cmd \<Rightarrow> write_acceptable cmd) h') \<Longrightarrow>
   wp (validate_write_command c) Q h"
  unfolding validate_write_command_def
  by (intro wp_intros)
     (auto simp: write_acceptable_def MAX_SANE_CHUNK_SIZE_def word_less_nat_alt word_gt_0 unat_gt_0)

definition dispatch_result :: "vdc_command option \<Rightarrow> u32 \<times> command_result" where
  "dispatch_result c = (case c of
       None \<Rightarrow> (0, CR_FAILED)
     | Some cmd \<Rightarrow> (commandCode cmd, if commandCode cmd = VDC_Close then CR_CLOSE_REQUEST else CR_CONTINUE))"

lemma wp_dispatch_command [wp_intros]:
  "(\<And>h'. extends is_log h h' \<Longrightarrow> Q (dispatch_result c) h') \<Longrightarrow> wp (dispatch_command w c) Q h"
  unfolding dispatch_command_def
  by (intro wp_intros) (auto simp: dispatch_result_def VDC_defs)

text \<open>
  Validation accepts exactly the write commands with a buffer and a size from one byte to
  one gigabyte, and a refusal is always logged as an error.
\<close>

lemma validate_write_command_exact:
  "case run_state (validate_write_command c) h of (ok, h') \<Rightarrow>
     (ok \<longleftrightarrow> (\<exists>cmd. c = Some cmd \<and> write_acceptable cmd))
   \<and> (if ok then h' = h else \<exists>msg. h' = E_Log L_ERROR msg # h)"
  by (auto simp: validate_write_command_def LOG_ERROR_def write_acceptable_def MAX_SANE_CHUNK_SIZE_def
      word_less_nat_alt unat_gt_0 split: option.splits)

text \<open>
  Dispatch stops the loop for the close sentinel only and fails for a null command only;
  every other code, the commands the client does not implement included, is answered with
  "continue", so that the loop completes it as a success.
\<close>

lemma dispatch_command_decision:
  "case run_state (dispatch_command w c) h of ((code, result), h') \<Rightarrow>
     (result = CR_FAILED \<longleftrightarrow> c = None)
   \<and> (result = CR_CLOSE_REQUEST \<longleftrightarrow> (\<exists>cmd. c = Some cmd \<and> commandCode cmd = VDC_Close))
   \<and> (\<forall>cmd. c = Some cmd \<longrightarrow> code = commandCode cmd)
   \<and> extends is_log h h'"
  by (auto simp: dispatch_command_def log_defs VDC_defs split: option.splits)

end
