(* ===== verification/Vdi_Client.thy ===== *)
theory Vdi_Client
  imports Metrics_Report Buffer_Pool Sinks Fault_Injector Com_Runtime Vdi_Protocol
begin

text \<open>
  \<open>include/vdi_client.h\<close> and the session half of \<open>src/vdi_client.cpp\<close>: the members of \<open>VdiClient\<close>,
  its constructor and destructor, \<open>set_command_timeout\<close>, \<open>connect\<close>, \<open>open_devices\<close>, \<open>close\<close> and
  \<open>check_stall\<close>, on the Windows branch of every \<open>#if\<close>. The command loop is in theory
  \<open>Command_Loop\<close>. A method runs on a pair of the object and the history. The sink is an object of
  any class: its methods come as a record \<open>vt\<close>, its state type is a parameter.
\<close>

section \<open>The object\<close>

definition BUFFER_POOL_SIZE :: nat where "BUFFER_POOL_SIZE = 64"
definition BUFFER_SIZE :: nat where "BUFFER_SIZE = 64 * 1024"
definition DEFAULT_COMMAND_TIMEOUT_MS :: u32 where "DEFAULT_COMMAND_TIMEOUT_MS = 30000"
definition STALL_WARN_MS :: u32 where "STALL_WARN_MS = 60000"

record 's client =
  m_device_set :: "devset option"
  m_sink :: "'s option"
  m_metrics :: metrics
  m_buffer_pool :: buffer_pool
  m_device_name :: string
  m_device_count :: i32
  m_logging_enabled :: bool
  m_state :: session_state
  m_devices_closed :: bool
  m_command_timeout_ms :: u32
  m_last_command_us :: u64
  m_last_bytes_total :: u64
  m_last_stall_warn_us :: u64
  m_active_buffers :: u64
  m_max_active_buffers :: u64
  m_fault_injector :: fault_injector

record 's sys =
  cl :: "'s client"
  hist :: history

type_synonym ('s, 'a) act = "('s sys, 'a) st"

definition do_io :: "'a io \<Rightarrow> ('s, 'a) act" where
  "do_io m = zoom hist (\<lambda>h s. s\<lparr>hist := h\<rparr>) m"

definition upd :: "('s client \<Rightarrow> 's client) \<Rightarrow> ('s, unit) act" where
  "upd f = modify (\<lambda>s. s\<lparr>cl := f (cl s)\<rparr>)"

definition on_sink :: "'s \<Rightarrow> ('s, 'a) smethod \<Rightarrow> ('s, 'a) act" where
  "on_sink sk m = State (\<lambda>s. case run_state m (sk, hist s) of
     (a, sk', h') \<Rightarrow> (a, s\<lparr>cl := (cl s)\<lparr>m_sink := Some sk'\<rparr>, hist := h'\<rparr>))"

lemma wp_do_io [wp_intros]: "wp m (\<lambda>a h'. Q a (s\<lparr>hist := h'\<rparr>)) (hist s) \<Longrightarrow> wp (do_io m) Q s"
  by (simp add: wp_def do_io_def split: prod.splits)

lemma wp_upd [wp_intros]: "Q () (s\<lparr>cl := f (cl s)\<rparr>) \<Longrightarrow> wp (upd f) Q s"
  by (simp add: wp_def upd_def)

lemma wp_on_sink [wp_intros]:
  "(\<And>a sk' h'. run_state m (sk, hist s) = (a, sk', h') \<Longrightarrow>
      Q a (s\<lparr>cl := (cl s)\<lparr>m_sink := Some sk'\<rparr>, hist := h'\<rparr>)) \<Longrightarrow>
   wp (on_sink sk m) Q s"
  by (simp add: wp_def on_sink_def split: prod.splits)

definition set_state_to :: "session_state \<Rightarrow> ('s, unit) act" where
  "set_state_to st = upd (\<lambda>c. c\<lparr>m_state := st\<rparr>)"

lemma wp_set_state_to [wp_intros]:
  "Q () (s\<lparr>cl := (cl s)\<lparr>m_state := st\<rparr>\<rparr>) \<Longrightarrow> wp (set_state_to st) Q s"
  by (simp add: wp_def set_state_to_def upd_def)

text \<open>
  The constructor; \<open>device_count_\<close> and \<open>device_name_\<close> are left to \<open>connect\<close> (shown as 0 and empty).
\<close>

definition new_VdiClient :: "world \<Rightarrow> 's option \<Rightarrow> bool \<Rightarrow> timer_mode \<Rightarrow> 's client io" where
  "new_VdiClient w sink enable_logging mode = do {
     timer \<leftarrow> create_timer w mode;
     metrics \<leftarrow> new_Metrics w timer enable_logging;
     State_Monad.return
       \<lparr>m_device_set = None, m_sink = sink, m_metrics = metrics,
        m_buffer_pool = BufferPool BUFFER_SIZE BUFFER_POOL_SIZE,
        m_device_name = [], m_device_count = 0, m_logging_enabled = enable_logging,
        m_state = INIT, m_devices_closed = False,
        m_command_timeout_ms = DEFAULT_COMMAND_TIMEOUT_MS, m_last_command_us = 0,
        m_last_bytes_total = 0, m_last_stall_warn_us = 0, m_active_buffers = 0,
        m_max_active_buffers = 0, m_fault_injector = new_FaultInjector\<rparr> }"

definition set_command_timeout :: "world \<Rightarrow> u32 \<Rightarrow> ('s, unit) act" where
  "set_command_timeout w timeout_ms = do {
     upd (\<lambda>c. c\<lparr>m_command_timeout_ms := timeout_ms\<rparr>);
     do_io (LOG_INFO w (''GetCommand timeout set to '' @ decimal (unat timeout_ms) @ '' ms'')) }"

section \<open>connect\<close>

definition client_config :: "i32 \<Rightarrow> vdconfig" where
  "client_config device_count = vdconfig_zero\<lparr>deviceCount := device_count, features := VDF_Default,
     prefixZoneSize := 0, alignment := 0, softFileMarkBlockSize := 0, EOMWarningSize := 0,
     serverTimeOut := 60000, blockSize := 64 * 1024, maxIODepth := 0,
     bufferAreaSize := 4 * 1024 * 1024, maxTransferSize := 1024 * 1024\<rparr>"

text \<open>The part of \<open>connect\<close> inside the scope of the COM guard.\<close>

definition connect_device_set :: "world \<Rightarrow> string \<Rightarrow> i32 \<Rightarrow> ('s, bool) act" where
  "connect_device_set w device_name device_count = do {
     (hr, ds) \<leftarrow> do_io (CoCreateInstance w);
     if hr_failed hr
     then do {
       do_io (LOG_ERROR (''CoCreateInstance failed: '' @ hresult_to_string hr));
       set_state_to FAILED;
       State_Monad.return False }
     else do {
       upd (\<lambda>c. c\<lparr>m_device_set := Some ds\<rparr>);
       hr \<leftarrow> do_io (CreateEx w ds device_name (client_config device_count));
       if hr_failed hr
       then do {
         do_io (LOG_ERROR (''CreateEx failed: '' @ hresult_to_string hr));
         do_io (SetRelease ds);
         upd (\<lambda>c. c\<lparr>m_device_set := None\<rparr>);
         set_state_to FAILED;
         State_Monad.return False }
       else do {
         do_io (LOG_INFO w ''VDI device set created successfully.'');
         do_io (LOG_INFO w (''Device set name: '' @ dq @ device_name @ dq));
         do_io (LOG_INFO w (''Device count: '' @ decimal_int (sint device_count)));
         set_state_to CONNECTED;
         State_Monad.return True } } }"

definition connect :: "world \<Rightarrow> string \<Rightarrow> i32 \<Rightarrow> ('s, bool) act" where
  "connect w device_name device_count = do {
     st \<leftarrow> gets (\<lambda>s. m_state (cl s));
     if st \<noteq> INIT
     then do {
       do_io (LOG_ERROR (''connect() called in state '' @ session_state_to_string st @ '' (expected INIT)''));
       State_Monad.return False }
     else do {
       upd (\<lambda>c. c\<lparr>m_device_name := device_name, m_device_count := device_count\<rparr>);
       com \<leftarrow> do_io (new_ComRuntime w);
       ok \<leftarrow> (if \<not> m_initialized com
             then do {
               do_io (LOG_ERROR (''COM initialization failed '' @ em_dash @ '' cannot connect.''));
               set_state_to FAILED;
               State_Monad.return False }
             else connect_device_set w device_name device_count);
       do_io (ComRuntime_dtor com);
       State_Monad.return ok } }"

section \<open>open_devices\<close>

definition log_server_config :: "world \<Rightarrow> vdconfig \<Rightarrow> unit io" where
  "log_server_config w cfg = do {
     LOG_INFO w ''SQL Server connected. Server configuration:'';
     LOG_INFO w (''  deviceCount:    '' @ decimal (unat (deviceCount cfg)));
     LOG_INFO w (''  features:       0x'' @ hex_digits False (unat (features cfg)));
     LOG_INFO w (''  serverTimeOut:  '' @ decimal (unat (serverTimeOut cfg)));
     LOG_INFO w (''  blockSize:      '' @ decimal (unat (blockSize cfg)));
     LOG_INFO w (''  maxTransferSize: '' @ decimal (unat (maxTransferSize cfg))) }"

definition open_devices :: "world \<Rightarrow> ('s, bool) act" where
  "open_devices w = do {
     st \<leftarrow> gets (\<lambda>s. m_state (cl s));
     if st \<noteq> CONNECTED
     then do {
       do_io (LOG_ERROR (''open_devices() called in state '' @ session_state_to_string st @
         '' (expected CONNECTED)''));
       State_Monad.return False }
     else do {
       dset \<leftarrow> gets (\<lambda>s. m_device_set (cl s));
       (case dset of
          None \<Rightarrow> do {
            do_io (LOG_ERROR ''No device set. Call connect() first.'');
            set_state_to FAILED;
            State_Monad.return False }
        | Some ds \<Rightarrow> do {
            name \<leftarrow> gets (\<lambda>s. m_device_name (cl s));
            do_io (LOG_INFO w (''Waiting for SQL Server to connect to device set '' @ dq @ name @ dq @ ''...''));
            do_io (LOG_INFO w (''(Execute: BACKUP DATABASE [db] TO VIRTUAL_DEVICE = N'' @ [CHR 0x27] @ name @ [CHR 0x27] @ '')''));
            (hr, server_config) \<leftarrow> do_io (GetConfiguration w ds 60000);
            if hr_failed hr
            then do {
              do_io (LOG_ERROR (''GetConfiguration failed: '' @ hresult_to_string hr));
              set_state_to FAILED;
              State_Monad.return False }
            else do {
              do_io (log_server_config w server_config);
              set_state_to STREAMING;
              State_Monad.return True } }) } }"

section \<open>close and the destructor\<close>

definition close_device_set :: "('s, unit) act" where
  "close_device_set = do {
     dset \<leftarrow> gets (\<lambda>s. m_device_set (cl s));
     (case dset of
        None \<Rightarrow> State_Monad.return ()
      | Some ds \<Rightarrow> do {
          do_io (SetClose ds);
          do_io (SetRelease ds);
          upd (\<lambda>c. c\<lparr>m_device_set := None\<rparr>) }) }"

definition flush_before_close :: "world \<Rightarrow> 's sink_vtbl \<Rightarrow> ('s, unit) act" where
  "flush_before_close w vt = do {
     st \<leftarrow> gets (\<lambda>s. m_state (cl s));
     sink \<leftarrow> gets (\<lambda>s. m_sink (cl s));
     (case sink of
        None \<Rightarrow> State_Monad.return ()
      | Some sk \<Rightarrow>
          if st = STREAMING \<or> st = FLUSHING
          then do {
            do_io (LOG_INFO w ''Flushing sink before device close...'');
            on_sink sk (vt_flush vt) }
          else State_Monad.return ()) }"

definition close :: "world \<Rightarrow> 's sink_vtbl \<Rightarrow> ('s, unit) act" where
  "close w vt = do {
     closed \<leftarrow> gets (\<lambda>s. m_devices_closed (cl s));
     if closed
     then do_io (LOG_INFO w (''close() called again '' @ em_dash @ '' already closed (idempotent).''))
     else do {
       st \<leftarrow> gets (\<lambda>s. m_state (cl s));
       do_io (LOG_INFO w (''Closing VDI session (state='' @ session_state_to_string st @ '')...''));
       flush_before_close w vt;
       close_device_set;
       upd (\<lambda>c. c\<lparr>m_devices_closed := True\<rparr>);
       set_state_to CLOSED;
       do_io (LOG_INFO w ''VDI session closed cleanly.'') } }"

text \<open>The destructor's body, then the destruction of the member that does something, the sink.\<close>

definition VdiClient_dtor :: "world \<Rightarrow> 's sink_vtbl \<Rightarrow> ('s, unit) act" where
  "VdiClient_dtor w vt = do {
     st \<leftarrow> gets (\<lambda>s. m_state (cl s));
     (if st \<noteq> CLOSED \<and> st \<noteq> INIT
      then do {
        do_io (LOG_WARN ''VDI session destroyed without explicit close() call'');
        close w vt }
      else State_Monad.return ());
     sink \<leftarrow> gets (\<lambda>s. m_sink (cl s));
     (case sink of None \<Rightarrow> State_Monad.return () | Some sk \<Rightarrow> on_sink sk (vt_dtor vt)) }"

section \<open>check_stall\<close>

text \<open>The object after the check, and whether it warns.\<close>

definition stall_update :: "u64 \<Rightarrow> 's client \<Rightarrow> 's client \<times> bool" where
  "stall_update now c =
     (if m_last_stall_warn_us c = 0 then (c\<lparr>m_last_stall_warn_us := now\<rparr>, False)
      else if now - m_last_stall_warn_us c < ucast STALL_WARN_MS * 1000 then (c, False)
      else if m_total_bytes (m_metrics c) = m_last_bytes_total c
      then (c\<lparr>m_last_stall_warn_us := now\<rparr>, True)
      else (c\<lparr>m_last_bytes_total := m_total_bytes (m_metrics c), m_last_stall_warn_us := now\<rparr>, False))"

definition stall_warning :: "u64 \<Rightarrow> session_state \<Rightarrow> string" where
  "stall_warning current_bytes st =
     ''Possible stall detected '' @ em_dash @ '' no byte progress for '' @ decimal (unat STALL_WARN_MS) @
     '' ms (total_bytes='' @ decimal (unat current_bytes) @ '', state='' @ session_state_to_string st @ '')''"

definition check_stall :: "u64 \<Rightarrow> ('s, unit) act" where
  "check_stall now = do {
     c \<leftarrow> gets cl;
     (if snd (stall_update now c)
      then do_io (LOG_WARN (stall_warning (m_total_bytes (m_metrics c)) (m_state c)))
      else State_Monad.return ());
     upd (\<lambda>c. fst (stall_update now c)) }"

end
