(* ===== verification/Command_Loop.thy ===== *)
theory Command_Loop
  imports Vdi_Client
begin

text \<open>
  \<open>VdiClient::process_commands()\<close> in \<open>src/vdi_client.cpp\<close>: opening the devices, the command loop
  with its four timed stages per command, and what follows the loop. The body of the inner
  loop is one function per stage; each says whether the loop goes on, stops, or dereferences
  the null sink pointer (which only the write stage does not test). The outer loop need not
  end, so it is a partial function whose value is None when it runs for ever.
\<close>

datatype control = Next | Stop | Crash

section \<open>The stages of one command\<close>

definition client_now_us :: "world \<Rightarrow> ('s, u64) act" where
  "client_now_us w = do {
     m \<leftarrow> gets (\<lambda>s. m_metrics (cl s));
     do_io (metrics_now_us w m) }"

definition upd_metrics :: "(metrics \<Rightarrow> metrics) \<Rightarrow> ('s, unit) act" where
  "upd_metrics f = upd (\<lambda>c. c\<lparr>m_metrics := f (m_metrics c)\<rparr>)"

definition flush_sink :: "'s sink_vtbl \<Rightarrow> unit io \<Rightarrow> ('s, unit) act" where
  "flush_sink vt note = do {
     sink \<leftarrow> gets (\<lambda>s. m_sink (cl s));
     (case sink of
        None \<Rightarrow> State_Monad.return ()
      | Some sk \<Rightarrow> do { do_io note; on_sink sk (vt_flush vt) }) }"

text \<open>The branches for a failing GetCommand.\<close>

definition get_command_failed :: "world \<Rightarrow> 's sink_vtbl \<Rightarrow> hresult \<Rightarrow> u64 \<Rightarrow> ('s, control) act" where
  "get_command_failed w vt hr gc_end =
     (if hr = VD_E_CLOSE
      then do {
        do_io (LOG_INFO w (''GetCommand returned VD_E_CLOSE '' @ em_dash @
          '' backup complete, initiating graceful shutdown.''));
        set_state_to FLUSHING;
        flush_sink vt (LOG_INFO w ''Flushing sink on VD_E_CLOSE...'');
        State_Monad.return Stop }
      else if hr = VD_E_EOF
      then do {
        do_io (LOG_INFO w (''GetCommand returned VD_E_EOF '' @ em_dash @ '' backup complete.''));
        set_state_to FLUSHING;
        flush_sink vt (State_Monad.return ());
        State_Monad.return Stop }
      else if hr = VD_E_TIMEOUT
      then do {
        timeout \<leftarrow> gets (\<lambda>s. m_command_timeout_ms (cl s));
        do_io (LOG_WARN (''GetCommand timed out after '' @ decimal (unat timeout) @ '' ms '' @ em_dash @
          '' checking progress...''));
        check_stall gc_end;
        State_Monad.return Next }
      else do {
        do_io (LOG_ERROR (''GetCommand failed: '' @ hresult_to_string hr));
        set_state_to FAILED;
        State_Monad.return Stop })"

text \<open>
  The buffer pool simulation of the write stage. The counter of active buffers is incremented,
  read back for the high-water mark, and decremented.
\<close>

definition pool_use :: "'s client \<Rightarrow> 's client" where
  "pool_use c = (case acquire (m_buffer_pool c) of
       (None, pool) \<Rightarrow> c\<lparr>m_buffer_pool := pool, m_metrics := record_buffer_acquire False (m_metrics c)\<rparr>
     | (Some buf, pool) \<Rightarrow>
         (let c = c\<lparr>m_buffer_pool := pool, m_metrics := record_buffer_acquire True (m_metrics c)\<rparr>;
              c = c\<lparr>m_active_buffers := m_active_buffers c + 1\<rparr>;
              cur = m_active_buffers c;
              c = (if m_max_active_buffers c < cur then c\<lparr>m_max_active_buffers := cur\<rparr> else c);
              c = c\<lparr>m_buffer_pool := release buf (m_buffer_pool c)\<rparr>;
              c = c\<lparr>m_active_buffers := m_active_buffers c - 1\<rparr>
          in c\<lparr>m_metrics := record_buffer_release (m_metrics c)\<rparr>))"

text \<open>
  Stage 3. The result is how the loop goes on, or the sink time. The x64 compare-and-exchange
  does not fail spuriously (and \<open>record_chunk_size_eq\<close> shows it would not matter).
\<close>

definition count_chunk :: "vdc_command \<Rightarrow> metrics \<Rightarrow> metrics" where
  "count_chunk cmd m =
     add_bytes (ucast (cmd_size cmd)) (record_chunk_size [] [] (ucast (cmd_size cmd)) m)"

definition cmd_memory :: "vdc_command \<Rightarrow> memory" where
  "cmd_memory cmd = (case buffer cmd of Some p \<Rightarrow> p | None \<Rightarrow> (\<lambda>_. 0))"

definition sink_write :: "world \<Rightarrow> 's sink_vtbl \<Rightarrow> 's \<Rightarrow> vdc_command \<Rightarrow> ('s, control + u64) act" where
  "sink_write w vt sk cmd = do {
     sink_start \<leftarrow> client_now_us w;
     trace \<leftarrow> do_io (trace_begin w);
     write_ok \<leftarrow> on_sink sk (vt_write vt (cmd_memory cmd) (ucast (cmd_size cmd)));
     if \<not> write_ok
     then do {
       do_io (LOG_ERROR (''Sink write failed '' @ em_dash @ '' data loss possible.''));
       set_state_to FAILED;
       do_io (trace_end w ''SinkWrite'' trace);
       State_Monad.return (Inl Stop) }
     else do {
       do_io (trace_end w ''SinkWrite'' trace);
       sink_end \<leftarrow> client_now_us w;
       upd (\<lambda>c. c\<lparr>m_last_bytes_total := m_total_bytes (m_metrics c)\<rparr>);
       State_Monad.return (Inr (sink_end - sink_start)) } }"

definition write_stage :: "world \<Rightarrow> 's sink_vtbl \<Rightarrow> vdc_command \<Rightarrow> ('s, control + u64) act" where
  "write_stage w vt cmd = do {
     upd_metrics (count_chunk cmd);
     upd pool_use;
     valid \<leftarrow> do_io (validate_write_command (Some cmd));
     if \<not> valid
     then do {
       do_io (LOG_ERROR (''Invalid VDC_Write command detected '' @ em_dash @ '' aborting.''));
       set_state_to FAILED;
       State_Monad.return (Inl Stop) }
     else do {
       sink \<leftarrow> gets (\<lambda>s. m_sink (cl s));
       (case sink of
          None \<Rightarrow> State_Monad.return (Inl Crash)
        | Some sk \<Rightarrow>
            if \<not> vt_is_open vt sk
            then do {
              do_io (LOG_ERROR (''Sink is not open '' @ em_dash @ '' cannot write data.''));
              set_state_to FAILED;
              State_Monad.return (Inl Stop) }
            else sink_write w vt sk cmd) } }"

text \<open>Stage 4, the fault injection hook and the record of the chunk's timing.\<close>

definition fault_hook :: "world \<Rightarrow> ('s, bool) act" where
  "fault_hook w = do {
     fi \<leftarrow> gets (\<lambda>s. m_fault_injector (cl s));
     let (fired, fi') = on_chunk_completed (FAULT_INJECTION_ENABLED w) fi;
     upd (\<lambda>c. c\<lparr>m_fault_injector := fi'\<rparr>);
     State_Monad.return fired }"

definition make_timing :: "vdc_command \<Rightarrow> u64 \<Rightarrow> u64 \<Rightarrow> u64 \<Rightarrow> u64 \<Rightarrow> u64 \<Rightarrow> chunk_timing" where
  "make_timing cmd gc_us dp_us sk_us cc_us timestamp =
     \<lparr>ct_size = ucast (cmd_size cmd), getcommand_us = gc_us, dispatch_us = dp_us, sink_us = sk_us,
      complete_us = cc_us, total_us = gc_us + dp_us + sk_us + cc_us, timestamp_us = timestamp\<rparr>"

definition ERROR_SUCCESS :: u32 where "ERROR_SUCCESS = 0"

definition complete_stage ::
    "world \<Rightarrow> device \<Rightarrow> vdc_command \<Rightarrow> (u64 \<Rightarrow> chunk_timing) \<Rightarrow> ('s, control) act" where
  "complete_stage w device cmd timing = do {
     cc_start \<leftarrow> client_now_us w;
     hr \<leftarrow> do_io (CompleteCommand w device cmd ERROR_SUCCESS (cmd_size cmd) (position cmd));
     cc_end \<leftarrow> client_now_us w;
     if hr_failed hr
     then do {
       do_io (LOG_ERROR (''CompleteCommand failed: '' @ hresult_to_string hr));
       set_state_to FAILED;
       State_Monad.return Stop }
     else do {
       fired \<leftarrow> fault_hook w;
       if fired
       then do {
         fi \<leftarrow> gets (\<lambda>s. m_fault_injector (cl s));
         do_io (LOG_WARN (''Fault injector triggered after '' @
           decimal (unat (fi_chunk_count (FAULT_INJECTION_ENABLED w) fi)) @ '' chunks '' @ em_dash @
           '' simulating failure.''));
         set_state_to FAILED;
         State_Monad.return Stop }
       else do {
         upd_metrics (record_chunk_timing (timing (cc_end - cc_start)));
         State_Monad.return Next } } }"

text \<open>One command from one device.\<close>

definition process_device ::
    "world \<Rightarrow> 's sink_vtbl \<Rightarrow> u64 \<Rightarrow> device \<Rightarrow> ('s, control) act" where
  "process_device w vt session_start_us device = do {
     gc_start \<leftarrow> client_now_us w;
     timeout \<leftarrow> gets (\<lambda>s. m_command_timeout_ms (cl s));
     (hr, c) \<leftarrow> do_io (GetCommand w device timeout);
     gc_end \<leftarrow> client_now_us w;
     upd (\<lambda>c. c\<lparr>m_last_command_us := gc_end\<rparr>);
     if hr_failed hr then get_command_failed w vt hr gc_end
     else (case c of
       None \<Rightarrow> do {
         do_io (LOG_WARN (''GetCommand returned S_OK with null command '' @ em_dash @ '' continuing...''));
         State_Monad.return Next }
     | Some cmd \<Rightarrow> do {
         do_io (LOG_DEBUG w (''Received command: '' @ command_code_string (commandCode cmd) @
           '' (code='' @ decimal (unat (commandCode cmd)) @ '')''));
         dispatch_start \<leftarrow> client_now_us w;
         (cmd_code, dispatch_result) \<leftarrow> do_io (dispatch_command w (Some cmd));
         dispatch_end \<leftarrow> client_now_us w;
         if dispatch_result = CR_FAILED
         then do {
           do_io (LOG_ERROR (''Command dispatch failed '' @ em_dash @ '' aborting command loop.''));
           set_state_to FAILED;
           State_Monad.return Stop }
         else if dispatch_result = CR_CLOSE_REQUEST then State_Monad.return Stop
         else do {
           stage3 \<leftarrow> (if cmd_code = VDC_Write then write_stage w vt cmd else State_Monad.return (Inr 0));
           (case stage3 of
              Inl ctl \<Rightarrow> State_Monad.return ctl
            | Inr sk_us \<Rightarrow>
                complete_stage w device cmd
                  (\<lambda>cc_us. make_timing cmd (gc_end - gc_start) (dispatch_end - dispatch_start) sk_us cc_us
                     (gc_start - session_start_us))) } }) }"

section \<open>The loops\<close>

fun device_round :: "world \<Rightarrow> 's sink_vtbl \<Rightarrow> u64 \<Rightarrow> device list \<Rightarrow> ('s, control) act" where
  "device_round w vt start [] = State_Monad.return Next"
| "device_round w vt start (d # ds) = do {
     r \<leftarrow> process_device w vt start d;
     if r = Next then device_round w vt start ds else State_Monad.return r }"

partial_function (option) command_loop ::
    "world \<Rightarrow> 's sink_vtbl \<Rightarrow> u64 \<Rightarrow> device list \<Rightarrow> 's sys \<Rightarrow> (control \<times> 's sys) option" where
  "command_loop w vt start ds s =
     (case run_state (device_round w vt start ds) s of (r, s') \<Rightarrow>
        if r = Next then command_loop w vt start ds s' else Some (r, s'))"

section \<open>process_commands\<close>

fun open_all_devices :: "world \<Rightarrow> devset \<Rightarrow> nat \<Rightarrow> nat \<Rightarrow> device list \<Rightarrow> ('s, device list option) act" where
  "open_all_devices w ds i 0 devices = State_Monad.return (Some devices)"
| "open_all_devices w ds i (Suc n) devices = do {
     name \<leftarrow> gets (\<lambda>s. m_device_name (cl s));
     (hr, device) \<leftarrow> do_io (OpenDevice w ds name);
     if hr_failed hr
     then do {
       do_io (LOG_ERROR (''OpenDevice failed: '' @ hresult_to_string hr));
       set_state_to FAILED;
       State_Monad.return None }
     else do {
       do_io (LOG_INFO w (''Opened virtual device '' @ decimal i @ '': '' @ dq @ name @ dq));
       open_all_devices w ds (Suc i) n (devices @ [device]) } }"

fun release_all :: "device list \<Rightarrow> unit io" where
  "release_all [] = State_Monad.return ()"
| "release_all (d # ds) = do { DeviceRelease d; release_all ds }"

text \<open>After the loop. The JSON text is an argument of LOG_INFO, so a build without it never computes it.\<close>

definition report :: "world \<Rightarrow> ('s, unit) act" where
  "report w = do {
     c \<leftarrow> gets cl;
     do_io (print_summary w (m_metrics c));
     do_io (LOG_INFO w ''---BEGIN JSON METRICS---'');
     (if LOG_LEVEL_INFO \<le> LOGGING_LEVEL w
      then do_io (do { json \<leftarrow> to_json w (m_metrics c); LOG_INFO w json })
      else State_Monad.return ());
     do_io (LOG_INFO w ''---END JSON METRICS---'');
     do_io (LOG_INFO w (''Resource accounting: max_active_buffers='' @
       decimal (unat (m_max_active_buffers c)))) }"

definition after_loop :: "world \<Rightarrow> 's sink_vtbl \<Rightarrow> device list \<Rightarrow> ('s, unit) act" where
  "after_loop w vt devices = do {
     do_io (release_all devices);
     st \<leftarrow> gets (\<lambda>s. m_state (cl s));
     (if st = FLUSHING then close w vt else State_Monad.return ());
     report w }"

datatype outcome = Returned | Crashed

definition start_session_clock :: "world \<Rightarrow> ('s, u64) act" where
  "start_session_clock w = do {
     start \<leftarrow> client_now_us w;
     upd (\<lambda>c. c\<lparr>m_last_command_us := start, m_last_bytes_total := 0, m_last_stall_warn_us := start\<rparr>);
     State_Monad.return start }"

definition device_total :: "'s client \<Rightarrow> nat" where
  "device_total c = (if 0 < sint (m_device_count c) then nat (sint (m_device_count c)) else 1)"

text \<open>
  The guards and the opening of the devices: the devices, or None when the function has
  already returned.
\<close>

definition process_prologue :: "world \<Rightarrow> ('s, device list option) act" where
  "process_prologue w = do {
     st \<leftarrow> gets (\<lambda>s. m_state (cl s));
     if st \<noteq> STREAMING
     then do {
       do_io (LOG_ERROR (''process_commands() called in state '' @ session_state_to_string st @
         '' (expected STREAMING)''));
       State_Monad.return None }
     else do {
       c \<leftarrow> gets cl;
       (case m_device_set c of
          None \<Rightarrow> do {
            do_io (LOG_ERROR ''No device set. Call open_devices() first.'');
            State_Monad.return None }
        | Some ds \<Rightarrow> open_all_devices w ds 0 (device_total c) []) } }"

definition process_commands :: "world \<Rightarrow> 's sink_vtbl \<Rightarrow> 's sys \<Rightarrow> (outcome \<times> 's sys) option" where
  "process_commands w vt s =
     (case run_state (process_prologue w) s of
        (None, s) \<Rightarrow> Some (Returned, s)
      | (Some devices, s) \<Rightarrow>
          (case run_state (start_session_clock w) s of (start, s) \<Rightarrow>
             (case command_loop w vt start devices s of
                None \<Rightarrow> None
              | Some (Crash, s) \<Rightarrow> Some (Crashed, s)
              | Some (_, s) \<Rightarrow> Some (Returned, snd (run_state (after_loop w vt devices) s)))))"

end
