(* ===== verification/Loop_Steps.thy ===== *)
theory Loop_Steps
  imports Command_Loop
begin

text \<open>
  What one iteration of the command loop does, as an inductive step relation: one rule per way
  through the body of the loop, stated on the client object, the history and the control
  result, with the events that do not matter (log lines, clock reads, traces) abstracted to
  \<open>quiet\<close> stretches of the history. \<open>process_device_step\<close> shows that the translation of the code
  takes only these steps; the loops are then sequences of steps, and every loop property is an
  induction over them with the case rules at the end of the theory.
\<close>

section \<open>Quiet stretches of a history\<close>

fun is_quiet :: "event \<Rightarrow> bool" where
  "is_quiet (E_Log _ _) = True"
| "is_quiet (E_Trace _ _ _) = True"
| "is_quiet (E_steady_clock _) = True"
| "is_quiet (E_QueryPerformanceCounter _) = True"
| "is_quiet (E_QueryPerformanceFrequency _) = True"
| "is_quiet (E_GetCurrentThreadId _) = True"
| "is_quiet _ = False"

abbreviation quiet :: "history \<Rightarrow> history \<Rightarrow> bool" where
  "quiet \<equiv> extends is_quiet"

lemma is_log_quiet [simp]: "is_log e \<Longrightarrow> is_quiet e"
  by (cases e) auto

lemma is_clock_quiet [simp]: "is_clock e \<Longrightarrow> is_quiet e"
  by (cases e) auto

lemma quiet_not_sink: "is_quiet e \<Longrightarrow> \<not> is_sink_event e"
  by (cases e) auto

lemma quiet_log: "extends is_log h h' \<Longrightarrow> quiet h h'"
  by (erule extends_mono) simp

lemma quiet_clock: "is_clock e \<Longrightarrow> quiet h h' \<Longrightarrow> quiet h (e # h')"
  by simp

lemma quiet_log_trans: "extends is_log h h' \<Longrightarrow> quiet h0 h \<Longrightarrow> quiet h0 h'"
  by (metis extends_trans quiet_log)

lemma quiet_trans: "quiet h h' \<Longrightarrow> quiet h0 h \<Longrightarrow> quiet h0 h'"
  by (rule extends_trans)

text \<open>Elimination rules that follow a history back, one quiet stretch at a time.\<close>

lemmas quiet_back = quiet_trans quiet_log_trans

text \<open>Quiet rules for the calls of the loop.\<close>

lemma wp_client_now_us [wp_intros]:
  "(\<And>t h'. quiet (hist s) h' \<Longrightarrow> Q t (s\<lparr>hist := h'\<rparr>)) \<Longrightarrow> wp (client_now_us w) Q s"
  unfolding client_now_us_def by (intro wp_intros) (simp add: quiet_clock)

lemma wp_trace_begin [wp_intros]:
  "(\<And>d h'. quiet h h' \<Longrightarrow> Q d h') \<Longrightarrow> wp (trace_begin w) Q h"
  unfolding trace_begin_def steady_clock_now_def GetCurrentThreadId_def
  by (intro wp_intros) simp_all

lemma wp_trace_end [wp_intros]:
  "(\<And>h'. quiet h h' \<Longrightarrow> Q () h') \<Longrightarrow> wp (trace_end w nm d) Q h"
  unfolding trace_end_def steady_clock_now_def
  by (intro wp_intros) simp_all

section \<open>The step relation\<close>

text \<open>
  \<open>received w d s hr c c1 h\<close>: GetCommand on \<open>d\<close> answered \<open>(hr, c)\<close>; the object is then \<open>c1\<close> and
  the history \<open>h\<close>.
\<close>

definition received ::
    "world \<Rightarrow> device \<Rightarrow> 's sys \<Rightarrow> hresult \<Rightarrow> vdc_command option \<Rightarrow> 's client \<Rightarrow> history \<Rightarrow> bool" where
  "received w d s hr c c1 h \<longleftrightarrow> (\<exists>h1 now.
     quiet (hist s) h1 \<and> r_GetCommand w h1 d (m_command_timeout_ms (cl s)) = (hr, c) \<and>
     c1 = (cl s)\<lparr>m_last_command_us := now\<rparr> \<and>
     quiet (E_GetCommand d (m_command_timeout_ms (cl s)) hr c # h1) h)"

text \<open>The accounting at the start of the write stage.\<close>

definition account :: "vdc_command \<Rightarrow> 's client \<Rightarrow> 's client" where
  "account cmd c = pool_use (c\<lparr>m_metrics := count_chunk cmd (m_metrics c)\<rparr>)"

text \<open>
  \<open>served w vt cmd c h c2 h2\<close>: what the command asks for has been done and it may be completed.
\<close>

inductive served ::
    "'s sink_vtbl \<Rightarrow> vdc_command \<Rightarrow> 's client \<Rightarrow> history \<Rightarrow> 's client \<Rightarrow> history \<Rightarrow> bool"
  for vt cmd c h where
  served_other: "commandCode cmd \<noteq> VDC_Write \<Longrightarrow> commandCode cmd \<noteq> VDC_Close \<Longrightarrow> quiet h h2 \<Longrightarrow>
    served vt cmd c h c h2"
| served_write: "commandCode cmd = VDC_Write \<Longrightarrow> write_acceptable cmd \<Longrightarrow> m_sink c = Some sk \<Longrightarrow>
    vt_is_open vt sk \<Longrightarrow>
    run_state (vt_write vt (cmd_memory cmd) (ucast (cmd_size cmd))) (sk, h1) = (True, sk', h1') \<Longrightarrow>
    quiet h h1 \<Longrightarrow> quiet h1' h2 \<Longrightarrow>
    c2 = (account cmd c)\<lparr>m_sink := Some sk', m_last_bytes_total := m_total_bytes (m_metrics (account cmd c))\<rparr> \<Longrightarrow>
    served vt cmd c h c2 h2"

text \<open>\<open>completed w d cmd h hr h3\<close>: the command is handed back with success and answered \<open>hr\<close>.\<close>

definition completed :: "world \<Rightarrow> device \<Rightarrow> vdc_command \<Rightarrow> history \<Rightarrow> hresult \<Rightarrow> history \<Rightarrow> bool" where
  "completed w d cmd h hr h3 \<longleftrightarrow> (\<exists>h1. quiet h h1 \<and>
     quiet (E_CompleteCommand d cmd ERROR_SUCCESS (cmd_size cmd) (position cmd) hr # h1) h3)"

text \<open>What the timing record of a completed command says of it, whatever the clocks answered.\<close>

definition timing_of :: "vdc_command \<Rightarrow> chunk_timing \<Rightarrow> bool" where
  "timing_of cmd tm \<longleftrightarrow> ct_size tm = ucast (cmd_size cmd) \<and>
     total_us tm = getcommand_us tm + dispatch_us tm + sink_us tm + complete_us tm \<and>
     (commandCode cmd \<noteq> VDC_Write \<longrightarrow> sink_us tm = 0)"

inductive device_step :: "world \<Rightarrow> 's sink_vtbl \<Rightarrow> device \<Rightarrow> 's sys \<Rightarrow> control \<Rightarrow> 's sys \<Rightarrow> bool"
  for w vt d s where
  graceful_end: "received w d s hr c c1 h \<Longrightarrow> hr = VD_E_CLOSE \<or> hr = VD_E_EOF \<Longrightarrow>
    m_sink (cl s) = Some sk \<Longrightarrow> run_state (vt_flush vt) (sk, h1) = (u, sk', h') \<Longrightarrow> quiet h h1 \<Longrightarrow>
    device_step w vt d s Stop \<lparr>cl = c1\<lparr>m_state := FLUSHING, m_sink := Some sk'\<rparr>, hist = h'\<rparr>"
| graceful_end_no_sink: "received w d s hr c c1 h \<Longrightarrow> hr = VD_E_CLOSE \<or> hr = VD_E_EOF \<Longrightarrow>
    m_sink (cl s) = None \<Longrightarrow> quiet h h' \<Longrightarrow>
    device_step w vt d s Stop \<lparr>cl = c1\<lparr>m_state := FLUSHING\<rparr>, hist = h'\<rparr>"
| timed_out: "received w d s VD_E_TIMEOUT c c1 h \<Longrightarrow> quiet h h' \<Longrightarrow>
    device_step w vt d s Next \<lparr>cl = fst (stall_update now c1), hist = h'\<rparr>"
| get_failed: "received w d s hr c c1 h \<Longrightarrow> hr_failed hr \<Longrightarrow> hr \<notin> {VD_E_CLOSE, VD_E_EOF, VD_E_TIMEOUT} \<Longrightarrow>
    quiet h h' \<Longrightarrow> device_step w vt d s Stop \<lparr>cl = c1\<lparr>m_state := FAILED\<rparr>, hist = h'\<rparr>"
| no_command: "received w d s hr None c1 h \<Longrightarrow> hr_succeeded hr \<Longrightarrow> quiet h h' \<Longrightarrow>
    device_step w vt d s Next \<lparr>cl = c1, hist = h'\<rparr>"
| close_request: "received w d s hr (Some cmd) c1 h \<Longrightarrow> hr_succeeded hr \<Longrightarrow> commandCode cmd = VDC_Close \<Longrightarrow>
    quiet h h' \<Longrightarrow> device_step w vt d s Stop \<lparr>cl = c1, hist = h'\<rparr>"
| bad_write: "received w d s hr (Some cmd) c1 h \<Longrightarrow> hr_succeeded hr \<Longrightarrow> commandCode cmd = VDC_Write \<Longrightarrow>
    \<not> write_acceptable cmd \<Longrightarrow> quiet h h' \<Longrightarrow>
    device_step w vt d s Stop \<lparr>cl = (account cmd c1)\<lparr>m_state := FAILED\<rparr>, hist = h'\<rparr>"
| null_sink: "received w d s hr (Some cmd) c1 h \<Longrightarrow> hr_succeeded hr \<Longrightarrow> commandCode cmd = VDC_Write \<Longrightarrow>
    write_acceptable cmd \<Longrightarrow> m_sink (cl s) = None \<Longrightarrow> quiet h h' \<Longrightarrow>
    device_step w vt d s Crash \<lparr>cl = account cmd c1, hist = h'\<rparr>"
| sink_closed: "received w d s hr (Some cmd) c1 h \<Longrightarrow> hr_succeeded hr \<Longrightarrow> commandCode cmd = VDC_Write \<Longrightarrow>
    write_acceptable cmd \<Longrightarrow> m_sink (cl s) = Some sk \<Longrightarrow> \<not> vt_is_open vt sk \<Longrightarrow> quiet h h' \<Longrightarrow>
    device_step w vt d s Stop \<lparr>cl = (account cmd c1)\<lparr>m_state := FAILED\<rparr>, hist = h'\<rparr>"
| write_failed: "received w d s hr (Some cmd) c1 h \<Longrightarrow> hr_succeeded hr \<Longrightarrow> commandCode cmd = VDC_Write \<Longrightarrow>
    write_acceptable cmd \<Longrightarrow> m_sink (cl s) = Some sk \<Longrightarrow> vt_is_open vt sk \<Longrightarrow>
    run_state (vt_write vt (cmd_memory cmd) (ucast (cmd_size cmd))) (sk, h1) = (False, sk', h1') \<Longrightarrow>
    quiet h h1 \<Longrightarrow> quiet h1' h' \<Longrightarrow>
    device_step w vt d s Stop \<lparr>cl = (account cmd c1)\<lparr>m_sink := Some sk', m_state := FAILED\<rparr>, hist = h'\<rparr>"
| complete_failed: "received w d s hr (Some cmd) c1 h \<Longrightarrow> hr_succeeded hr \<Longrightarrow> served vt cmd c1 h c2 h2 \<Longrightarrow>
    completed w d cmd h2 hr2 h' \<Longrightarrow> hr_failed hr2 \<Longrightarrow>
    device_step w vt d s Stop \<lparr>cl = c2\<lparr>m_state := FAILED\<rparr>, hist = h'\<rparr>"
| fault_injected: "received w d s hr (Some cmd) c1 h \<Longrightarrow> hr_succeeded hr \<Longrightarrow> served vt cmd c1 h c2 h2 \<Longrightarrow>
    completed w d cmd h2 hr2 h' \<Longrightarrow> hr_succeeded hr2 \<Longrightarrow>
    on_chunk_completed (FAULT_INJECTION_ENABLED w) (m_fault_injector c2) = (True, fi) \<Longrightarrow>
    device_step w vt d s Stop \<lparr>cl = c2\<lparr>m_fault_injector := fi, m_state := FAILED\<rparr>, hist = h'\<rparr>"
| command_done: "received w d s hr (Some cmd) c1 h \<Longrightarrow> hr_succeeded hr \<Longrightarrow> served vt cmd c1 h c2 h2 \<Longrightarrow>
    completed w d cmd h2 hr2 h' \<Longrightarrow> hr_succeeded hr2 \<Longrightarrow>
    on_chunk_completed (FAULT_INJECTION_ENABLED w) (m_fault_injector c2) = (False, fi) \<Longrightarrow>
    timing_of cmd tm \<Longrightarrow>
    device_step w vt d s Next
      \<lparr>cl = c2\<lparr>m_fault_injector := fi, m_metrics := record_chunk_timing tm (m_metrics c2)\<rparr>, hist = h'\<rparr>"

section \<open>The code takes only these steps\<close>

lemma m_sink_account [simp]: "m_sink (account cmd c) = m_sink c"
  by (simp add: account_def pool_use_def Let_def split: prod.splits option.splits)

lemma m_sink_received: "received w d s hr c c1 h \<Longrightarrow> m_sink c1 = m_sink (cl s)"
  by (auto simp: received_def)

lemma wp_upd_metrics [wp_intros]:
  "Q () (s\<lparr>cl := (cl s)\<lparr>m_metrics := f (m_metrics (cl s))\<rparr>\<rparr>) \<Longrightarrow> wp (upd_metrics f) Q s"
  unfolding upd_metrics_def by (intro wp_intros)

lemma wp_fault_hook [wp_intros]:
  "(\<And>fired fi. on_chunk_completed (FAULT_INJECTION_ENABLED w) (m_fault_injector (cl s)) = (fired, fi) \<Longrightarrow>
      Q fired (s\<lparr>cl := (cl s)\<lparr>m_fault_injector := fi\<rparr>\<rparr>)) \<Longrightarrow> wp (fault_hook w) Q s"
  unfolding fault_hook_def by (intro wp_intros) (auto split: prod.splits intro!: wp_intros)

lemma get_command_failed_step:
  assumes r: "received w d s hr c c1 h" and "hr_failed hr"
  shows "wp (get_command_failed w vt hr now) (device_step w vt d s) \<lparr>cl = c1, hist = h\<rparr>"
  unfolding get_command_failed_def flush_sink_def check_stall_def
proof (intro wp_intros, goal_cases)
  case (1 h') \<comment> \<open>VD_E_CLOSE, no sink\<close>
  then show ?case
    using r m_sink_received [OF r] by (auto intro: device_step.graceful_end_no_sink quiet_log)
next
  case (2 h' sk h'' u sk' h3)
  then show ?case
    using r m_sink_received [OF r]
    by (auto intro!: device_step.graceful_end [OF r] intro: quiet_log_trans quiet_log)
next
  case (3 h') \<comment> \<open>VD_E_EOF, no sink\<close>
  then show ?case
    using r m_sink_received [OF r] by (auto intro: device_step.graceful_end_no_sink quiet_log)
next
  case (4 h' sk u sk' h3)
  then show ?case
    using r m_sink_received [OF r]
    by (auto intro!: device_step.graceful_end [OF r] intro: quiet_log_trans quiet_log)
next
  case (5 h' h'')
  then show ?case
    using r by (auto intro!: device_step.timed_out intro: quiet_log_trans quiet_log)
next
  case (6 h')
  then show ?case
    using r by (auto intro!: device_step.timed_out intro: quiet_log_trans quiet_log)
next
  case (7 h')
  then show ?case
    using assms by (auto intro!: device_step.get_failed intro: quiet_log)
qed

text \<open>Stage 4: whatever the world answers, the step ends as one of the last three rules say.\<close>

lemma complete_stage_step:
  assumes "received w d s hr (Some cmd) c1 h" "hr_succeeded hr" "served vt cmd c1 h c2 h2"
    and "\<And>x. timing_of cmd (timing x)"
  shows "wp (complete_stage w d cmd timing) (device_step w vt d s) \<lparr>cl = c2, hist = h2\<rparr>"
  unfolding complete_stage_def CompleteCommand_def
proof (intro wp_intros, goal_cases)
  case (1 t h' r t' h'' h3)
  then have "completed w d cmd h2 r h3"
    by (auto simp: completed_def intro: quiet_log_trans)
  with 1 show ?case using device_step.complete_failed [OF assms(1-3)] by auto
next
  case (2 t h' r t' h'' fired fi h3)
  then have "completed w d cmd h2 r h3"
    by (auto simp: completed_def intro: quiet_log_trans)
  with 2 show ?case using device_step.fault_injected [OF assms(1-3)] by auto
next
  case (3 t h' r t' h'' fired fi)
  then have "completed w d cmd h2 r h''"
    by (auto simp: completed_def)
  with 3 show ?case using device_step.command_done [OF assms(1-3)] assms(4) by auto
qed

text \<open>Stage 3: the write stage either ends the iteration with a step, or has served the command.\<close>

lemma write_stage_step:
  assumes r: "received w d s hr (Some cmd) c1 h" "hr_succeeded hr" "commandCode cmd = VDC_Write"
  shows "wp (write_stage w vt cmd)
    (\<lambda>x s'. case x of Inl ctl \<Rightarrow> device_step w vt d s ctl s'
        | Inr sk_us \<Rightarrow> served vt cmd c1 h (cl s') (hist s')) \<lparr>cl = c1, hist = h\<rparr>"
  unfolding write_stage_def sink_write_def
proof (intro wp_intros, simp_all add: r(3) account_def [symmetric], goal_cases)
  case (1 h' h'')
  then show ?case
    by (intro device_step.bad_write [OF r]) (auto intro: quiet_log_trans quiet_log)
next
  case (2 h')
  then show ?case
    using m_sink_received [OF r(1)] by (intro device_step.null_sink [OF r]) (auto intro: quiet_log)
next
  case (3 h' sk h'')
  then show ?case
    using m_sink_received [OF r(1)]
    by (intro device_step.sink_closed [OF r]) (auto intro: quiet_log_trans quiet_log)
next
  case (4 h' sk h1 h2 ok sk' h3 h4 h5)
  then have "quiet h h2" "quiet h3 h5"
    by (auto intro: extends_trans quiet_log)
  with 4 show ?case
    using m_sink_received [OF r(1)] by (intro device_step.write_failed [OF r _ _ _ 4(7)]) auto
next
  case (5 h' sk h1 h2 ok sk' h3 h4 h5)
  then have "quiet h h2" "quiet h3 h5"
    by (auto intro: extends_trans quiet_log)
  with 5 show ?case
    using r(3) by (intro served.served_write [OF _ _ _ _ 5(7)]) auto
qed

text \<open>The whole body of the inner loop refines the step relation.\<close>

lemma sys_update: "s\<lparr>cl := c, hist := h\<rparr> = \<lparr>cl = c, hist = h\<rparr>"
  "s\<lparr>hist := h, cl := c\<rparr> = \<lparr>cl = c, hist = h\<rparr>"
  by simp_all

lemma wp_GetCommand:
  "(\<And>hr c. r_GetCommand w h d t = (hr, c) \<Longrightarrow> Q (hr, c) (E_GetCommand d t hr c # h)) \<Longrightarrow>
   wp (GetCommand w d t) Q h"
  by (cases "r_GetCommand w h d t") (simp add: GetCommand_def wp_def)

lemma receivedI:
  assumes "r_GetCommand w h1 d (m_command_timeout_ms (cl s)) = (hr, c)" "quiet (hist s) h1"
    "quiet (E_GetCommand d (m_command_timeout_ms (cl s)) hr c # h1) h"
  shows "received w d s hr c ((cl s)\<lparr>m_last_command_us := now\<rparr>) h"
  using assms by (auto simp: received_def)

lemma received_quiet: "received w d s hr c c1 h \<Longrightarrow> quiet h h' \<Longrightarrow> received w d s hr c c1 h'"
  unfolding received_def by (blast intro: extends_trans)

lemma write_then_complete_step:
  assumes r: "received w d s hr (Some cmd) c1 h" "hr_succeeded hr" "commandCode cmd = VDC_Write"
    and tm: "\<And>sk_us x. timing_of cmd (timing sk_us x)"
  shows "wp (write_stage w vt cmd) (\<lambda>x. wp (case x of Inl ctl \<Rightarrow> State_Monad.return ctl
       | Inr sk_us \<Rightarrow> complete_stage w d cmd (timing sk_us)) (device_step w vt d s)) \<lparr>cl = c1, hist = h\<rparr>"
proof (rule wp_mono [OF write_stage_step [OF r]])
  fix x :: "control + u64" and s'
  assume x: "case x of Inl ctl \<Rightarrow> device_step w vt d s ctl s' | Inr sk_us \<Rightarrow> served vt cmd c1 h (cl s') (hist s')"
  show "wp (case x of Inl ctl \<Rightarrow> State_Monad.return ctl | Inr sk_us \<Rightarrow> complete_stage w d cmd (timing sk_us))
      (device_step w vt d s) s'"
  proof (cases x)
    case (Inl ctl)
    with x show ?thesis by (auto intro: wp_intros)
  next
    case (Inr sk_us)
    with x have "served vt cmd c1 h (cl s') (hist s')" by simp
    obtain c2 h2 where s': "s' = \<lparr>cl = c2, hist = h2\<rparr>" by (cases s')
    with \<open>served vt cmd c1 h (cl s') (hist s')\<close> have "served vt cmd c1 h c2 h2" by simp
    from complete_stage_step [OF r(1,2) this] tm Inr s' show ?thesis by simp
  qed
qed

lemma process_device_step:
  "wp (process_device w vt start d) (device_step w vt d s) s"
  unfolding process_device_def
  apply (intro wp_intros wp_GetCommand, simp_all add: sys_update dispatch_result_def split: if_splits)
  subgoal by (rule get_command_failed_step [OF receivedI])
  subgoal by (erule device_step.no_command [OF receivedI]) (auto intro: quiet_log)
  subgoal
    by (erule device_step.close_request [OF receivedI, OF _ _ extends_refl])
      (assumption | erule quiet_back)+
  subgoal
    by (erule write_then_complete_step [OF receivedI])
      (assumption | simp add: make_timing_def timing_of_def | erule quiet_back)+
  subgoal
    by (erule complete_stage_step [OF receivedI [OF _ _ extends_refl]])
      (assumption | rule served.served_other | simp add: make_timing_def timing_of_def | erule quiet_back)+
  done

section \<open>Runs of the loop\<close>

text \<open>
  \<open>loop_reach w vt ds s s'\<close>: the loop over the devices \<open>ds\<close>, started in \<open>s\<close>, can be about to handle
  a device in \<open>s'\<close>. \<open>loop_end\<close>: it can be left in \<open>s'\<close> with the control result \<open>r\<close>.
\<close>

inductive loop_reach :: "world \<Rightarrow> 's sink_vtbl \<Rightarrow> device list \<Rightarrow> 's sys \<Rightarrow> 's sys \<Rightarrow> bool"
  for w vt ds s where
  reach_start: "loop_reach w vt ds s s"
| reach_step: "loop_reach w vt ds s s1 \<Longrightarrow> d \<in> set ds \<Longrightarrow> device_step w vt d s1 Next s2 \<Longrightarrow>
    loop_reach w vt ds s s2"

definition loop_end ::
    "world \<Rightarrow> 's sink_vtbl \<Rightarrow> device list \<Rightarrow> 's sys \<Rightarrow> control \<Rightarrow> 's sys \<Rightarrow> bool" where
  "loop_end w vt ds s r s' \<longleftrightarrow>
     (\<exists>s1 d. loop_reach w vt ds s s1 \<and> d \<in> set ds \<and> device_step w vt d s1 r s' \<and> r \<noteq> Next)"

lemma device_round_run:
  assumes "set ds' \<subseteq> set ds" "loop_reach w vt ds s0 s"
  shows "wp (device_round w vt start ds')
    (\<lambda>r s'. if r = Next then loop_reach w vt ds s0 s' else loop_end w vt ds s0 r s') s"
  using assms
proof (induction ds' arbitrary: s)
  case (Cons d ds')
  show ?case
    unfolding device_round.simps
  proof (rule wp_bind, rule wp_mono [OF process_device_step])
    fix r s'
    assume step: "device_step w vt d s r s'"
    show "wp (if r = Next then device_round w vt start ds' else State_Monad.return r)
        (\<lambda>r s'. if r = Next then loop_reach w vt ds s0 s' else loop_end w vt ds s0 r s') s'"
    proof (cases "r = Next")
      case True
      then have "loop_reach w vt ds s0 s'"
        using Cons.prems step by (auto intro: reach_step)
      with Cons True show ?thesis by simp
    next
      case False
      with Cons.prems step show ?thesis by (auto simp: loop_end_def intro!: wp_intros)
    qed
  qed
qed (auto intro: wp_intros)

lemma command_loop_run:
  assumes "command_loop w vt start ds s = Some (r, s')"
  shows "loop_end w vt ds s r s'"
proof -
  have "loop_reach w vt ds s0 s \<longrightarrow> loop_end w vt ds s0 (fst x) (snd x)"
    if "command_loop w vt start ds s = Some x" for s0 s x
  proof (rule command_loop.raw_induct [OF _ that, where P = "\<lambda>w vt start ds s x.
      loop_reach w vt ds s0 s \<longrightarrow> loop_end w vt ds s0 (fst x) (snd x)"], rule impI)
    fix loop w start x and vt :: "'a sink_vtbl" and ds :: "device list" and s :: "'a sys"
    assume IH: "\<And>vt start ds s b y. loop vt start ds s b = Some y \<Longrightarrow>
        loop_reach vt start s s0 b \<longrightarrow> loop_end vt start s s0 (fst y) (snd y)"
      and eq: "(case run_state (device_round w vt start ds) s of (r, s') \<Rightarrow>
        if r = Next then loop w vt start ds s' else Some (r, s')) = Some x"
      and reach: "loop_reach w vt ds s0 s"
    obtain r s1 where rs: "run_state (device_round w vt start ds) s = (r, s1)" by fastforce
    then have x: "(if r = Next then loop w vt start ds s1 else Some (r, s1)) = Some x"
      using eq by simp
    have "if r = Next then loop_reach w vt ds s0 s1 else loop_end w vt ds s0 r s1"
      using wpD [OF device_round_run [OF order_refl reach] rs] .
    with x show "loop_end w vt ds s0 (fst x) (snd x)"
      using IH [of w vt start ds s1 x] by (cases "r = Next") auto
  qed
  from this [OF assms, of s] show ?thesis by (simp add: reach_start)
qed

text \<open>The loop rule: an invariant of the steps that go on, and what the last step adds to it.\<close>

lemma loop_reach_invariant:
  assumes "loop_reach w vt ds s s'" "I s"
    and "\<And>d s1 s2. d \<in> set ds \<Longrightarrow> I s1 \<Longrightarrow> device_step w vt d s1 Next s2 \<Longrightarrow> I s2"
  shows "I s'"
  using assms(1,2) by induction (auto intro: assms(3))

lemma command_loop_rule:
  assumes "command_loop w vt start ds s = Some (r, s')" "I s"
    and step: "\<And>d s1 r s2. d \<in> set ds \<Longrightarrow> I s1 \<Longrightarrow> device_step w vt d s1 r s2 \<Longrightarrow>
      (if r = Next then I s2 else F r s2)"
  shows "r \<noteq> Next \<and> F r s'"
proof -
  obtain s1 d where run: "loop_reach w vt ds s s1" "d \<in> set ds" "device_step w vt d s1 r s'" "r \<noteq> Next"
    using command_loop_run [OF assms(1)] by (auto simp: loop_end_def)
  have "I s1" by (rule loop_reach_invariant [OF run(1)]) (use assms(2) step in force)+
  with run step [of d s1 r s'] show ?thesis by simp
qed

section \<open>What each piece of a step leaves alone\<close>

lemma pool_use_fields [simp]:
  "m_sink (pool_use c) = m_sink c" "m_state (pool_use c) = m_state c"
  "m_device_set (pool_use c) = m_device_set c" "m_devices_closed (pool_use c) = m_devices_closed c"
  "m_last_bytes_total (pool_use c) = m_last_bytes_total c"
  "m_last_stall_warn_us (pool_use c) = m_last_stall_warn_us c"
  "m_device_name (pool_use c) = m_device_name c" "m_device_count (pool_use c) = m_device_count c"
  "m_command_timeout_ms (pool_use c) = m_command_timeout_ms c"
  "m_fault_injector (pool_use c) = m_fault_injector c"
  "m_timer (m_metrics (pool_use c)) = m_timer (m_metrics c)"
  by (simp_all add: pool_use_def Let_def record_buffer_acquire_def record_buffer_release_def
      split: prod.splits option.splits)

lemma metrics_timer [simp]:
  "m_timer (count_chunk cmd m) = m_timer m" "m_timer (record_chunk_timing t m) = m_timer m"
  by (simp_all add: count_chunk_def add_bytes_def record_chunk_size_eq record_chunk_timing_def)

lemma account_fields [simp]:
  "m_state (account cmd c) = m_state c" "m_device_set (account cmd c) = m_device_set c"
  "m_devices_closed (account cmd c) = m_devices_closed c"
  "m_last_bytes_total (account cmd c) = m_last_bytes_total c"
  "m_last_stall_warn_us (account cmd c) = m_last_stall_warn_us c"
  "m_device_name (account cmd c) = m_device_name c" "m_device_count (account cmd c) = m_device_count c"
  "m_command_timeout_ms (account cmd c) = m_command_timeout_ms c"
  "m_fault_injector (account cmd c) = m_fault_injector c"
  by (simp_all add: account_def)

lemma stall_update_fields [simp]:
  "m_state (fst (stall_update now c)) = m_state c" "m_device_set (fst (stall_update now c)) = m_device_set c"
  "m_devices_closed (fst (stall_update now c)) = m_devices_closed c"
  "m_sink (fst (stall_update now c)) = m_sink c" "m_metrics (fst (stall_update now c)) = m_metrics c"
  "m_buffer_pool (fst (stall_update now c)) = m_buffer_pool c"
  "m_active_buffers (fst (stall_update now c)) = m_active_buffers c"
  "m_max_active_buffers (fst (stall_update now c)) = m_max_active_buffers c"
  "m_device_name (fst (stall_update now c)) = m_device_name c"
  "m_device_count (fst (stall_update now c)) = m_device_count c"
  "m_command_timeout_ms (fst (stall_update now c)) = m_command_timeout_ms c"
  "m_fault_injector (fst (stall_update now c)) = m_fault_injector c"
  by (simp_all add: stall_update_def)

lemma received_client: "received w d s hr c c1 h \<Longrightarrow> \<exists>now. c1 = (cl s)\<lparr>m_last_command_us := now\<rparr>"
  by (auto simp: received_def)

text \<open>The part of the object a step never touches, and the members that only stage 3 changes.\<close>

definition fixed_part :: "'s client \<Rightarrow> devset option \<times> bool \<times> string \<times> i32 \<times> u32" where
  "fixed_part c = (m_device_set c, m_devices_closed c, m_device_name c, m_device_count c, m_command_timeout_ms c)"

lemma served_fields:
  "served vt cmd c h c2 h2 \<Longrightarrow> fixed_part c2 = fixed_part c \<and> m_state c2 = m_state c
     \<and> m_fault_injector c2 = m_fault_injector c"
  by (auto simp: fixed_part_def elim: served.cases)

lemma device_step_fixed: "device_step w vt d s r s' \<Longrightarrow> fixed_part (cl s') = fixed_part (cl s)"
  by (erule device_step.cases) (auto dest!: received_client served_fields simp: fixed_part_def)

text \<open>The session state a step leaves, per control result.\<close>

lemma device_step_state:
  "device_step w vt d s r s' \<Longrightarrow> m_state (cl s) = STREAMING \<Longrightarrow>
   (if r = Next then m_state (cl s') = STREAMING
    else m_state (cl s') \<in> {STREAMING, FLUSHING, FAILED} \<and> (r = Crash \<longrightarrow> m_state (cl s') = STREAMING))"
  by (erule device_step.cases) (auto dest!: received_client served_fields)

end
