(* ===== verification/Session.thy ===== *)
theory Session
  imports Loop_Steps
begin

text \<open>
  The session as its user sees it: the public methods of \<open>VdiClient\<close> called in any order on one
  object, as a step relation with its reachable states; the invariant of those states; and the
  ownership of the two kinds of COM interface pointers the client holds, the device set and the
  devices, read off the history of creations and releases.
  What process_commands does is put together from the steps of the loop. The lemmas that need
  the sink to mind its own business are proved in the locale \<open>sink_contract\<close>.
\<close>

section \<open>Interface pointers in a history\<close>

text \<open>The device sets created and not yet released, newest first.\<close>

fun live_sets :: "history \<Rightarrow> devset list" where
  "live_sets [] = []"
| "live_sets (E_CoCreateInstance hr ds # h) = (if hr_failed hr then live_sets h else ds # live_sets h)"
| "live_sets (E_SetRelease ds # h) = remove1 ds (live_sets h)"
| "live_sets (_ # h) = live_sets h"

text \<open>How often a device was opened less how often it was released.\<close>

fun device_refs :: "history \<Rightarrow> device \<Rightarrow> int" where
  "device_refs [] = (\<lambda>_. 0)"
| "device_refs (E_OpenDevice ds nm hr d # h) =
     (if hr_failed hr then device_refs h else (device_refs h)(d := device_refs h d + 1))"
| "device_refs (E_DeviceRelease d # h) = (device_refs h)(d := device_refs h d - 1)"
| "device_refs (_ # h) = device_refs h"

text \<open>Events that create or release neither.\<close>

fun is_neutral :: "event \<Rightarrow> bool" where
  "is_neutral (E_CoCreateInstance _ _) = False"
| "is_neutral (E_SetRelease _) = False"
| "is_neutral (E_OpenDevice _ _ _ _) = False"
| "is_neutral (E_DeviceRelease _) = False"
| "is_neutral _ = True"

abbreviation neutral :: "history \<Rightarrow> history \<Rightarrow> bool" where
  "neutral \<equiv> extends is_neutral"

lemma neutral_same: "neutral h h' \<Longrightarrow> live_sets h' = live_sets h \<and> device_refs h' = device_refs h"
proof -
  have e: "live_sets (e # h) = live_sets h" "device_refs (e # h) = device_refs h"
    if "is_neutral e" for e h
    using that by (cases e, simp_all)+
  show "neutral h h' \<Longrightarrow> ?thesis"
    using extends_same [of is_neutral h h' live_sets] extends_same [of is_neutral h h' device_refs] e
    by blast
qed

lemma is_quiet_neutral: "is_quiet e \<Longrightarrow> is_neutral e"
  by (cases e) auto

lemma is_sink_neutral: "is_sink_event e \<Longrightarrow> is_neutral e"
  by (cases e) auto

lemma is_report_neutral: "is_report e \<Longrightarrow> is_neutral e"
  by (cases e) auto

lemma quiet_neutral: "quiet h h' \<Longrightarrow> neutral h h'"
  by (erule extends_mono) (rule is_quiet_neutral)

lemma log_neutral: "extends is_log h h' \<Longrightarrow> neutral h h'"
  by (rule quiet_neutral) (rule quiet_log)

lemma report_neutral: "extends is_report h h' \<Longrightarrow> neutral h h'"
  by (erule extends_mono) (rule is_report_neutral)

lemma sink_neutral: "extends is_sink_event h h' \<Longrightarrow> neutral h h'"
  by (erule extends_mono) (rule is_sink_neutral)

lemmas log_same = neutral_same [OF log_neutral]
lemmas quiet_same = neutral_same [OF quiet_neutral]

section \<open>The methods before the loop\<close>

text \<open>The COM guard's constructor and destructor leave the pointers alone.\<close>

lemma wp_new_ComRuntime_neutral:
  "(\<And>com h'. neutral h h' \<Longrightarrow> Q com h') \<Longrightarrow> wp (new_ComRuntime w) Q h"
  unfolding new_ComRuntime_def CoInitializeEx_def LOG_WARN_def LOG_ERROR_def
  by (intro wp_intros) simp_all

lemma wp_ComRuntime_dtor_neutral:
  "(\<And>h'. neutral h h' \<Longrightarrow> Q () h') \<Longrightarrow> wp (ComRuntime_dtor com) Q h"
  unfolding ComRuntime_dtor_def CoUninitialize_def by (intro wp_intros) simp_all

lemma wp_CoCreateInstance:
  "(\<And>hr ds. Q (hr, ds) (E_CoCreateInstance hr ds # h)) \<Longrightarrow> wp (CoCreateInstance w) Q h"
  by (cases "r_CoCreateInstance w h") (simp add: CoCreateInstance_def wp_def)

lemma connect_device_set_spec:
  "wp (connect_device_set w nm n)
    (\<lambda>ok s'. m_devices_closed (cl s') = m_devices_closed (cl s) \<and> m_sink (cl s') = m_sink (cl s) \<and>
       (if ok then m_state (cl s') = CONNECTED \<and>
          (\<exists>ds. m_device_set (cl s') = Some ds \<and> live_sets (hist s') = ds # live_sets (hist s))
        else m_state (cl s') = FAILED \<and> (m_device_set (cl s) = None \<longrightarrow> m_device_set (cl s') = None) \<and>
          live_sets (hist s') = live_sets (hist s))) s"
  unfolding connect_device_set_def CreateEx_def SetRelease_def
  by (intro wp_intros wp_CoCreateInstance) (auto dest!: log_same)

lemma connect_spec:
  assumes "m_state (cl s) = INIT \<Longrightarrow> m_device_set (cl s) = None"
  shows "wp (connect w nm n)
    (\<lambda>ok s'. m_devices_closed (cl s') = m_devices_closed (cl s) \<and> m_sink (cl s') = m_sink (cl s) \<and>
       (if m_state (cl s) \<noteq> INIT then \<not> ok \<and> cl s' = cl s \<and> live_sets (hist s') = live_sets (hist s)
        else if ok then m_state (cl s') = CONNECTED \<and>
          (\<exists>ds. m_device_set (cl s') = Some ds \<and> live_sets (hist s') = ds # live_sets (hist s))
        else m_state (cl s') = FAILED \<and> m_device_set (cl s') = None \<and>
          live_sets (hist s') = live_sets (hist s))) s"
  unfolding connect_def
  by (intro wp_intros wp_new_ComRuntime_neutral wp_ComRuntime_dtor_neutral wp_mono [OF connect_device_set_spec])
     (auto dest!: log_same neutral_same simp: assms split: if_splits)

lemma open_devices_spec:
  "wp (open_devices w)
    (\<lambda>ok s'. live_sets (hist s') = live_sets (hist s) \<and>
       cl s' = (cl s)\<lparr>m_state := (if m_state (cl s) \<noteq> CONNECTED then m_state (cl s)
                          else if ok then STREAMING else FAILED)\<rparr> \<and>
       (ok \<longrightarrow> m_state (cl s) = CONNECTED \<and> m_device_set (cl s) \<noteq> None)) s"
  unfolding open_devices_def GetConfiguration_def log_server_config_def
  by (intro wp_intros) (auto dest!: log_same split: prod.splits)

lemma set_command_timeout_spec:
  "wp (set_command_timeout w t)
    (\<lambda>_ s'. cl s' = (cl s)\<lparr>m_command_timeout_ms := t\<rparr> \<and> quiet (hist s) (hist s')) s"
  unfolding set_command_timeout_def by (intro wp_intros) (auto intro: quiet_log)

section \<open>The pieces of process_commands around the loop\<close>

text \<open>Some OpenDevice of the history failed.\<close>

definition has_failed_open :: "history \<Rightarrow> bool" where
  "has_failed_open h = list_ex (\<lambda>e. case e of E_OpenDevice _ _ hr _ \<Rightarrow> hr_failed hr | _ \<Rightarrow> False) h"

lemma has_failed_open_extends: "extends P h h' \<Longrightarrow> has_failed_open h \<Longrightarrow> has_failed_open h'"
  by (auto simp: extends_def has_failed_open_def)

lemma has_failed_open_now: "hr_failed hr \<Longrightarrow> has_failed_open (E_OpenDevice ds nm hr d # h)"
  by (simp add: has_failed_open_def)

lemma open_all_devices_spec:
  "wp (open_all_devices w ds i n devs)
    (\<lambda>r s'. live_sets (hist s') = live_sets (hist s) \<and> (\<exists>opened.
       device_refs (hist s') = (\<lambda>d. device_refs (hist s) d + int (count_list opened d)) \<and>
       (case r of
          None \<Rightarrow> cl s' = (cl s)\<lparr>m_state := FAILED\<rparr> \<and> has_failed_open (hist s')
        | Some devices \<Rightarrow> cl s' = cl s \<and> devices = devs @ opened \<and> length opened = n))) s"
proof (induction n arbitrary: i devs s)
  case 0
  show ?case by (auto intro!: wp_intros exI [of _ "[]"])
next
  case (Suc n)
  show ?case
    unfolding open_all_devices.simps OpenDevice_def
    apply (intro wp_intros wp_mono [OF Suc])
    subgoal by (auto dest: log_same intro!: exI [of _ "[]"] intro: has_failed_open_extends has_failed_open_now)
    apply (auto dest!: log_same)
    subgoal for hr device h' r s' opened
      by (rule exI [of _ "device # opened"]) (auto split: option.splits)
    done
qed

lemma release_all_spec:
  "wp (release_all ds)
    (\<lambda>_ h'. live_sets h' = live_sets h \<and> device_refs h' = (\<lambda>d. device_refs h d - int (count_list ds d))) h"
proof (induction ds arbitrary: h)
  case (Cons d ds)
  show ?case
    unfolding release_all.simps DeviceRelease_def
    by (intro wp_intros wp_mono [OF Cons]) auto
qed (auto intro: wp_intros)

lemma report_spec:
  "wp (report w) (\<lambda>_ s'. cl s' = cl s \<and> live_sets (hist s') = live_sets (hist s) \<and>
     device_refs (hist s') = device_refs (hist s)) s"
  unfolding report_def
  by (intro wp_intros wp_mono [OF wp_print_summary] wp_mono [OF wp_to_json])
    (auto dest!: log_same report_neutral [THEN neutral_same])

text \<open>What the loop leaves alone.\<close>

definition same_resources :: "'s sys \<Rightarrow> 's sys \<Rightarrow> bool" where
  "same_resources s t \<longleftrightarrow> live_sets (hist t) = live_sets (hist s) \<and>
     device_refs (hist t) = device_refs (hist s) \<and> fixed_part (cl t) = fixed_part (cl s)"

section \<open>close and the destructor\<close>

context sink_contract
begin

text \<open>What a run of a virtual method does to the history.\<close>

lemma flush_neutral: "run_state (vt_flush vt) (sk, h) = (u, sk', h') \<Longrightarrow> neutral h h'"
  by (drule wpD [OF flush_frame]) (simp add: sink_neutral)

lemma dtor_neutral: "run_state (vt_dtor vt) (sk, h) = (u, sk', h') \<Longrightarrow> neutral h h'"
  by (drule wpD [OF dtor_frame]) (simp add: sink_neutral)

lemma write_neutral: "run_state (vt_write vt data n) (sk, h) = (ok, sk', h') \<Longrightarrow> neutral h h'"
  by (drule wpD [OF write_frame]) (simp add: sink_neutral)

lemmas sink_same = flush_neutral [THEN neutral_same] dtor_neutral [THEN neutral_same]
  write_neutral [THEN neutral_same]

lemma close_spec:
  "wp (close w vt)
    (\<lambda>_ s'. if m_devices_closed (cl s) then cl s' = cl s \<and> live_sets (hist s') = live_sets (hist s) \<and>
         device_refs (hist s') = device_refs (hist s)
       else m_state (cl s') = CLOSED \<and> m_devices_closed (cl s') \<and> m_device_set (cl s') = None \<and>
         live_sets (hist s') = (case m_device_set (cl s) of None \<Rightarrow> live_sets (hist s)
           | Some ds \<Rightarrow> remove1 ds (live_sets (hist s))) \<and>
         device_refs (hist s') = device_refs (hist s)) s"
  unfolding close_def flush_before_close_def close_device_set_def SetClose_def SetRelease_def
  by (intro wp_intros) (auto dest!: log_same sink_same intro: quiet_log split: if_splits)

lemma VdiClient_dtor_spec:
  "wp (VdiClient_dtor w vt)
    (\<lambda>_ s'. device_refs (hist s') = device_refs (hist s) \<and>
       live_sets (hist s') =
         (if m_state (cl s) \<in> {CLOSED, INIT} \<or> m_devices_closed (cl s) then live_sets (hist s)
          else case m_device_set (cl s) of None \<Rightarrow> live_sets (hist s)
             | Some ds \<Rightarrow> remove1 ds (live_sets (hist s)))) s"
  unfolding VdiClient_dtor_def
  by (intro wp_intros wp_mono [OF close_spec])
    (auto dest!: log_same sink_same split: if_splits option.splits)

section \<open>process_commands\<close>

lemma received_neutral: "received w d s hr c c1 h \<Longrightarrow> neutral (hist s) h"
  by (auto simp: received_def intro!: extends_trans [OF extends_Cons [OF _ quiet_neutral] quiet_neutral])

lemma completed_neutral: "completed w d cmd h hr h' \<Longrightarrow> neutral h h'"
  by (auto simp: completed_def intro!: extends_trans [OF extends_Cons [OF _ quiet_neutral] quiet_neutral])

lemma served_neutral: "served vt cmd c h c2 h2 \<Longrightarrow> neutral h h2"
  by (erule served.cases)
    (auto intro: quiet_neutral extends_trans [OF extends_trans [OF quiet_neutral write_neutral] quiet_neutral])

lemma device_step_same:
  "device_step w vt d s r s' \<Longrightarrow>
   live_sets (hist s') = live_sets (hist s) \<and> device_refs (hist s') = device_refs (hist s)"
  by (erule device_step.cases)
    (auto dest!: received_neutral [THEN neutral_same] served_neutral [THEN neutral_same] sink_same
      completed_neutral [THEN neutral_same] quiet_same)

lemma device_step_frame: "device_step w vt d s r s' \<Longrightarrow> same_resources s s'"
  by (simp add: same_resources_def device_step_same device_step_fixed)

lemma command_loop_spec:
  assumes "command_loop w vt start ds s = Some (r, s')" "m_state (cl s) = STREAMING"
  shows "r \<noteq> Next \<and> same_resources s s' \<and> m_state (cl s') \<in> {STREAMING, FLUSHING, FAILED} \<and>
    (r = Crash \<longrightarrow> m_state (cl s') = STREAMING)"
  by (rule command_loop_rule [OF assms(1), where I = "\<lambda>t. same_resources s t \<and> m_state (cl t) = STREAMING"])
    (use assms(2) in \<open>auto dest: device_step_frame device_step_state simp: same_resources_def\<close>)

lemma after_loop_spec:
  assumes "m_state (cl s) = FLUSHING \<Longrightarrow> \<not> m_devices_closed (cl s)"
  shows "wp (after_loop w vt devices)
    (\<lambda>_ s'. device_refs (hist s') = (\<lambda>d. device_refs (hist s) d - int (count_list devices d)) \<and>
       (if m_state (cl s) = FLUSHING
        then m_state (cl s') = CLOSED \<and> m_devices_closed (cl s') \<and> m_device_set (cl s') = None \<and>
         live_sets (hist s') = (case m_device_set (cl s) of None \<Rightarrow> live_sets (hist s)
           | Some ds \<Rightarrow> remove1 ds (live_sets (hist s)))
        else cl s' = cl s \<and> live_sets (hist s') = live_sets (hist s))) s"
  unfolding after_loop_def
  by (intro wp_intros wp_mono [OF release_all_spec] wp_mono [OF close_spec] wp_mono [OF report_spec])
    (auto simp: assms split: if_splits option.splits)

end

text \<open>The guards and the opening of the devices.\<close>

lemma process_prologue_spec:
  "wp (process_prologue w)
    (\<lambda>r s'. live_sets (hist s') = live_sets (hist s) \<and>
       (case r of
          None \<Rightarrow> (m_state (cl s) \<noteq> STREAMING \<or> m_device_set (cl s) = None) \<and> cl s' = cl s \<and>
              device_refs (hist s') = device_refs (hist s) \<or>
            m_state (cl s) = STREAMING \<and> cl s' = (cl s)\<lparr>m_state := FAILED\<rparr> \<and> has_failed_open (hist s')
        | Some devices \<Rightarrow> m_state (cl s) = STREAMING \<and> m_device_set (cl s) \<noteq> None \<and> cl s' = cl s \<and>
            length devices = device_total (cl s) \<and>
            device_refs (hist s') = (\<lambda>d. device_refs (hist s) d + int (count_list devices d)))) s"
  unfolding process_prologue_def
  by (intro wp_intros wp_mono [OF open_all_devices_spec])
    (auto dest!: log_same split: option.splits)

lemma start_session_clock_spec:
  "wp (start_session_clock w)
    (\<lambda>start s'. quiet (hist s) (hist s') \<and> cl s' = (cl s)\<lparr>m_last_command_us := start,
       m_last_bytes_total := 0, m_last_stall_warn_us := start\<rparr>) s"
  unfolding start_session_clock_def by (intro wp_intros) simp

text \<open>Every way through process_commands.\<close>

lemma process_commands_cases:
  assumes "process_commands w vt s = Some (out, s')"
  obtains (stopped) "run_state (process_prologue w) s = (None, s')" "out = Returned"
  | (ran) devices s1 start s2 r s3 where
      "run_state (process_prologue w) s = (Some devices, s1)"
      "run_state (start_session_clock w) s1 = (start, s2)"
      "command_loop w vt start devices s2 = Some (r, s3)" "r \<noteq> Next"
      "if r = Crash then out = Crashed \<and> s' = s3
       else out = Returned \<and> s' = snd (run_state (after_loop w vt devices) s3)"
proof -
  obtain x s1 where p: "run_state (process_prologue w) s = (x, s1)" by fastforce
  show thesis
  proof (cases x)
    case None
    with assms p show thesis by (auto simp: process_commands_def intro!: stopped)
  next
    case (Some devices)
    obtain start s2 where c: "run_state (start_session_clock w) s1 = (start, s2)" by fastforce
    with assms p Some obtain r s3 where l: "command_loop w vt start devices s2 = Some (r, s3)"
      by (auto simp: process_commands_def split: option.splits)
    have "r \<noteq> Next" using command_loop_run [OF l] by (auto simp: loop_end_def)
    with assms p c l Some show thesis
      by (cases r) (auto simp: process_commands_def intro!: ran)
  qed
qed

context sink_contract
begin

text \<open>What a call leaves behind, for the session and for the devices.\<close>

lemma process_commands_session:
  assumes "process_commands w vt s = Some (Returned, s')"
    and "m_state (cl s) = STREAMING" "m_device_set (cl s) = Some ds" "\<not> m_devices_closed (cl s)"
  shows "m_state (cl s') = CLOSED \<and> m_devices_closed (cl s') \<and> m_device_set (cl s') = None \<and>
      live_sets (hist s') = remove1 ds (live_sets (hist s)) \<or>
    m_state (cl s') \<in> {STREAMING, FAILED} \<and> \<not> m_devices_closed (cl s') \<and> m_device_set (cl s') = Some ds \<and>
      live_sets (hist s') = live_sets (hist s)"
  using assms(1)
proof (cases rule: process_commands_cases)
  case stopped
  with wpD [OF process_prologue_spec stopped(1)] assms(2-) show ?thesis by auto
next
  case (ran devices s1 start s2 r s3)
  then have out: "s' = snd (run_state (after_loop w vt devices) s3)" by (auto split: if_splits)
  from wpD [OF process_prologue_spec ran(1)] wpD [OF start_session_clock_spec ran(2)]
  have s2: "m_state (cl s2) = STREAMING" "m_device_set (cl s2) = Some ds" "\<not> m_devices_closed (cl s2)"
      "live_sets (hist s2) = live_sets (hist s)"
    using assms(2-) by (auto dest!: quiet_same)
  with command_loop_spec [OF ran(3)]
  have s3: "m_device_set (cl s3) = Some ds" "\<not> m_devices_closed (cl s3)"
      "m_state (cl s3) \<in> {STREAMING, FLUSHING, FAILED}" "live_sets (hist s3) = live_sets (hist s)"
    by (auto simp: same_resources_def fixed_part_def)
  with after_loop_spec [of s3 w devices] show ?thesis
    unfolding out wp_snd by auto
qed

end

section \<open>The public methods in any order\<close>

datatype api_call =
    Connect string i32
  | Open_Devices
  | Process_Commands
  | Close
  | Set_Command_Timeout u32

inductive session_step :: "world \<Rightarrow> 's sink_vtbl \<Rightarrow> 's sys \<Rightarrow> api_call \<Rightarrow> 's sys \<Rightarrow> bool"
  for w vt s where
  call_connect: "session_step w vt s (Connect nm n) (snd (run_state (connect w nm n) s))"
| call_open_devices: "session_step w vt s Open_Devices (snd (run_state (open_devices w) s))"
| call_process_commands: "process_commands w vt s = Some (Returned, s') \<Longrightarrow>
    session_step w vt s Process_Commands s'"
| call_close: "session_step w vt s Close (snd (run_state (close w vt) s))"
| call_set_timeout: "session_step w vt s (Set_Command_Timeout t) (snd (run_state (set_command_timeout w t) s))"

inductive_cases session_step_elims:
  "session_step w vt s (Connect nm n) s'" "session_step w vt s Open_Devices s'"
  "session_step w vt s Process_Commands s'" "session_step w vt s Close s'"
  "session_step w vt s (Set_Command_Timeout t) s'"

inductive session_reachable :: "world \<Rightarrow> 's sink_vtbl \<Rightarrow> 's sys \<Rightarrow> bool" for w vt where
  session_new: "live_sets h = [] \<Longrightarrow> run_state (new_VdiClient w sink logging mode) h = (c, h') \<Longrightarrow>
    session_reachable w vt \<lparr>cl = c, hist = h'\<rparr>"
| session_next: "session_reachable w vt s \<Longrightarrow> session_step w vt s op s' \<Longrightarrow> session_reachable w vt s'"

text \<open>The invariant between two calls.\<close>

definition session_inv :: "'s sys \<Rightarrow> bool" where
  "session_inv s \<longleftrightarrow>
     (m_state (cl s) = CLOSED \<longleftrightarrow> m_devices_closed (cl s)) \<and> m_state (cl s) \<noteq> FLUSHING \<and>
     (m_state (cl s) \<in> {INIT, CLOSED} \<longrightarrow> m_device_set (cl s) = None) \<and>
     (m_state (cl s) \<in> {CONNECTED, STREAMING} \<longrightarrow> m_device_set (cl s) \<noteq> None) \<and>
     live_sets (hist s) = (case m_device_set (cl s) of None \<Rightarrow> [] | Some ds \<Rightarrow> [ds])"

lemma new_VdiClient_spec:
  "wp (new_VdiClient w sink logging mode)
    (\<lambda>c h'. neutral h h' \<and> m_state c = INIT \<and> \<not> m_devices_closed c \<and> m_device_set c = None \<and>
       m_sink c = sink \<and> m_active_buffers c = 0 \<and> m_max_active_buffers c = 0 \<and>
       m_buffer_pool c = BufferPool BUFFER_SIZE BUFFER_POOL_SIZE \<and>
       m_fault_injector c = new_FaultInjector) h"
  unfolding new_VdiClient_def create_timer_def new_ChronoTimer_def new_QPCTimer_def new_Metrics_def
    steady_clock_now_def QueryPerformanceFrequency_def QueryPerformanceCounter_def
  by (cases mode) (auto intro!: wp_intros)

lemma session_inv_new:
  "live_sets h = [] \<Longrightarrow> run_state (new_VdiClient w sink logging mode) h = (c, h') \<Longrightarrow>
   session_inv \<lparr>cl = c, hist = h'\<rparr>"
  by (drule wpD [OF new_VdiClient_spec]) (auto simp: session_inv_def dest!: neutral_same)

context sink_contract
begin

lemma session_step_inv:
  assumes "session_inv s" "session_step w vt s op s'"
  shows "session_inv s'"
  using assms(2)
proof cases
  case (call_connect nm n)
  then show ?thesis
    using connect_spec [of s w nm n] assms(1)
    by (auto simp: wp_def session_inv_def split: prod.splits if_splits)
next
  case call_open_devices
  then show ?thesis
    using open_devices_spec [of w s] assms(1)
    by (auto simp: wp_def session_inv_def split: prod.splits if_splits)
next
  case call_process_commands
  show ?thesis
  proof (cases "m_state (cl s) = STREAMING")
    case True
    then obtain ds where "m_device_set (cl s) = Some ds" "\<not> m_devices_closed (cl s)" "live_sets (hist s) = [ds]"
      using assms(1) by (auto simp: session_inv_def)
    with process_commands_session [OF call_process_commands(2) True] True call_process_commands(1)
    show ?thesis by (auto simp: session_inv_def)
  next
    case False
    with call_process_commands(2) have "cl s' = cl s" "live_sets (hist s') = live_sets (hist s)"
      by (auto elim!: process_commands_cases dest!: wpD [OF process_prologue_spec])
    with False call_process_commands(1) assms(1) show ?thesis by (simp add: session_inv_def)
  qed
next
  case call_close
  then show ?thesis
    using close_spec [of w s] assms(1)
    by (auto simp: wp_def session_inv_def split: prod.splits if_splits option.splits)
next
  case (call_set_timeout t)
  then show ?thesis
    using set_command_timeout_spec [of w t s] assms(1)
    by (auto simp: wp_def session_inv_def dest!: quiet_same split: prod.splits)
qed

lemma session_reachable_inv: "session_reachable w vt s \<Longrightarrow> session_inv s"
  by (induction rule: session_reachable.induct) (auto simp: session_inv_new session_step_inv)

lemma process_commands_devices:
  assumes "process_commands w vt s = Some (Returned, s')" "session_inv s" "\<not> has_failed_open (hist s')"
  shows "device_refs (hist s') = device_refs (hist s)"
  using assms(1)
proof (cases rule: process_commands_cases)
  case stopped
  with wpD [OF process_prologue_spec stopped(1)] assms(3) show ?thesis by auto
next
  case (ran devices s1 start s2 r s3)
  then have out: "s' = snd (run_state (after_loop w vt devices) s3)" by (auto split: if_splits)
  from wpD [OF process_prologue_spec ran(1)] wpD [OF start_session_clock_spec ran(2)]
  have s2: "m_state (cl s2) = STREAMING" "\<not> m_devices_closed (cl s2)"
      "device_refs (hist s2) = (\<lambda>d. device_refs (hist s) d + int (count_list devices d))"
    using assms(2) by (auto dest!: quiet_same simp: session_inv_def)
  with command_loop_spec [OF ran(3)]
  have "\<not> m_devices_closed (cl s3)" "device_refs (hist s3) = device_refs (hist s2)"
    by (auto simp: same_resources_def fixed_part_def)
  with after_loop_spec [of s3 w devices] s2(3) show ?thesis
    unfolding out wp_snd by auto
qed

end

end
