(* ===== verification/Session_Properties.thy ===== *)
theory Session_Properties
  imports Session
begin

text \<open>
  The properties of the session: an invariant over any sequence of public calls, the single
  ownership of the device set, \<open>close\<close> and the destructor, the release of the devices, and the two
  places where the code lets go of COM or of devices at the wrong time.
\<close>

section \<open>A concrete session\<close>

definition demo_new :: "unit sys" where
  "demo_new = (case run_state (new_VdiClient calm_world (Some ()) False Chrono) [] of (c, h) \<Rightarrow> \<lparr>cl = c, hist = h\<rparr>)"

definition demo_connected :: "unit sys" where
  "demo_connected = snd (run_state (connect calm_world ''VDI'' 1) demo_new)"

definition demo_streaming :: "unit sys" where
  "demo_streaming = snd (run_state (open_devices calm_world) demo_connected)"

lemma demo_reachable:
  "session_reachable calm_world null_vtbl demo_new"
  "session_reachable calm_world null_vtbl demo_connected"
  "session_reachable calm_world null_vtbl demo_streaming"
proof -
  obtain c h where "run_state (new_VdiClient calm_world (Some ()) False Chrono) [] = (c, h)" by fastforce
  then show new: "session_reachable calm_world null_vtbl demo_new"
    unfolding demo_new_def by (auto intro: session_new [of "[]"])
  show con: "session_reachable calm_world null_vtbl demo_connected"
    unfolding demo_connected_def by (rule session_next [OF new call_connect])
  show "session_reachable calm_world null_vtbl demo_streaming"
    unfolding demo_streaming_def by (rule session_next [OF con call_open_devices])
qed

lemma demo_new_eq: "demo_new = \<lparr>cl = \<lparr>m_device_set = None, m_sink = Some (),
   m_metrics = empty_metrics, m_buffer_pool = BufferPool BUFFER_SIZE BUFFER_POOL_SIZE,
   m_device_name = [], m_device_count = 0, m_logging_enabled = False, m_state = INIT,
   m_devices_closed = False, m_command_timeout_ms = DEFAULT_COMMAND_TIMEOUT_MS, m_last_command_us = 0,
   m_last_bytes_total = 0, m_last_stall_warn_us = 0, m_active_buffers = 0, m_max_active_buffers = 0,
   m_fault_injector = new_FaultInjector\<rparr>, hist = [E_steady_clock 0, E_steady_clock 0]\<rparr>"
  by (simp add: demo_new_def new_VdiClient_def create_timer_def new_ChronoTimer_def new_Metrics_def
      steady_clock_now_def empty_metrics_def calm_world_def)

lemma demo_connected_eq: "demo_connected = demo_new\<lparr>cl := (cl demo_new)\<lparr>m_device_name := ''VDI'',
    m_device_count := 1, m_device_set := Some 1, m_state := CONNECTED\<rparr>,
  hist := [E_CoUninitialize, E_CreateEx 1 ''VDI'' (client_config 1) S_OK, E_CoCreateInstance S_OK 1,
    E_CoInitializeEx S_OK] @ hist demo_new\<rparr>"
  by (simp add: demo_connected_def demo_new_eq connect_def new_ComRuntime_def ComRuntime_dtor_def
      connect_device_set_def CoInitializeEx_def CoUninitialize_def CoCreateInstance_def CreateEx_def
      calm_world_def do_io_def upd_def set_state_to_def log_defs LOG_LEVEL_INFO_def S_OK_def S_FALSE_def
      hr_failed_def)

lemma demo_streaming_eq: "demo_streaming = demo_connected\<lparr>cl := (cl demo_connected)\<lparr>m_state := STREAMING\<rparr>,
  hist := E_GetConfiguration 1 60000 S_OK vdconfig_zero # hist demo_connected\<rparr>"
  by (simp add: demo_streaming_def demo_connected_eq demo_new_eq open_devices_def GetConfiguration_def
      log_server_config_def calm_world_def do_io_def upd_def set_state_to_def log_defs LOG_LEVEL_INFO_def)

lemmas demo_eqs = demo_streaming_eq demo_connected_eq demo_new_eq

lemma demo_states:
  "m_state (cl demo_new) = INIT" "m_state (cl demo_connected) = CONNECTED"
  "m_state (cl demo_streaming) = STREAMING" "m_device_set (cl demo_streaming) = Some 1"
  "live_sets (hist demo_streaming) = [1]"
  by (simp_all add: demo_eqs)

section \<open>The invariant\<close>

text \<open>
  C11. Between two public calls, whatever was called before and whatever SQL Server, COM and the
  sink answered: the state is CLOSED exactly when the close guard is set and is never FLUSHING; a
  client in INIT or CLOSED holds no device set, a connected or streaming one holds one; and
  the device set it holds is exactly what has been created and not yet released.
\<close>

theorem session_invariant:
  assumes "sink_contract vt" "session_reachable w vt s"
  shows "(m_state (cl s) = CLOSED \<longleftrightarrow> m_devices_closed (cl s)) \<and> m_state (cl s) \<noteq> FLUSHING
    \<and> (m_state (cl s) \<in> {INIT, CLOSED} \<longrightarrow> m_device_set (cl s) = None)
    \<and> (m_state (cl s) \<in> {CONNECTED, STREAMING} \<longrightarrow> m_device_set (cl s) \<noteq> None)
    \<and> live_sets (hist s) = (case m_device_set (cl s) of None \<Rightarrow> [] | Some ds \<Rightarrow> [ds])"
  using sink_contract.session_reachable_inv [OF assms] unfolding session_inv_def .

theorem session_invariant_witness:
  "live_sets (hist demo_streaming) = [1]"
  using session_invariant [OF null.sink_contract_axioms demo_reachable(3)] by (simp add: demo_states(3,4))

text \<open>
  The device set is released exactly once: after the destructor, from whatever state the calls
  so far left the client in, no created device set is unreleased, and none was released that
  was not held.
\<close>

lemma destructor_releases_device_set:
  assumes "sink_contract vt" "session_reachable w vt s"
  shows "live_sets (hist (snd (run_state (VdiClient_dtor w vt) s))) = []"
proof -
  have "session_inv s" by (rule sink_contract.session_reachable_inv [OF assms])
  then show ?thesis
    using sink_contract.VdiClient_dtor_spec [OF assms(1), of w s]
    by (auto simp: wp_def session_inv_def split: prod.splits if_splits option.splits)
qed


section \<open>Devices\<close>

lemma wp_OpenDevice:
  "(\<And>hr d. r_OpenDevice w h nm = (hr, d) \<Longrightarrow> Q (hr, d) (E_OpenDevice ds nm hr d # h)) \<Longrightarrow>
   wp (OpenDevice w ds nm) Q h"
  by (cases "r_OpenDevice w h nm") (simp add: OpenDevice_def wp_def)

lemma extends_Cons_neq: "extends P (e # h) h' \<Longrightarrow> h' \<noteq> h"
  by (auto simp: extends_def)

lemma open_refused:
  assumes "hr_failed (fst (r_OpenDevice w (hist s) (m_device_name (cl s))))"
  shows "wp (open_all_devices w ds i (Suc n) devs)
    (\<lambda>r s'. r = None \<and> m_state (cl s') = FAILED \<and> device_refs (hist s') = device_refs (hist s)) s"
  unfolding open_all_devices.simps
  by (intro wp_intros wp_OpenDevice) (use assms in \<open>auto dest!: log_same\<close>)

lemma process_commands_stopped:
  "run_state (process_prologue w) s = (None, s') \<Longrightarrow> process_commands w vt s = Some (Returned, s')"
  by (simp add: process_commands_def)

text \<open>
  A failing OpenDevice leaks the devices opened before it. With two devices configured and the
  second one refused, process_commands returns in FAILED with the first device open, and neither the
  loop's release code nor the destructor ever releases it.
\<close>

lemma failed_open_leaks_device:
  assumes "sink_contract vt" "m_state (cl s) = STREAMING" "m_device_set (cl s) = Some ds" "m_device_count (cl s) = 2"
    and first: "r_OpenDevice w (hist s) (m_device_name (cl s)) = (S_OK, d)"
    and second: "\<And>h. h \<noteq> hist s \<Longrightarrow> hr_failed (fst (r_OpenDevice w h (m_device_name (cl s))))"
  shows "\<exists>s'. process_commands w vt s = Some (Returned, s') \<and> m_state (cl s') = FAILED \<and>
    device_refs (hist (snd (run_state (VdiClient_dtor w vt) s'))) d = device_refs (hist s) d + 1"
proof -
  have "device_total (cl s) = Suc (Suc 0)" by (simp add: device_total_def assms(4))
  then have pro: "wp (process_prologue w)
      (\<lambda>r s'. r = None \<and> m_state (cl s') = FAILED \<and> device_refs (hist s') d = device_refs (hist s) d + 1) s"
    unfolding process_prologue_def
  proof (intro wp_intros, simp_all add: assms(2,3), intro wp_intros wp_OpenDevice, goal_cases)
    case (2 hr0 d0 hr d' h')
    then have "h' \<noteq> hist s" by (auto dest: extends_Cons_neq)
    then have "wp (open_all_devices w ds (Suc 0) (Suc 0) ([] @ [d']))
        (\<lambda>r s'. r = None \<and> m_state (cl s') = FAILED \<and> device_refs (hist s') = device_refs h') (s\<lparr>hist := h'\<rparr>)"
      using second open_refused [of w "s\<lparr>hist := h'\<rparr>" ds "Suc 0" 0 "[] @ [d']"] by simp
    then show ?case
      using 2 first by (auto simp: wp_def dest!: log_same split: prod.splits)
  qed (use first in auto)
  obtain s' where s': "run_state (process_prologue w) s = (None, s')" "m_state (cl s') = FAILED"
      "device_refs (hist s') d = device_refs (hist s) d + 1"
    using pro by (auto simp: wp_def split: prod.splits)
  moreover have "device_refs (hist (snd (run_state (VdiClient_dtor w vt) s'))) = device_refs (hist s')"
    using sink_contract.VdiClient_dtor_spec [OF assms(1), of w s'] by (simp add: wp_snd)
  ultimately show ?thesis using process_commands_stopped by fastforce
qed

section \<open>COM\<close>

text \<open>
  C24. COM is already shut down when \<open>connect\<close> returns: on a thread that had no COM before (and where
  CoInitializeEx does not claim otherwise by S_FALSE), a successful \<open>connect\<close> leaves the client holding a live device set in a thread without COM, which
  every later call on the device set and its devices then uses.
\<close>

theorem connect_leaves_com_down:
  assumes "run_state (connect w nm n) s = (True, s')"
    and "com_count (hist s) = 0" "r_CoInitializeEx w (hist s) \<noteq> S_FALSE"
  shows "m_device_set (cl s') \<noteq> None \<and> m_state (cl s') = CONNECTED \<and> com_count (hist s') = 0"
proof -
  have com: "com_count h' = com_count h" if "extends is_log h h'" for h h'
    by (rule extends_same [OF that, of com_count]) (erule is_log.elims; simp)
  have set: "wp (connect_device_set w nm n) (\<lambda>ok s'. com_count (hist s') = com_count (hist s) \<and>
      (ok \<longrightarrow> m_device_set (cl s') \<noteq> None \<and> m_state (cl s') = CONNECTED)) s" for s :: "'a sys"
    unfolding connect_device_set_def CreateEx_def SetRelease_def
    by (intro wp_intros wp_CoCreateInstance) (auto dest!: com)
  have new: "wp (new_ComRuntime w) (\<lambda>c h'. m_init_result c = r_CoInitializeEx w h \<and>
      m_already_init c = (m_init_result c = S_FALSE) \<and>
      com_count h' = com_count h + (if m_initialized c then 1 else 0)) h" for h
    by (auto simp: wp_def new_ComRuntime_def CoInitializeEx_def log_defs split: prod.splits)
  have "wp (connect w nm n) (\<lambda>ok s'. ok \<longrightarrow> m_device_set (cl s') \<noteq> None \<and> m_state (cl s') = CONNECTED \<and>
      com_count (hist s') = 0) s"
    unfolding connect_def ComRuntime_dtor_def CoUninitialize_def
    by (intro wp_intros wp_mono [OF new] wp_mono [OF set]) (use assms(2,3) in \<open>auto dest!: com\<close>)
  from wpD [OF this assms(1)] show ?thesis by simp
qed

theorem connect_leaves_com_down_witness:
  "com_count (hist demo_connected) = 0 \<and> live_sets (hist demo_connected) = [1]"
proof -
  have "run_state (connect calm_world ''VDI'' 1) demo_new = (True, demo_connected)"
    by (simp add: demo_connected_def prod_eq_iff)
       (simp add: demo_new_eq connect_def new_ComRuntime_def ComRuntime_dtor_def
      connect_device_set_def CoInitializeEx_def CoUninitialize_def CoCreateInstance_def CreateEx_def
      calm_world_def do_io_def upd_def set_state_to_def log_defs LOG_LEVEL_INFO_def S_OK_def S_FALSE_def
      hr_failed_def)
  from connect_leaves_com_down [OF this] show ?thesis
    by (simp add: demo_eqs calm_world_def S_OK_def S_FALSE_def hr_failed_def)
qed

end
