(* ===== verification/Liveness.thy ===== *)
theory Liveness
  imports Session_Properties
begin

text \<open>
  When the command loop ends. Each turn of the inner loop asks for exactly one command; a turn that
  lets the loop go on got a command it could finish, nothing, or a timeout. So a provider that after
  finitely many answers reports an error other than a timeout ends the session, and one that only
  times out never does: the loop has no timeout of its own.
\<close>

section \<open>Counting the requests\<close>

fun get_count :: "history \<Rightarrow> nat" where
  "get_count [] = 0"
| "get_count (E_GetCommand _ _ _ _ # h) = Suc (get_count h)"
| "get_count (_ # h) = get_count h"

lemma get_count_quiet: "quiet h h' \<Longrightarrow> get_count h' = get_count h"
proof (rule extends_same [of is_quiet])
  show "is_quiet e \<Longrightarrow> get_count (e # h) = get_count h" for e h by (cases e) auto
qed

lemma get_count_sink: "extends is_sink_event h h' \<Longrightarrow> get_count h' = get_count h"
proof (rule extends_same [of is_sink_event])
  show "is_sink_event e \<Longrightarrow> get_count (e # h) = get_count h" for e h by (cases e) auto
qed

lemma received_count: "received w d s hr c c1 h \<Longrightarrow> get_count h = Suc (get_count (hist s))"
  by (auto simp: received_def dest!: get_count_quiet)

lemma completed_count: "completed w d cmd h hr h' \<Longrightarrow> get_count h' = get_count h"
  by (auto simp: completed_def dest!: get_count_quiet)

context sink_contract
begin

lemma flush_count: "run_state (vt_flush vt) (sk, h) = (u, sk', h') \<Longrightarrow> get_count h' = get_count h"
  by (drule wpD [OF flush_frame]) (simp add: get_count_sink)

lemma write_count: "run_state (vt_write vt data n) (sk, h) = (ok, sk', h') \<Longrightarrow> get_count h' = get_count h"
  by (drule wpD [OF write_frame]) (simp add: get_count_sink)

lemma served_count: "served vt cmd c h c2 h2 \<Longrightarrow> get_count h2 = get_count h"
  by (erule served.cases) (auto dest!: get_count_quiet write_count)

lemma device_step_count: "device_step w vt d s r s' \<Longrightarrow> get_count (hist s') = Suc (get_count (hist s))"
  by (erule device_step.cases)
    (auto dest!: received_count get_count_quiet flush_count write_count served_count completed_count)

end

text \<open>A step after which the loop goes on got a success or a timeout from GetCommand.\<close>

lemma device_step_reply:
  "device_step w vt d s r s' \<Longrightarrow> \<exists>hr c c1 h. received w d s hr c c1 h \<and>
     (r = Next \<longrightarrow> hr_succeeded hr \<or> hr = VD_E_TIMEOUT) \<and> (hr = VD_E_TIMEOUT \<longrightarrow> r = Next) \<and>
     (r = Crash \<longrightarrow> m_sink (cl s) = None)"
  by (erule device_step.cases; rule exI, rule exI, rule exI, rule exI, rule conjI, assumption, force)

text \<open>\<open>closes_after n w\<close>: from the \<open>n\<close>-th request on, GetCommand fails with something other than a timeout.\<close>

definition closes_after :: "nat \<Rightarrow> world \<Rightarrow> bool" where
  "closes_after n w \<longleftrightarrow> (\<forall>h d t. n \<le> get_count h \<longrightarrow>
     hr_failed (fst (r_GetCommand w h d t)) \<and> fst (r_GetCommand w h d t) \<noteq> VD_E_TIMEOUT)"

lemma device_step_closes:
  assumes "device_step w vt d s Next s'" "closes_after n w"
  shows "get_count (hist s) < n"
proof (rule ccontr)
  assume n: "\<not> get_count (hist s) < n"
  obtain hr c c1 h where r: "received w d s hr c c1 h" "hr_succeeded hr \<or> hr = VD_E_TIMEOUT"
    using device_step_reply [OF assms(1)] by auto
  then obtain h1 where "quiet (hist s) h1" "r_GetCommand w h1 d (m_command_timeout_ms (cl s)) = (hr, c)"
    by (auto simp: received_def)
  with assms(2) n have "hr_failed hr \<and> hr \<noteq> VD_E_TIMEOUT"
    by (metis closes_after_def fst_conv get_count_quiet not_less)
  with r(2) show False by auto
qed

section \<open>The loop ends\<close>

context sink_contract
begin

lemma device_round_progress:
  assumes "closes_after n w"
  shows "wp (device_round w vt start ds)
    (\<lambda>r s'. get_count (hist s) \<le> get_count (hist s') \<and>
       (r = Next \<longrightarrow> ds \<noteq> [] \<longrightarrow> get_count (hist s) < n \<and> get_count (hist s) < get_count (hist s'))) s"
proof (induction ds arbitrary: s)
  case (Cons d ds)
  show ?case
    unfolding device_round.simps
  proof (rule wp_bind, rule wp_mono [OF process_device_step], intro wp_intros)
    fix r s1 assume step: "device_step w vt d s r s1" "r = Next"
    show "wp (device_round w vt start ds) (\<lambda>r s'. get_count (hist s) \<le> get_count (hist s') \<and>
        (r = Next \<longrightarrow> d # ds \<noteq> [] \<longrightarrow> get_count (hist s) < n \<and> get_count (hist s) < get_count (hist s'))) s1"
      using device_step_count [OF step(1)] device_step_closes [OF _ assms] step
      by (intro wp_mono [OF Cons]) auto
  next
    fix r s1 assume step: "device_step w vt d s r s1" "r \<noteq> Next"
    then show "get_count (hist s) \<le> get_count (hist s1) \<and>
        (r = Next \<longrightarrow> d # ds \<noteq> [] \<longrightarrow> get_count (hist s) < n \<and> get_count (hist s) < get_count (hist s1))"
      using device_step_count [OF step(1)] by simp
  qed
qed (auto intro: wp_intros)

lemma command_loop_ends:
  assumes "closes_after n w" "ds \<noteq> []"
  shows "\<exists>x. command_loop w vt start ds s = Some x"
proof (induction "n - get_count (hist s)" arbitrary: s rule: less_induct)
  case less
  obtain r s1 where rs: "run_state (device_round w vt start ds) s = (r, s1)" by fastforce
  have eq: "command_loop w vt start ds s = (if r = Next then command_loop w vt start ds s1 else Some (r, s1))"
    by (subst command_loop.simps) (simp add: rs)
  show ?case
  proof (cases "r = Next")
    case True
    then have "n - get_count (hist s1) < n - get_count (hist s)"
      using wpD [OF device_round_progress [OF assms(1)] rs] assms(2) by auto
    from less [OF this] show ?thesis by (simp add: eq True)
  qed (simp add: eq)
qed

lemma process_commands_ends:
  assumes "closes_after n w"
  shows "\<exists>out s'. process_commands w vt s = Some (out, s')"
proof -
  obtain x s1 where p: "run_state (process_prologue w) s = (x, s1)" by fastforce
  show ?thesis
  proof (cases x)
    case None
    then show ?thesis by (simp add: process_commands_def p)
  next
    case (Some devices)
    then have "length devices = device_total (cl s)" using wpD [OF process_prologue_spec p] by auto
    then have "devices \<noteq> []" by (auto simp: device_total_def split: if_splits)
    obtain start s2 where c: "run_state (start_session_clock w) s1 = (start, s2)" by fastforce
    obtain r s3 where "command_loop w vt start devices s2 = Some (r, s3)"
      using command_loop_ends [OF assms \<open>devices \<noteq> []\<close>] by (metis surj_pair)
    then show ?thesis by (cases r) (auto simp: process_commands_def p c Some)
  qed
qed

end

text \<open>The null sink is the only way to crash.\<close>

lemma device_step_keeps_sink: "device_step w vt d s r s' \<Longrightarrow> (m_sink (cl s') = None) = (m_sink (cl s) = None)"
  by (erule device_step.cases) (auto dest!: received_client elim!: served.cases)

lemma command_loop_no_crash:
  assumes "command_loop w vt start ds s = Some (r, s')" "m_sink (cl s) \<noteq> None"
  shows "r \<noteq> Crash"
  using command_loop_rule [OF assms(1), where I = "\<lambda>t. m_sink (cl t) \<noteq> None" and F = "\<lambda>r t. r \<noteq> Crash"]
    device_step_keeps_sink device_step_reply assms(2) by (metis (no_types, lifting))

lemma prologue_keeps_sink:
  "run_state (process_prologue w) s = (x, s') \<Longrightarrow> m_sink (cl s') = m_sink (cl s)"
  by (drule wpD [OF process_prologue_spec]) (auto split: option.splits)

lemma session_clock_keeps_sink:
  "run_state (start_session_clock w) s = (x, s') \<Longrightarrow> m_sink (cl s') = m_sink (cl s)"
  by (drule wpD [OF start_session_clock_spec]) simp

lemma process_commands_no_crash:
  assumes "process_commands w vt s = Some (out, s')" "m_sink (cl s) \<noteq> None"
  shows "out = Returned"
  using assms(1)
proof (cases rule: process_commands_cases)
  case (ran devices s1 start s2 r s3)
  have "m_sink (cl s2) \<noteq> None"
    using prologue_keeps_sink [OF ran(1)] session_clock_keeps_sink [OF ran(2)] assms(2) by simp
  from command_loop_no_crash [OF ran(3) this] ran(5) show ?thesis by simp
qed

lemma process_commands_returns:
  assumes "sink_contract vt" "closes_after n w" "m_sink (cl s) \<noteq> None"
  shows "\<exists>s'. process_commands w vt s = Some (Returned, s')"
  using sink_contract.process_commands_ends [OF assms(1,2)] process_commands_no_crash assms(3) by blast

section \<open>Properties\<close>

text \<open>
  C13. The session ends: if from some request on GetCommand reports an error other than a timeout
  (SQL Server has closed, aborted or run out of data), then process_commands returns, from any state
  of the client, whatever was sent before, however many timeouts there were and whatever the sink
  and the clocks answered; it does not crash, because the client has a sink.
\<close>

theorem process_commands_terminates:
  assumes "sink_contract vt" "closes_after n w" "m_sink (cl s) \<noteq> None"
  shows "\<exists>s'. process_commands w vt s = Some (Returned, s')"
  using assms by (rule process_commands_returns)

lemma calm_closes: "closes_after 0 calm_world"
  by (simp add: closes_after_def calm_world_def)

theorem process_commands_terminates_witness:
  "\<exists>s'. process_commands calm_world null_vtbl demo_streaming = Some (Returned, s')"
  by (rule process_commands_terminates [OF null.sink_contract_axioms calm_closes]) (simp add: demo_eqs)

text \<open>
  C21. A provider that only times out keeps the client for ever: once the devices are open, a
  GetCommand that answers VD_E_TIMEOUT every time makes process_commands never return. The stall
  detection warns, but nothing counts the timeouts or gives up.
\<close>

theorem timeouts_never_end:
  assumes "\<And>h d t. fst (r_GetCommand w h d t) = VD_E_TIMEOUT"
    and "fst (run_state (process_prologue w) s) \<noteq> None"
  shows "process_commands w vt s = None"
proof (rule ccontr)
  assume "process_commands w vt s \<noteq> None"
  then obtain out s' where "process_commands w vt s = Some (out, s')" by fastforce
  then show False
  proof (cases rule: process_commands_cases)
    case stopped
    with assms(2) show False by simp
  next
    case (ran devices s1 start s2 r s3)
    then obtain t d where step: "device_step w vt d t r s3" "r \<noteq> Next"
      using command_loop_run [OF ran(3)] by (auto simp: loop_end_def)
    then obtain hr c c1 h where "received w d t hr c c1 h" "hr \<noteq> VD_E_TIMEOUT"
      using device_step_reply by blast
    then show False using assms(1) by (auto simp: received_def) (metis fst_conv)
  qed
qed

definition timeout_world :: world where
  "timeout_world = calm_world\<lparr>r_GetCommand := (\<lambda>_ _ _. (VD_E_TIMEOUT, None))\<rparr>"

theorem timeouts_never_end_witness: "process_commands timeout_world null_vtbl demo_streaming = None"
proof (rule timeouts_never_end)
  show "fst (run_state (process_prologue timeout_world) demo_streaming) \<noteq> None"
    by (simp add: process_prologue_def demo_eqs device_total_def numeral_eq_Suc OpenDevice_def timeout_world_def
        calm_world_def do_io_def log_defs LOG_LEVEL_INFO_def)
qed (simp add: timeout_world_def)

text \<open>
  C23. The write stage is the one place that uses the sink pointer without testing it: a client built
  without a sink crashes when the first command it gets, with a provider that always answers with it, is an
  acceptable write.
\<close>

theorem null_sink_crashes:
  assumes "m_sink (cl s) = None" "fst (run_state (process_prologue w) s) \<noteq> None"
    and "\<And>h d t. r_GetCommand w h d t = (S_OK, Some cmd)"
    and "commandCode cmd = VDC_Write" "write_acceptable cmd"
  shows "\<exists>s'. process_commands w vt s = Some (Crashed, s')"
proof -
  obtain devices s1 where p: "run_state (process_prologue w) s = (Some devices, s1)"
    using assms(2) by (metis fst_conv not_None_eq surj_pair)
  then have "length devices = device_total (cl s)" using wpD [OF process_prologue_spec p] by auto
  then obtain d ds where ds: "devices = d # ds" by (cases devices) (auto simp: device_total_def split: if_splits)
  obtain start s2 where c: "run_state (start_session_clock w) s1 = (start, s2)" by fastforce
  have sink: "m_sink (cl s2) = None"
    using prologue_keeps_sink [OF p] session_clock_keeps_sink [OF c] assms(1) by simp
  obtain r s3 where rs: "run_state (process_device w vt start d) s2 = (r, s3)" by fastforce
  have "device_step w vt d s2 r s3" by (rule wpD [OF process_device_step rs])
  then have "r = Crash"
    by cases (use assms sink in \<open>auto simp: received_def VDC_defs VD_E_defs S_OK_def hr_failed_def elim!: served.cases\<close>)
  then show ?thesis
    by (simp add: process_commands_def p c ds rs command_loop.simps [of w vt start "d # ds" s2])
qed

definition demo_write :: vdc_command where
  "demo_write = \<lparr>commandCode = VDC_Write, cmd_size = 4, position = 0, buffer = Some (\<lambda>i. 7)\<rparr>"

definition writing_world :: world where
  "writing_world = calm_world\<lparr>r_GetCommand := (\<lambda>_ _ _. (S_OK, Some demo_write))\<rparr>"

theorem null_sink_crashes_witness:
  "\<exists>s'. process_commands writing_world null_vtbl
     (demo_streaming\<lparr>cl := (cl demo_streaming)\<lparr>m_sink := None\<rparr>\<rparr>) = Some (Crashed, s')"
proof (rule null_sink_crashes [where cmd = demo_write])
  show "fst (run_state (process_prologue writing_world)
      (demo_streaming\<lparr>cl := (cl demo_streaming)\<lparr>m_sink := None\<rparr>\<rparr>)) \<noteq> None"
    by (simp add: process_prologue_def demo_eqs device_total_def numeral_eq_Suc OpenDevice_def writing_world_def
        calm_world_def do_io_def log_defs LOG_LEVEL_INFO_def)
qed (simp_all add: writing_world_def demo_write_def write_acceptable_def)

text \<open>
  Unless an OpenDevice failed, a call of process_commands that returns has released every device
  it opened, once each, on every way out of the loop: shut down by SQL Server, closed by a
  command, failed in the sink, failed in the protocol or stopped by the fault injector.
\<close>

lemma process_commands_releases_devices:
  assumes "sink_contract vt" "session_reachable w vt s" "process_commands w vt s = Some (Returned, s')"
  shows "device_refs (hist s') = device_refs (hist s) \<or> has_failed_open (hist s')"
  using sink_contract.process_commands_devices [OF assms(1,3)]
    sink_contract.session_reachable_inv [OF assms(1,2)] by blast

end
