(* ===== verification/Protocol_Order.thy ===== *)
theory Protocol_Order
  imports Liveness
begin

text \<open>
  The order of the protocol, as an automaton that reads the history: at most one command is in the
  client's hands at a time, it is completed at most once, with success, its own size and its own
  position, before the next GetCommand. The automaton is the specification; every step of the loop
  is shown to keep it, and the ways out are told apart by whether the last command was completed.
\<close>

section \<open>The automaton\<close>

datatype proto = Idle | Holding device vdc_command | Violated

text \<open>One event of the protocol; everything else leaves the state alone.\<close>

fun proto_next :: "event \<Rightarrow> proto \<Rightarrow> proto" where
  "proto_next (E_GetCommand d t hr c) p =
     (case p of
        Idle \<Rightarrow> (if hr_failed hr then Idle else case c of None \<Rightarrow> Idle | Some cmd \<Rightarrow> Holding d cmd)
      | _ \<Rightarrow> Violated)"
| "proto_next (E_CompleteCommand d cmd code n pos hr) p =
     (if p = Holding d cmd \<and> code = ERROR_SUCCESS \<and> n = cmd_size cmd \<and> pos = position cmd
      then Idle else Violated)"
| "proto_next _ p = p"

fun proto_state :: "history \<Rightarrow> proto" where
  "proto_state [] = Idle"
| "proto_state (e # h) = proto_next e (proto_state h)"

lemma proto_quiet: "quiet h h' \<Longrightarrow> proto_state h' = proto_state h"
proof (rule extends_same [of is_quiet])
  show "is_quiet e \<Longrightarrow> proto_state (e # h) = proto_state h" for e h by (cases e) auto
qed

lemma proto_sink: "extends is_sink_event h h' \<Longrightarrow> proto_state h' = proto_state h"
proof (rule extends_same [of is_sink_event])
  show "is_sink_event e \<Longrightarrow> proto_state (e # h) = proto_state h" for e h by (cases e) auto
qed

lemma received_proto:
  "received w d s hr c c1 h \<Longrightarrow> proto_state (hist s) = Idle \<Longrightarrow>
   proto_state h = (if hr_failed hr then Idle else case c of None \<Rightarrow> Idle | Some cmd \<Rightarrow> Holding d cmd)
   \<and> (\<exists>now. c1 = (cl s)\<lparr>m_last_command_us := now\<rparr>)"
  by (auto simp: received_def dest!: proto_quiet split: option.splits)

lemma completed_proto: "completed w d cmd h hr h' \<Longrightarrow> proto_state h = Holding d cmd \<Longrightarrow> proto_state h' = Idle"
  by (auto simp: completed_def dest!: proto_quiet)

context sink_contract
begin

lemma flush_proto: "run_state (vt_flush vt) (sk, h) = (u, sk', h') \<Longrightarrow> proto_state h' = proto_state h"
  by (drule wpD [OF flush_frame]) (simp add: proto_sink)

lemma write_proto: "run_state (vt_write vt data n) (sk, h) = (ok, sk', h') \<Longrightarrow> proto_state h' = proto_state h"
  by (drule wpD [OF write_frame]) (simp add: proto_sink)

lemma served_proto: "served vt cmd c h c2 h2 \<Longrightarrow> proto_state h2 = proto_state h"
  by (erule served.cases) (auto dest!: proto_quiet write_proto)

text \<open>
  After a step the client holds no command, except that it stops with a command in its hands when it
  is asked to close, refuses a write or fails to write it, or crashes.
\<close>

lemma device_step_proto:
  "device_step w vt d s r s' \<Longrightarrow> proto_state (hist s) = Idle \<Longrightarrow> m_state (cl s) = STREAMING \<Longrightarrow>
   proto_state (hist s') = Idle \<or>
   (\<exists>cmd. proto_state (hist s') = Holding d cmd \<and>
     (commandCode cmd = VDC_Close \<and> r = Stop \<and> m_state (cl s') = STREAMING \<or>
      commandCode cmd = VDC_Write \<and> (r = Stop \<and> m_state (cl s') = FAILED \<or> r = Crash)))"
  by (erule device_step.cases)
    (auto dest!: received_proto flush_proto write_proto proto_quiet served_proto completed_proto)

lemma device_step_proto_next:
  "device_step w vt d s Next s' \<Longrightarrow> proto_state (hist s) = Idle \<Longrightarrow> m_state (cl s) = STREAMING \<Longrightarrow>
   proto_state (hist s') = Idle"
  using device_step_proto by fastforce

lemma command_loop_proto:
  assumes "command_loop w vt start ds s = Some (r, s')" "m_state (cl s) = STREAMING" "proto_state (hist s) = Idle"
  shows "proto_state (hist s') = Idle \<or>
   (\<exists>d cmd. proto_state (hist s') = Holding d cmd \<and>
     (commandCode cmd = VDC_Close \<and> r = Stop \<and> m_state (cl s') = STREAMING \<or>
      commandCode cmd = VDC_Write \<and> (r = Stop \<and> m_state (cl s') = FAILED \<or> r = Crash)))"
proof -
  have "r \<noteq> Next \<and> (proto_state (hist s') = Idle \<or>
   (\<exists>d cmd. proto_state (hist s') = Holding d cmd \<and>
     (commandCode cmd = VDC_Close \<and> r = Stop \<and> m_state (cl s') = STREAMING \<or>
      commandCode cmd = VDC_Write \<and> (r = Stop \<and> m_state (cl s') = FAILED \<or> r = Crash))))"
  proof (rule command_loop_rule [OF assms(1), where
        I = "\<lambda>t. m_state (cl t) = STREAMING \<and> proto_state (hist t) = Idle"])
    show "m_state (cl s) = STREAMING \<and> proto_state (hist s) = Idle" using assms(2,3) by simp
    fix d s1 r s2
    assume I: "m_state (cl s1) = STREAMING \<and> proto_state (hist s1) = Idle" and step: "device_step w vt d s1 r s2"
    show "if r = Next then m_state (cl s2) = STREAMING \<and> proto_state (hist s2) = Idle
      else proto_state (hist s2) = Idle \<or> (\<exists>d cmd. proto_state (hist s2) = Holding d cmd \<and>
        (commandCode cmd = VDC_Close \<and> r = Stop \<and> m_state (cl s2) = STREAMING \<or>
         commandCode cmd = VDC_Write \<and> (r = Stop \<and> m_state (cl s2) = FAILED \<or> r = Crash)))"
      using device_step_proto [OF step] device_step_state [OF step] I by auto
  qed
  then show ?thesis by blast
qed

end

section \<open>Around the loop\<close>

text \<open>Everything outside the loop: no GetCommand and no CompleteCommand.\<close>

fun is_outer :: "event \<Rightarrow> bool" where
  "is_outer (E_GetCommand _ _ _ _) = False"
| "is_outer (E_CompleteCommand _ _ _ _ _ _) = False"
| "is_outer _ = True"

abbreviation outer :: "history \<Rightarrow> history \<Rightarrow> bool" where
  "outer \<equiv> extends is_outer"

lemma is_outer_of:
  "is_quiet e \<Longrightarrow> is_outer e" "is_sink_event e \<Longrightarrow> is_outer e" "is_report e \<Longrightarrow> is_outer e"
  "is_log e \<Longrightarrow> is_outer e"
  by (cases e; simp)+

lemma outer_of [intro]:
  "quiet h h' \<Longrightarrow> outer h h'" "extends is_sink_event h h' \<Longrightarrow> outer h h'"
  "extends is_report h h' \<Longrightarrow> outer h h'" "extends is_log h h' \<Longrightarrow> outer h h'"
  by (erule extends_mono, erule is_outer_of)+

lemma proto_outer: "outer h h' \<Longrightarrow> proto_state h' = proto_state h"
proof (rule extends_same [of is_outer])
  show "is_outer e \<Longrightarrow> proto_state (e # h) = proto_state h" for e h by (cases e) auto
qed

lemma outer_trans: "outer h h' \<Longrightarrow> outer h0 h \<Longrightarrow> outer h0 h'"
  by (rule extends_trans)

text \<open>Elimination rules that follow a history back over any of the stretches.\<close>

lemmas outer_back = outer_trans outer_of [THEN outer_trans]

lemma open_all_devices_outer:
  "wp (open_all_devices w ds i n devs) (\<lambda>_ s'. outer (hist s) (hist s')) s"
proof (induction n arbitrary: i devs s)
  case (Suc n)
  show ?case
    unfolding open_all_devices.simps OpenDevice_def
    by (intro wp_intros wp_mono [OF Suc]; simp?) (erule outer_back | rule extends_Cons | simp)+
qed (auto intro: wp_intros)

lemma process_prologue_outer: "wp (process_prologue w) (\<lambda>_ s'. outer (hist s) (hist s')) s"
  unfolding process_prologue_def
  by (intro wp_intros wp_mono [OF open_all_devices_outer]) auto

lemma release_all_outer: "wp (release_all ds) (\<lambda>_ h'. outer h h') h"
proof (induction ds arbitrary: h)
  case (Cons d ds)
  show ?case
    unfolding release_all.simps DeviceRelease_def
    by (intro wp_intros wp_mono [OF Cons]) (erule outer_back | rule extends_Cons | simp)+
qed (auto intro: wp_intros)

lemma report_outer: "wp (report w) (\<lambda>_ s'. outer (hist s) (hist s')) s"
  unfolding report_def
  by (intro wp_intros wp_mono [OF wp_print_summary] wp_mono [OF wp_to_json]; simp)
    (erule outer_back | rule extends_Cons | simp)+

context sink_contract
begin

lemma flush_outer: "run_state (vt_flush vt) (sk, h) = (u, sk', h') \<Longrightarrow> outer h h'"
  by (drule wpD [OF flush_frame]) auto

lemma close_outer: "wp (close w vt) (\<lambda>_ s'. outer (hist s) (hist s')) s"
  unfolding close_def flush_before_close_def close_device_set_def SetClose_def SetRelease_def
  by (intro wp_intros; simp) (drule flush_outer | erule outer_back | rule extends_Cons | simp)+

lemma VdiClient_dtor_outer: "wp (VdiClient_dtor w vt) (\<lambda>_ s'. outer (hist s) (hist s')) s"
proof -
  have dtor: "run_state (vt_dtor vt) (sk, h) = (u, sk', h') \<Longrightarrow> outer h h'" for sk h u sk' h'
    by (drule wpD [OF dtor_frame]) auto
  show ?thesis
    unfolding VdiClient_dtor_def
    by (intro wp_intros wp_mono [OF close_outer]; simp) (drule dtor | erule outer_back | rule extends_Cons | simp)+
qed

lemma after_loop_outer: "wp (after_loop w vt devices) (\<lambda>_ s'. outer (hist s) (hist s')) s"
  unfolding after_loop_def
  by (intro wp_intros wp_mono [OF release_all_outer] wp_mono [OF close_outer] wp_mono [OF report_outer]; simp)
    (erule outer_back | rule extends_Cons | simp)+

end

section \<open>The property\<close>

lemma clock_outer: "run_state (start_session_clock w) s = (x, s') \<Longrightarrow> outer (hist s) (hist s')"
  by (drule wpD [OF start_session_clock_spec]) auto

text \<open>
  C2. The commands of a session are handled one at a time and in order: when process_commands
  returns (or crashes), every command that was received has been completed exactly once, with
  success, its size and its position, before the next one was asked for, except possibly the last: a
  VDC_Close command is never completed, and a write that was refused or failed is left to the
  provider, in FAILED. In particular a session that closed gracefully owes nothing.
\<close>

theorem commands_completed_in_order:
  assumes "sink_contract vt" "proto_state (hist s) = Idle" "process_commands w vt s = Some (out, s')"
  shows "proto_state (hist s') = Idle \<or>
    (\<exists>d cmd. proto_state (hist s') = Holding d cmd \<and>
      (commandCode cmd = VDC_Close \<and> m_state (cl s') = STREAMING \<or>
       commandCode cmd = VDC_Write \<and> (m_state (cl s') = FAILED \<or> out = Crashed)))"
  using assms(3)
proof (cases rule: process_commands_cases)
  case stopped
  with wpD [OF process_prologue_outer stopped(1)] assms(2) show ?thesis by (simp add: proto_outer)
next
  case (ran devices s1 start s2 r s3)
  from wpD [OF process_prologue_outer ran(1)] clock_outer [OF ran(2)]
  have "proto_state (hist s2) = Idle" using assms(2) by (simp add: proto_outer)
  moreover have "m_state (cl s2) = STREAMING"
    using wpD [OF process_prologue_spec ran(1)] wpD [OF start_session_clock_spec ran(2)] by simp
  ultimately have loop: "proto_state (hist s3) = Idle \<or>
   (\<exists>d cmd. proto_state (hist s3) = Holding d cmd \<and>
     (commandCode cmd = VDC_Close \<and> r = Stop \<and> m_state (cl s3) = STREAMING \<or>
      commandCode cmd = VDC_Write \<and> (r = Stop \<and> m_state (cl s3) = FAILED \<or> r = Crash)))"
    using sink_contract.command_loop_proto [OF assms(1) ran(3)] by blast
  show ?thesis
  proof (cases "r = Crash")
    case False
    then have s': "s' = snd (run_state (after_loop w vt devices) s3)" using ran(5) by simp
    have "outer (hist s3) (hist s')"
      using sink_contract.after_loop_outer [OF assms(1)] unfolding s' wp_snd .
    moreover have "m_state (cl s3) \<noteq> FLUSHING \<Longrightarrow> cl s' = cl s3"
      using sink_contract.after_loop_spec [OF assms(1), of s3 w devices] unfolding s' wp_snd by simp
    ultimately show ?thesis using loop False by (auto simp: proto_outer)
  qed (use loop ran(5) in auto)
qed

theorem commands_completed_in_order_witness:
  "\<exists>s'. process_commands calm_world null_vtbl demo_streaming = Some (Returned, s') \<and>
     (\<forall>d cmd. proto_state (hist s') = Holding d cmd \<longrightarrow> commandCode cmd \<in> {VDC_Close, VDC_Write})"
proof -
  obtain s' where s': "process_commands calm_world null_vtbl demo_streaming = Some (Returned, s')"
    using process_commands_returns [OF null.sink_contract_axioms calm_closes, of demo_streaming]
    by (auto simp: demo_eqs)
  have "proto_state (hist demo_streaming) = Idle" by (simp add: demo_eqs)
  from commands_completed_in_order [OF null.sink_contract_axioms this s'] s' show ?thesis by auto
qed

end
