(* ===== verification/Sink_Flow.thy ===== *)
theory Sink_Flow
  imports Protocol_Order
begin

text \<open>
  What carries a fact about the sink and its file through a session. \<open>nonsink\<close> and \<open>aside\<close> are the
  stretches of a history that leave the file, and the file and the commands, alone. The locale
  \<open>sink_invariant\<close> takes a predicate on the sink object and the history that such stretches, a flush
  and every step of the loop keep, and shows that the methods of the client keep it; each of the
  properties of the data (nothing lost, nothing garbled, the disk well) is one instance.
\<close>

section \<open>Stretches without a sink event\<close>

abbreviation nonsink :: "history \<Rightarrow> history \<Rightarrow> bool" where
  "nonsink \<equiv> extends (\<lambda>e. \<not> is_sink_event e)"

lemma nonsink_of:
  "quiet h h' \<Longrightarrow> nonsink h h'" "extends is_log h h' \<Longrightarrow> nonsink h h'" "extends is_report h h' \<Longrightarrow> nonsink h h'"
proof -
  have "is_quiet e \<Longrightarrow> \<not> is_sink_event e" "is_log e \<Longrightarrow> \<not> is_sink_event e" "is_report e \<Longrightarrow> \<not> is_sink_event e" for e
    by (cases e; simp)+
  then show "quiet h h' \<Longrightarrow> nonsink h h'" "extends is_log h h' \<Longrightarrow> nonsink h h'"
    "extends is_report h h' \<Longrightarrow> nonsink h h'"
    by (auto elim: extends_mono)
qed

lemma nonsink_trans: "nonsink h h' \<Longrightarrow> nonsink h0 h \<Longrightarrow> nonsink h0 h'"
  by (rule extends_trans)

lemmas nonsink_back = nonsink_trans nonsink_of [THEN nonsink_trans]

lemma received_nonsink: "received w d s hr c c1 h \<Longrightarrow> nonsink (hist s) h"
  unfolding received_def by (elim exE conjE) (erule nonsink_back | rule extends_Cons | simp)+

lemma completed_nonsink: "completed w d cmd h hr h' \<Longrightarrow> nonsink h h'"
  unfolding completed_def by (elim exE conjE) (erule nonsink_back | rule extends_Cons | simp)+

lemma release_all_nonsink: "wp (release_all ds) (\<lambda>_ h'. nonsink h h') h"
proof (induction ds arbitrary: h)
  case (Cons d ds)
  show ?case
    unfolding release_all.simps DeviceRelease_def
    by (intro wp_intros wp_mono [OF Cons]) (erule nonsink_back | rule extends_Cons | simp)+
qed (auto intro: wp_intros)

lemma open_all_devices_nonsink:
  "wp (open_all_devices w ds i n devs) (\<lambda>_ s'. nonsink (hist s) (hist s')) s"
proof (induction n arbitrary: i devs s)
  case (Suc n)
  show ?case
    unfolding open_all_devices.simps OpenDevice_def
    by (intro wp_intros wp_mono [OF Suc]; simp?) (erule nonsink_back | rule extends_Cons | simp)+
qed (auto intro: wp_intros)

lemma process_prologue_nonsink: "wp (process_prologue w) (\<lambda>_ s'. nonsink (hist s) (hist s')) s"
  unfolding process_prologue_def
  by (intro wp_intros wp_mono [OF open_all_devices_nonsink]) (auto intro: nonsink_of)

lemma report_nonsink: "wp (report w) (\<lambda>_ s'. nonsink (hist s) (hist s')) s"
  unfolding report_def
  by (intro wp_intros wp_mono [OF wp_print_summary] wp_mono [OF wp_to_json]; simp)
    (erule nonsink_back | rule extends_Cons | simp)+

text \<open>Events that are neither a command's nor the sink's.\<close>

fun is_aside :: "event \<Rightarrow> bool" where
  "is_aside e \<longleftrightarrow> is_outer e \<and> \<not> is_sink_event e"

abbreviation aside :: "history \<Rightarrow> history \<Rightarrow> bool" where
  "aside \<equiv> extends is_aside"

lemma aside_of:
  "extends is_log h h' \<Longrightarrow> aside h h'" "quiet h h' \<Longrightarrow> aside h h'"
proof -
  have "is_log e \<Longrightarrow> is_aside e" "is_quiet e \<Longrightarrow> is_aside e" for e by (cases e; simp)+
  then show "extends is_log h h' \<Longrightarrow> aside h h'" "quiet h h' \<Longrightarrow> aside h h'" by (auto elim: extends_mono)
qed

lemma aside_back:
  "extends is_log h h' \<Longrightarrow> aside h0 h \<Longrightarrow> aside h0 h'" "quiet h h' \<Longrightarrow> aside h0 h \<Longrightarrow> aside h0 h'"
  "aside h h' \<Longrightarrow> aside h0 h \<Longrightarrow> aside h0 h'"
  by (blast intro: aside_of extends_trans)+

lemma aside_split: "aside h h' \<Longrightarrow> outer h h' \<and> nonsink h h'"
  by (auto elim: extends_mono)

lemma aside_head: "aside (E_cout t # h) h' \<Longrightarrow> aside h h'"
  by (rule extends_trans [of _ h "E_cout t # h"]) simp_all

lemma extends_conj:
  assumes "extends P h h'" "extends Q h h'"
  shows "extends (\<lambda>e. P e \<and> Q e) h h'"
  using assms by (auto simp: extends_def list_all_iff)

lemma aside_iff: "aside h h' \<longleftrightarrow> outer h h' \<and> nonsink h h'"
proof
  show "outer h h' \<and> nonsink h h' \<Longrightarrow> aside h h'"
    by (elim conjE, drule (1) extends_conj) (erule extends_mono, simp)
qed (rule aside_split)

lemma process_prologue_aside: "wp (process_prologue w) (\<lambda>_ s'. aside (hist s) (hist s')) s"
  unfolding aside_iff by (rule wp_conj [OF process_prologue_outer process_prologue_nonsink])

lemma release_all_aside: "wp (release_all ds) (\<lambda>_ h'. aside h h') h"
  unfolding aside_iff by (rule wp_conj [OF release_all_outer release_all_nonsink])

lemma report_aside: "wp (report w) (\<lambda>_ s'. cl s' = cl s \<and> aside (hist s) (hist s')) s"
  unfolding aside_iff by (rule wp_mono [OF wp_conj [OF report_spec wp_conj [OF report_outer report_nonsink]]]) simp

section \<open>Facts about the sink and its file\<close>

locale sink_invariant = sink_contract vt for vt :: "'s sink_vtbl" +
  fixes K :: "'s option \<Rightarrow> history \<Rightarrow> bool"
  assumes K_aside: "K m h \<Longrightarrow> aside h h' \<Longrightarrow> K m h'"
    and K_flush: "K (Some sk) h \<Longrightarrow> run_state (vt_flush vt) (sk, h) = (u, sk', h') \<Longrightarrow> K (Some sk') h'"
    and K_step: "device_step w vt d s r s' \<Longrightarrow> K (m_sink (cl s)) (hist s) \<Longrightarrow> K (m_sink (cl s')) (hist s')"
begin

abbreviation carried :: "'s sys \<Rightarrow> bool" where
  "carried s \<equiv> K (m_sink (cl s)) (hist s)"

text \<open>The laws as rules that follow a history back.\<close>

lemma K_back:
  "aside h h' \<Longrightarrow> K m h \<Longrightarrow> K m h'" "extends is_log h h' \<Longrightarrow> K m h \<Longrightarrow> K m h'" "quiet h h' \<Longrightarrow> K m h \<Longrightarrow> K m h'"
  "is_aside e \<Longrightarrow> K m h \<Longrightarrow> K m (e # h)"
  by (blast intro: K_aside aside_of extends_Cons)+

lemma command_loop_carries:
  assumes "command_loop w vt start ds s = Some (r, s')" "carried s"
  shows "carried s'"
proof -
  have "r \<noteq> Next \<and> carried s'"
    by (rule command_loop_rule [OF assms(1), where I = carried]) (use assms(2) K_step in auto)
  then show ?thesis by blast
qed

lemma flush_before_close_carries: "carried s \<Longrightarrow> wp (flush_before_close w vt) (\<lambda>_. carried) s"
  unfolding flush_before_close_def
  by (intro wp_intros) (auto intro: K_flush K_aside [OF _ aside_of(1)])

lemma close_carries: "carried s \<Longrightarrow> wp (close w vt) (\<lambda>_. carried) s"
  unfolding close_def close_device_set_def SetClose_def SetRelease_def
  by (intro wp_intros wp_mono [OF flush_before_close_carries])
    (auto elim!: K_back(2) intro!: K_back(4))

lemma after_loop_carries: "carried s \<Longrightarrow> wp (after_loop w vt devices) (\<lambda>_. carried) s"
  unfolding after_loop_def
  by (intro wp_intros wp_mono [OF release_all_aside] wp_mono [OF close_carries] wp_mono [OF report_aside])
    (auto intro: K_back)

lemma loop_reach_carries: "loop_reach w vt ds s s' \<Longrightarrow> carried s \<Longrightarrow> carried s'"
  by (erule loop_reach_invariant) (blast intro: K_step)+

lemma prologue_carries:
  "run_state (process_prologue w) s = (x, s1) \<Longrightarrow> carried s \<Longrightarrow> carried s1"
  using wpD [OF process_prologue_aside] prologue_keeps_sink by (metis K_aside)

lemma session_clock_carries:
  "run_state (start_session_clock w) s = (t, s1) \<Longrightarrow> carried s \<Longrightarrow> carried s1"
  using wpD [OF start_session_clock_spec] session_clock_keeps_sink by (metis K_back(3))

lemma process_commands_carries:
  assumes "process_commands w vt s = Some (out, s')" "carried s"
  shows "carried s'"
  using assms(1)
proof (cases rule: process_commands_cases)
  case stopped
  then show ?thesis using prologue_carries assms(2) by blast
next
  case (ran devices s1 start s2 r s3)
  have "carried s3"
    using command_loop_carries [OF ran(3) session_clock_carries [OF ran(2) prologue_carries [OF ran(1) assms(2)]]] .
  with ran(5) after_loop_carries [of s3 w devices] show ?thesis
    by (auto simp: wp_snd split: if_splits)
qed

end

end
