(* ===== verification/Data_Integrity.thy ===== *)
theory Data_Integrity
  imports Sink_Flow
begin

text \<open>
  What reaches the sink. The specification is a function of the history alone: the bytes of the
  write commands that SQL Server sent, in order. The client lemmas are proved once in the
  locale \<open>durable_sink\<close>, for every sink that keeps the promises of that interface: at the head
  of the loop the sink has stored exactly the bytes received, and a session that ended gracefully
  has made exactly those bytes durable. The property is the instance for \<open>FileSink\<close>.
\<close>

section \<open>The data SQL Server sent\<close>

definition written_data :: "vdc_command \<Rightarrow> u8 list" where
  "written_data cmd = (if commandCode cmd = VDC_Write then payload cmd else [])"

fun received_data :: "history \<Rightarrow> u8 list" where
  "received_data [] = []"
| "received_data (E_GetCommand d t hr c # h) = received_data h @
     (if hr_failed hr then [] else case c of None \<Rightarrow> [] | Some cmd \<Rightarrow> written_data cmd)"
| "received_data (_ # h) = received_data h"

lemma received_data_quiet: "quiet h h' \<Longrightarrow> received_data h' = received_data h"
proof (rule extends_same [of is_quiet])
  show "is_quiet e \<Longrightarrow> received_data (e # h) = received_data h" for e h by (cases e) auto
qed

lemma received_data_outer: "outer h h' \<Longrightarrow> received_data h' = received_data h"
proof (rule extends_same [of is_outer])
  show "is_outer e \<Longrightarrow> received_data (e # h) = received_data h" for e h by (cases e) auto
qed

lemma received_received_data:
  "received w d s hr c c1 h \<Longrightarrow> received_data h = received_data (hist s) @
     (if hr_failed hr then [] else case c of None \<Rightarrow> [] | Some cmd \<Rightarrow> written_data cmd)"
  by (auto simp: received_def dest!: received_data_quiet)

lemma completed_received_data: "completed w d cmd h hr h' \<Longrightarrow> received_data h' = received_data h"
  by (auto simp: completed_def dest!: received_data_quiet)

text \<open>The block handed to the sink is the payload of the command.\<close>

lemma payload_block:
  "write_acceptable cmd \<Longrightarrow> bytes_at (cmd_memory cmd) (unat (ucast (cmd_size cmd) :: u64)) = payload cmd"
  by (auto simp: write_acceptable_def payload_def cmd_memory_def unat_ucast_up)

section \<open>Any durable sink\<close>

context durable_sink
begin

lemma nonsink_same:
  "nonsink h h' \<Longrightarrow> (\<forall>sk. stored sk h' = stored sk h) \<and> durable h' = durable h \<and> healthy h' = healthy h"
  by (auto dest: other_extends)

lemma received_stored:
  assumes "received w d s hr c c1 h"
  shows "m_sink c1 = m_sink (cl s) \<and> (\<forall>sk. stored sk h = stored sk (hist s)) \<and>
    durable h = durable (hist s) \<and> healthy h = healthy (hist s) \<and>
    received_data h = received_data (hist s) @
      (if hr_failed hr then [] else case c of None \<Rightarrow> [] | Some cmd \<Rightarrow> written_data cmd)"
  using nonsink_same [OF received_nonsink [OF assms]] m_sink_received [OF assms]
    received_received_data [OF assms] by simp

lemma quiet_stored:
  "quiet h h' \<Longrightarrow> received_data h' = received_data h \<and> (\<forall>sk. stored sk h' = stored sk h) \<and>
     durable h' = durable h \<and> healthy h' = healthy h"
  using nonsink_same [OF nonsink_of(1)] received_data_quiet by simp

text \<open>At the head of the loop, and when the loop is left for a graceful end.\<close>

definition stored_all :: "'s sys \<Rightarrow> bool" where
  "stored_all s \<longleftrightarrow> (\<exists>sk. m_sink (cl s) = Some sk \<and> sinv sk \<and>
     (healthy (hist s) \<longrightarrow> stored sk (hist s) = received_data (hist s)))"

lemma served_stored:
  assumes "served vt cmd c h c2 h2" "m_sink c = Some sk" "sinv sk"
  shows "\<exists>sk2. m_sink c2 = Some sk2 \<and> sinv sk2 \<and> received_data h2 = received_data h \<and>
    (healthy h2 \<longrightarrow> healthy h \<and> stored sk2 h2 = stored sk h @ written_data cmd)"
  using assms(1)
proof cases
  case served_other
  then show ?thesis
    using assms(2,3) nonsink_same [OF nonsink_of(1)] by (auto simp: written_data_def received_data_quiet)
next
  case (served_write sk0 h1 sk' h1')
  have sk0: "sk0 = sk" using served_write assms(2) by simp
  have "sinv sk' \<and> (healthy h1' \<longrightarrow>
      stored sk' h1' = stored sk h1 @ bytes_at (cmd_memory cmd) (unat (ucast (cmd_size cmd) :: u64)))"
    using wpD [OF write_spec [OF assms(3)] served_write(5) [unfolded sk0]] by simp
  moreover have w: "extends is_sink_event h1 h1'"
    using wpD [OF write_frame served_write(5)] by simp
  moreover have "outer h h2"
    using served_write(6,7) w by (blast intro: outer_trans outer_of)
  ultimately show ?thesis
    using served_write nonsink_same [OF nonsink_of(1) [OF served_write(6)]]
      nonsink_same [OF nonsink_of(1) [OF served_write(7)]] healthy_extends [OF w]
    by (auto simp: received_data_outer written_data_def payload_block)
qed

lemma device_step_stored_next:
  assumes "device_step w vt d s Next s'" "stored_all s"
  shows "stored_all s'"
  using assms(1)
proof cases
  case (command_done hr cmd c1 h c2 h2 hr2 h' fi tm)
  obtain sk where sk: "m_sink c1 = Some sk" "sinv sk" "healthy (hist s) \<longrightarrow> stored sk (hist s) = received_data (hist s)"
    using assms(2) m_sink_received [OF command_done(2)] by (auto simp: stored_all_def)
  show ?thesis
    using served_stored [OF command_done(4) sk(1,2)] command_done sk(3)
      nonsink_same [OF received_nonsink [OF command_done(2)]]
      nonsink_same [OF completed_nonsink [OF command_done(5)]]
      received_received_data [OF command_done(2)] completed_received_data [OF command_done(5)]
    by (auto simp: stored_all_def)
qed (use assms(2) in \<open>auto simp: stored_all_def dest!: received_stored quiet_stored\<close>)

text \<open>The graceful way out flushes, and the flush makes everything durable.\<close>

definition durable_all :: "'s sys \<Rightarrow> bool" where
  "durable_all s \<longleftrightarrow> (\<exists>sk. m_sink (cl s) = Some sk \<and> sinv sk \<and>
     (healthy (hist s) \<longrightarrow> stored sk (hist s) = received_data (hist s) \<and>
        durable (hist s) = received_data (hist s)))"

lemma device_step_durable:
  assumes "device_step w vt d s r s'" "r \<noteq> Next" "stored_all s" "m_state (cl s) = STREAMING"
    and "m_state (cl s') = FLUSHING"
  shows "durable_all s'"
  using assms(1)
proof cases
  case (graceful_end hr c c1 h sk h1 u sk' h')
  then have sk: "sinv sk" "healthy (hist s) \<longrightarrow> stored sk (hist s) = received_data (hist s)"
    using assms(3) by (auto simp: stored_all_def)
  from wpD [OF flush_spec [OF sk(1)] graceful_end(6)]
  have fl: "sinv sk' \<and> (healthy h' \<longrightarrow> stored sk' h' = stored sk h1 \<and> durable h' = stored sk h1)" by simp
  have w: "extends is_sink_event h1 h'" using wpD [OF flush_frame graceful_end(6)] by simp
  have "hr_failed hr" using graceful_end by auto
  then show ?thesis
    using fl sk(2) graceful_end nonsink_same [OF received_nonsink [OF graceful_end(3)]]
      nonsink_same [OF nonsink_of(1) [OF graceful_end(7)]] healthy_extends [OF w]
      received_received_data [OF graceful_end(3)] received_data_quiet [OF graceful_end(7)]
      received_data_outer [OF outer_of(2) [OF w]]
    by (auto simp: durable_all_def)
qed (use assms(2-5) in \<open>auto simp: stored_all_def dest!: received_client served_fields\<close>)

lemma command_loop_durable:
  assumes "command_loop w vt start ds s = Some (r, s')" "m_state (cl s) = STREAMING" "stored_all s"
    and "m_state (cl s') = FLUSHING"
  shows "durable_all s'"
proof -
  have "r \<noteq> Next \<and> (m_state (cl s') = FLUSHING \<longrightarrow> durable_all s')"
    by (rule command_loop_rule [OF assms(1), where I = "\<lambda>t. m_state (cl t) = STREAMING \<and> stored_all t"])
      (use assms(2,3) in \<open>auto dest: device_step_state device_step_stored_next intro: device_step_durable\<close>)
  with assms(4) show ?thesis by blast
qed

lemma flush_durable:
  assumes "run_state (vt_flush vt) (sk, h) = (u, sk', h')" "sinv sk"
  shows "sinv sk' \<and> received_data h' = received_data h \<and>
    (healthy h' \<longrightarrow> healthy h \<and> stored sk' h' = stored sk h \<and> durable h' = stored sk h)"
proof -
  have w: "extends is_sink_event h h'" using wpD [OF flush_frame assms(1)] by simp
  show ?thesis
    using wpD [OF flush_spec [OF assms(2)] assms(1)] healthy_extends [OF w] received_data_outer [OF outer_of(2) [OF w]]
    by simp
qed

lemmas log_stored = quiet_log [THEN quiet_stored]

lemma set_events_stored [simp]:
  "stored sk (E_SetClose ds # h) = stored sk h" "stored sk (E_SetRelease ds # h) = stored sk h"
  "durable (E_SetClose ds # h) = durable h" "durable (E_SetRelease ds # h) = durable h"
  "healthy (E_SetClose ds # h) = healthy h" "healthy (E_SetRelease ds # h) = healthy h"
  using other_event [of "E_SetClose ds"] other_event [of "E_SetRelease ds"] by simp_all

lemma close_durable:
  assumes "durable_all s" "m_state (cl s) = FLUSHING" "\<not> m_devices_closed (cl s)"
  shows "wp (close w vt) (\<lambda>_ s'. durable_all s') s"
  unfolding close_def flush_before_close_def close_device_set_def SetClose_def SetRelease_def
  by (intro wp_intros)
    (use assms in \<open>auto simp: durable_all_def dest!: log_stored flush_durable\<close>)

lemma nonsink_durable_all:
  assumes "durable_all s" "nonsink (hist s) (hist s')" "outer (hist s) (hist s')" "cl s' = cl s"
  shows "durable_all s'"
  using assms nonsink_same [OF assms(2)] by (auto simp: durable_all_def received_data_outer)

lemma after_loop_durable:
  assumes "durable_all s" "m_state (cl s) = FLUSHING" "\<not> m_devices_closed (cl s)"
  shows "wp (after_loop w vt devices) (\<lambda>_ s'. durable_all s') s"
proof -
  have rep: "wp (report w) (\<lambda>_ s'. durable_all s') t" if "durable_all t" for t
    by (rule wp_mono [OF wp_conj [OF report_spec wp_conj [OF report_outer report_nonsink]]])
      (use that nonsink_durable_all in blast)
  have rel: "wp (release_all devices) (\<lambda>_ h'. outer h h' \<and> nonsink h h') h" for h
    by (rule wp_conj [OF release_all_outer release_all_nonsink])
  show ?thesis
    unfolding after_loop_def
    by (intro wp_intros wp_mono [OF rel] wp_mono [OF close_durable] rep)
      (use assms in \<open>auto intro: nonsink_durable_all\<close>)
qed

lemma process_commands_durable:
  assumes "process_commands w vt s = Some (Returned, s')" "m_state (cl s) = STREAMING"
    and "\<not> m_devices_closed (cl s)" "stored_all s" "m_state (cl s') = CLOSED"
  shows "durable_all s'"
  using assms(1)
proof (cases rule: process_commands_cases)
  case stopped
  with wpD [OF process_prologue_spec stopped(1)] assms(2,5) show ?thesis by auto
next
  case (ran devices s1 start s2 r s3)
  from wpD [OF process_prologue_spec ran(1)] wpD [OF start_session_clock_spec ran(2)]
  have cl: "m_sink (cl s2) = m_sink (cl s)" "m_state (cl s2) = STREAMING" "\<not> m_devices_closed (cl s2)"
    using assms(2,3) by auto
  have "nonsink (hist s) (hist s2)" "outer (hist s) (hist s2)"
    using wpD [OF process_prologue_nonsink ran(1)] wpD [OF process_prologue_outer ran(1)]
      wpD [OF start_session_clock_spec ran(2)] by (auto intro: nonsink_back outer_trans outer_of)
  then have all: "stored_all s2"
    using assms(4) nonsink_same by (auto simp: stored_all_def cl received_data_outer)
  have r: "r \<noteq> Crash" "s' = snd (run_state (after_loop w vt devices) s3)" using ran(5) by (auto split: if_splits)
  have s3: "\<not> m_devices_closed (cl s3)" "m_state (cl s3) \<in> {STREAMING, FLUSHING, FAILED}"
    using command_loop_spec [OF ran(3) cl(2)] cl(3) by (auto simp: same_resources_def fixed_part_def)
  then have "m_state (cl s3) = FLUSHING"
    using after_loop_spec [of s3 w devices] assms(5) r(2) by (auto simp: wp_snd split: if_splits)
  moreover from command_loop_durable [OF ran(3) cl(2) all this] have "durable_all s3" .
  ultimately show ?thesis
    using after_loop_durable [of s3 w devices] s3(1) r(2) by (simp add: wp_snd)
qed

text \<open>A sink whose methods keep the system healthy: a device that always works.\<close>

definition reliable :: bool where
  "reliable \<longleftrightarrow>
     (\<forall>sk h data n ok sk' h'. sinv sk \<longrightarrow> healthy h \<longrightarrow>
        run_state (vt_write vt data n) (sk, h) = (ok, sk', h') \<longrightarrow> healthy h') \<and>
     (\<forall>sk h u sk' h'. sinv sk \<longrightarrow> healthy h \<longrightarrow>
        run_state (vt_flush vt) (sk, h) = (u, sk', h') \<longrightarrow> healthy h')"

definition well :: "'s option \<Rightarrow> history \<Rightarrow> bool" where
  "well m h \<longleftrightarrow> (\<exists>sk. m = Some sk \<and> sinv sk) \<and> healthy h"

lemma write_well:
  assumes reliable "run_state (vt_write vt data n) (sk, h) = (ok, sk', h')" "sinv sk"
  shows "sinv sk' \<and> (healthy h \<longrightarrow> healthy h')"
  using wpD [OF write_spec [OF assms(3)] assms(2)] assms unfolding reliable_def fst_conv by blast

lemma flush_well:
  assumes reliable "run_state (vt_flush vt) (sk, h) = (u, sk', h')" "sinv sk"
  shows "sinv sk' \<and> (healthy h \<longrightarrow> healthy h')"
  using wpD [OF flush_spec [OF assms(3)] assms(2)] assms unfolding reliable_def fst_conv by blast

lemma served_well:
  assumes reliable "served vt cmd c h c2 h2" "m_sink c = Some sk" "sinv sk" "healthy h"
  shows "healthy h2 \<and> (\<exists>sk2. m_sink c2 = Some sk2 \<and> sinv sk2)"
  using assms(2-5) by cases (auto dest!: write_well [OF assms(1)] quiet_stored)

lemma completed_well: "completed w d cmd h hr h' \<Longrightarrow> healthy h' = healthy h"
  using nonsink_same [OF completed_nonsink] by blast

lemma device_step_well:
  assumes reliable "device_step w vt d s r s'" "well (m_sink (cl s)) (hist s)"
  shows "well (m_sink (cl s')) (hist s')"
  using assms(2,3)
  by (cases; fastforce simp: well_def completed_well dest: received_stored quiet_stored flush_well [OF assms(1)]
      write_well [OF assms(1)] served_well [OF assms(1)])

text \<open>So a healthy system stays healthy through a session.\<close>

lemma reliable_well:
  assumes reliable
  shows "sink_invariant vt well"
proof unfold_locales
  show "well m h \<Longrightarrow> aside h h' \<Longrightarrow> well m h'" for m h h'
    using nonsink_same [of h h'] aside_split [of h h'] by (simp add: well_def)
  show "well (Some sk) h \<Longrightarrow> run_state (vt_flush vt) (sk, h) = (u, sk', h') \<Longrightarrow> well (Some sk') h'" for sk h u sk' h'
    by (drule flush_well [OF assms]) (simp_all add: well_def)
qed (rule device_step_well [OF assms])

end

section \<open>The file sink\<close>

text \<open>An operating system that writes what it is asked to.\<close>

definition disk_ok :: "world \<Rightarrow> bool" where
  "disk_ok w \<longleftrightarrow> (\<forall>h bs. length bs < 2 ^ 32 \<longrightarrow> r_WriteFile w h bs = (True, word_of_nat (length bs)))"

lemma unat_of_length: "length bs < 2 ^ 32 \<Longrightarrow> unat (word_of_nat (length bs) :: u32) = length bs"
  by (simp add: unat_of_nat take_bit_nat_eq_self)

lemma flush_buffer_disk_ok:
  assumes "disk_ok w" "os_ok h"
  shows "wp (flush_buffer w) (\<lambda>_ s'. os_ok (snd s')) (fs, h)"
proof -
  have "length (buffer_block fs) < 2 ^ 32"
    using unsigned_less [of "ucast (m_buffered_bytes fs) :: u32"]
    by (auto simp: buffer_block_def split: option.splits)
  then show ?thesis
    using assms by (auto simp: flush_buffer_def WriteFile_def on_history_def on_object_def disk_ok_def wp_def
        unat_of_length split: prod.splits)
qed

lemma write_direct_disk_ok:
  assumes "disk_ok w" "os_ok h"
  shows "wp (write_direct w data n) (\<lambda>_ s'. os_ok (snd s')) (fs, h)"
proof -
  have "length (bytes_at data (unat (ucast n :: u32))) < 2 ^ 32"
    using unsigned_less [of "ucast n :: u32"] by simp
  then show ?thesis
    using assms by (auto simp: write_direct_def WriteFile_def on_history_def disk_ok_def wp_def
        unat_of_length split: prod.splits)
qed

lemma file_write_disk_ok:
  assumes "disk_ok w" "os_ok h" "run_state (file_write w data n) (fs, h) = (ok, fs', h')"
  shows "os_ok h'"
proof -
  have "wp (file_write w data n) (\<lambda>_ s'. os_ok (snd s')) (fs, h)"
    unfolding file_write_def
    by (intro wp_intros wp_mono [OF flush_buffer_disk_ok [OF assms(1)]])
      (use assms in \<open>auto intro!: wp_intros write_direct_disk_ok\<close>)
  from wpD [OF this assms(3)] show ?thesis by simp
qed

lemma file_flush_disk_ok:
  assumes "disk_ok w" "os_ok h" "run_state (file_flush w) (fs, h) = (u, fs', h')"
  shows "os_ok h'"
proof -
  have "wp (file_flush w) (\<lambda>_ s'. os_ok (snd s')) (fs, h)"
    unfolding file_flush_def
    by (intro wp_intros wp_mono [OF flush_buffer_disk_ok [OF assms(1)]])
      (use assms in \<open>auto intro!: wp_intros\<close>)
  from wpD [OF this assms(3)] show ?thesis by simp
qed

lemma disk_ok_reliable: "disk_ok w \<Longrightarrow> fsink.reliable w"
  unfolding fsink.reliable_def
  by (auto simp: file_vtbl_def dest: file_write_disk_ok file_flush_disk_ok)

text \<open>
  C1. The file is the backup. Take a streaming client with a FileSink that has stored what was
  received so far (a new one, for instance). When process_commands returns and the session has
  closed, and every WriteFile so far has written all it was given, then the bytes in the
  file are exactly the payloads of the write commands SQL Server sent, in the order it sent them:
  none lost in the buffer, none twice, none from a command that was refused.
\<close>

theorem backup_file_complete:
  assumes "process_commands w (file_vtbl w) s = Some (Returned, s')"
    and "m_state (cl s) = STREAMING" "\<not> m_devices_closed (cl s)"
    and "m_sink (cl s) = Some fs" "file_inv fs" "file_stored fs (hist s) = received_data (hist s)"
    and "m_state (cl s') = CLOSED" "os_ok (hist s')"
  shows "file_bytes (hist s') = received_data (hist s')"
proof -
  have "fsink.stored_all s" using assms(4-6) by (auto simp: fsink.stored_all_def)
  then have "fsink.durable_all s'" by (rule fsink.process_commands_durable [OF assms(1-3) _ assms(7)])
  with assms(8) show ?thesis by (auto simp: fsink.durable_all_def)
qed

section \<open>A session with one write\<close>

text \<open>SQL Server sends one write and closes; the disk works, or refuses every WriteFile.\<close>

definition one_write_world :: "bool \<Rightarrow> world" where
  "one_write_world disk = calm_world\<lparr>r_GetCommand := (\<lambda>h _ _.
       if get_count h = 0 then (S_OK, Some demo_write) else (VD_E_CLOSE, None)),
     r_WriteFile := (\<lambda>_ bs. if disk then (True, word_of_nat (length bs)) else (False, 0))\<rparr>"

definition demo_file_session :: "file_sink sys" where
  "demo_file_session = \<lparr>cl = \<lparr>m_device_set = Some 1,
     m_sink = Some \<lparr>m_file_handle = Handle, m_write_buffer = Some (\<lambda>_. 0), m_buffered_bytes = 0\<rparr>,
     m_metrics = empty_metrics, m_buffer_pool = BufferPool BUFFER_SIZE BUFFER_POOL_SIZE,
     m_device_name = ''VDI'', m_device_count = 1, m_logging_enabled = False, m_state = STREAMING,
     m_devices_closed = False, m_command_timeout_ms = DEFAULT_COMMAND_TIMEOUT_MS, m_last_command_us = 0,
     m_last_bytes_total = 0, m_last_stall_warn_us = 0, m_active_buffers = 0, m_max_active_buffers = 0,
     m_fault_injector = new_FaultInjector\<rparr>, hist = []\<rparr>"

lemma ow: "LOGGING_LEVEL (one_write_world disk) = 0" "FAULT_INJECTION_ENABLED (one_write_world disk) = False"
  "r_GetCommand (one_write_world disk) h d t = (if get_count h = 0 then (S_OK, Some demo_write) else (VD_E_CLOSE, None))"
  "r_CompleteCommand (one_write_world disk) h d c = S_OK" "r_steady_clock (one_write_world disk) h = 0"
  "r_WriteFile (one_write_world disk) h bs = (if disk then (True, word_of_nat (length bs)) else (False, 0))"
  "r_OpenDevice (one_write_world disk) h nm = (S_OK, 1)"
  by (simp_all add: one_write_world_def calm_world_def)

lemmas run_defs = process_device_def client_now_us_def metrics_now_us_def now_us_def
   steady_clock_now_def do_io_def upd_def log_defs LOG_LEVEL_INFO_def LOG_LEVEL_DEBUG_def GetCommand_def
   dispatch_command_def write_stage_def upd_metrics_def validate_write_command_def sink_write_def
   trace_begin_def trace_end_def on_sink_def complete_stage_def CompleteCommand_def fault_hook_def on_chunk_completed_def
   get_command_failed_def set_state_to_def flush_sink_def

lemma vt_file [simp]: "vt_write (file_vtbl w) = file_write w" "vt_flush (file_vtbl w) = file_flush w"
  "vt_is_open (file_vtbl w) = file_is_open" "vt_dtor (file_vtbl w) = file_dtor w"
  by (simp_all add: file_vtbl_def)


lemmas demo_defs = demo_file_session_def demo_write_def MAX_SANE_CHUNK_SIZE_def VDC_defs empty_metrics_def
  file_defs file_is_open_def on_object_def on_history_def WRITE_BUFFER_SIZE_def append_to_buffer_def
  buffer_block_def S_OK_def VD_E_CLOSE_def hr_failed_def

text \<open>The run, stage by stage: the prologue, the clock, the turn with the write, the turn that ends.\<close>

definition demo_opened :: "file_sink sys" where
  "demo_opened = demo_file_session\<lparr>hist := [E_steady_clock 0, E_OpenDevice 1 ''VDI'' S_OK 1]\<rparr>"

lemma demo_prologue:
  "run_state (process_prologue (one_write_world disk)) demo_file_session =
     (Some [1], demo_file_session\<lparr>hist := [E_OpenDevice 1 ''VDI'' S_OK 1]\<rparr>)"
  by (simp add: process_prologue_def device_total_def OpenDevice_def run_defs ow demo_defs)

lemma demo_clock:
  "run_state (start_session_clock (one_write_world disk)) (demo_file_session\<lparr>hist := [E_OpenDevice 1 ''VDI'' S_OK 1]\<rparr>)
     = (0, demo_opened)"
  by (simp add: start_session_clock_def demo_opened_def run_defs ow demo_defs chrono_us_def duration_us_def)

lemma demo_turn_1:
  "case run_state (process_device (one_write_world disk) (file_vtbl (one_write_world disk)) 0 1) demo_opened of (r, s') \<Rightarrow>
     r = Next \<and> 0 < get_count (hist s') \<and> m_timer (m_metrics (cl s')) = ChronoTimer 0 \<and> m_sink (cl s') \<noteq> None \<and>
     file_bytes (hist s') = [] \<and> received_data (hist s') = [7, 7, 7, 7]"
  by (simp add: demo_opened_def run_defs ow demo_defs written_data_def payload_def bytes_at_def upt_rec)

lemma demo_turn_2:
  assumes "0 < get_count (hist s)" "m_timer (m_metrics (cl s)) = ChronoTimer 0" "m_sink (cl s) = Some fs"
  shows "case run_state (process_device (one_write_world disk) (file_vtbl (one_write_world disk)) 0 1) s of (r, s') \<Rightarrow>
     r = Stop \<and> m_state (cl s') = FLUSHING \<and> m_sink (cl s') = Some (fs\<lparr>m_buffered_bytes := 0\<rparr>) \<and>
     (disk \<or> file_bytes (hist s') = file_bytes (hist s)) \<and> received_data (hist s') = received_data (hist s)"
  using assms by (cases fs) (simp add: run_defs ow demo_defs split: prod.splits)

text \<open>The whole loop of the demonstration.\<close>

lemma demo_loop:
  obtains s2 fs where
    "command_loop (one_write_world disk) (file_vtbl (one_write_world disk)) 0 [1] demo_opened = Some (Stop, s2)"
    "m_state (cl s2) = FLUSHING" "\<not> m_devices_closed (cl s2)" "m_sink (cl s2) = Some fs" "m_buffered_bytes fs = 0"
    "disk \<or> file_bytes (hist s2) = []" "received_data (hist s2) = [7, 7, 7, 7]"
proof -
  let ?w = "one_write_world disk" and ?vt = "file_vtbl (one_write_world disk)"
  obtain s1 fs where s1: "run_state (process_device ?w ?vt 0 1) demo_opened = (Next, s1)"
      "0 < get_count (hist s1)" "m_timer (m_metrics (cl s1)) = ChronoTimer 0" "m_sink (cl s1) = Some fs"
      "file_bytes (hist s1) = []" "received_data (hist s1) = [7, 7, 7, 7]"
    using demo_turn_1 [of disk] by (auto split: prod.splits)
  then obtain s2 where s2: "run_state (process_device ?w ?vt 0 1) s1 = (Stop, s2)" "m_state (cl s2) = FLUSHING"
      "m_sink (cl s2) = Some (fs\<lparr>m_buffered_bytes := 0\<rparr>)" "disk \<or> file_bytes (hist s2) = []"
      "received_data (hist s2) = [7, 7, 7, 7]"
    using demo_turn_2 [of s1 fs disk] by (auto split: prod.splits)
  have "command_loop ?w ?vt 0 [1] s1 = Some (Stop, s2)"
    by (simp add: command_loop.simps [of ?w ?vt 0 "[1]" s1] s2 del: One_nat_def)
  then have loop: "command_loop ?w ?vt 0 [1] demo_opened = Some (Stop, s2)"
    by (simp add: command_loop.simps [of ?w ?vt 0 "[1]" demo_opened] s1 del: One_nat_def)
  have "\<not> m_devices_closed (cl s2)"
    using file_frame.command_loop_spec [OF loop]
    by (simp add: demo_opened_def demo_file_session_def same_resources_def fixed_part_def)
  with loop s2 show thesis by (intro that) auto
qed

lemma demo_run:
  "\<exists>s'. process_commands (one_write_world disk) (file_vtbl (one_write_world disk)) demo_file_session = Some (Returned, s')
     \<and> m_state (cl s') = CLOSED"
proof -
  let ?w = "one_write_world disk" and ?vt = "file_vtbl (one_write_world disk)"
  obtain s2 fs where s2: "command_loop ?w ?vt 0 [1] demo_opened = Some (Stop, s2)"
      "m_state (cl s2) = FLUSHING" "\<not> m_devices_closed (cl s2)"
    by (rule demo_loop)
  then have "m_state (cl (snd (run_state (after_loop ?w ?vt [1]) s2))) = CLOSED"
    using file_frame.after_loop_spec [of s2 ?w ?w "[1]"] by (simp add: wp_snd)
  then show ?thesis by (simp add: process_commands_def demo_prologue demo_clock s2(1) del: One_nat_def)
qed

theorem backup_file_complete_witness:
  "\<exists>s'. process_commands (one_write_world True) (file_vtbl (one_write_world True)) demo_file_session = Some (Returned, s') \<and>
     file_bytes (hist s') = received_data (hist s')"
proof -
  let ?w = "one_write_world True"
  obtain s' where s': "process_commands ?w (file_vtbl ?w) demo_file_session = Some (Returned, s')"
      "m_state (cl s') = CLOSED"
    using demo_run by blast
  have "disk_ok ?w" by (simp add: disk_ok_def ow)
  from sink_invariant.process_commands_carries [OF fsink.reliable_well [OF disk_ok_reliable [OF this]] s'(1)]
  have "fsink.well (m_sink (cl s')) (hist s')"
    by (simp add: fsink.well_def demo_file_session_def file_inv_def)
  then have "os_ok (hist s')" by (simp add: fsink.well_def)
  from backup_file_complete [OF s'(1) _ _ _ _ _ s'(2) this] s'(1) show ?thesis
    by (auto simp: demo_file_session_def file_inv_def file_stored_def buffered_data_def)
qed

section \<open>Stretches that leave the file alone\<close>

lemma file_bytes_nonsink: "nonsink h h' \<Longrightarrow> file_bytes h' = file_bytes h"
  by (erule extends_same) (rule file_bytes_other)

end
