(* ===== verification/Accounting.thy ===== *)
theory Accounting
  imports Data_Integrity
begin

text \<open>
  The figures of a session: the metrics, the buffer pool and the stall detection, against the write
  commands the history says were received. The counters are words, so the statements are equations
  modulo their width.
\<close>

section \<open>The writes received\<close>

definition writes_of :: "vdc_command option \<Rightarrow> vdc_command list" where
  "writes_of c = (case c of None \<Rightarrow> [] | Some cmd \<Rightarrow> if commandCode cmd = VDC_Write then [cmd] else [])"

fun received_writes :: "history \<Rightarrow> vdc_command list" where
  "received_writes [] = []"
| "received_writes (E_GetCommand d t hr c # h) =
     received_writes h @ (if hr_failed hr then [] else writes_of c)"
| "received_writes (_ # h) = received_writes h"

lemma received_data_writes: "received_data h = concat (map payload (received_writes h))"
  by (induction h rule: received_data.induct)
    (auto simp: writes_of_def written_data_def split: option.splits)

lemma received_writes_outer: "outer h h' \<Longrightarrow> received_writes h' = received_writes h"
proof (rule extends_same [of is_outer])
  show "is_outer e \<Longrightarrow> received_writes (e # h) = received_writes h" for e h by (cases e) auto
qed

lemmas received_writes_quiet = outer_of(1) [THEN received_writes_outer]

lemma received_received_writes:
  "received w d s hr c c1 h \<Longrightarrow>
   received_writes h = received_writes (hist s) @ (if hr_failed hr then [] else writes_of c) \<and>
   (\<exists>now. c1 = (cl s)\<lparr>m_last_command_us := now\<rparr>)"
  by (auto simp: received_def dest!: received_writes_quiet)

lemma completed_received_writes: "completed w d cmd h hr h' \<Longrightarrow> received_writes h' = received_writes h"
  by (auto simp: completed_def dest!: received_writes_quiet)

section \<open>The counters\<close>

definition chunk_size :: "vdc_command \<Rightarrow> u64" where
  "chunk_size cmd = ucast (cmd_size cmd)"

definition accounted :: "'s client \<Rightarrow> vdc_command list \<Rightarrow> bool" where
  "accounted c ws \<longleftrightarrow> (let m = m_metrics c; n = word_of_nat (length ws) in
     m_total_bytes m = word_sum (map chunk_size ws) \<and> m_sum_chunk_sizes m = word_sum (map chunk_size ws) \<and>
     m_chunk_count m = n \<and> m_min_chunk_size m = fold min (map chunk_size ws) UINT64_MAX \<and>
     m_max_chunk_size m = fold max (map chunk_size ws) 0 \<and>
     m_buffer_acquire_count m = n \<and> m_buffer_pool_hits m = n \<and> m_buffer_release_count m = n \<and>
     m_buffer_pool_misses m = 0) \<and>
   m_free_buffers (m_buffer_pool c) \<noteq> [] \<and> m_active_buffers c = 0 \<and>
   m_max_active_buffers c = (if ws = [] then 0 else 1)"

lemma word_sum_snoc: "word_sum (ns @ [n]) = word_sum ns + n"
  by (induction ns) (simp_all add: word_sum_def)

text \<open>Stage 3 counts the write, whether or not it is then accepted.\<close>

lemma account_accounted: "accounted c ws \<Longrightarrow> accounted (account cmd c) (ws @ [cmd])"
  unfolding accounted_def account_def pool_use_def acquire_def release_def
  by (auto simp: Let_def count_chunk_def add_bytes_def record_chunk_size_eq record_buffer_acquire_def
      record_buffer_release_def word_sum_snoc chunk_size_def split: prod.splits list.splits)

lemma accounted_update [simp]:
  "accounted (c\<lparr>m_state := x1\<rparr>) ws = accounted c ws" "accounted (c\<lparr>m_sink := x2\<rparr>) ws = accounted c ws"
  "accounted (c\<lparr>m_last_command_us := x3\<rparr>) ws = accounted c ws"
  "accounted (c\<lparr>m_last_bytes_total := x4\<rparr>) ws = accounted c ws"
  "accounted (c\<lparr>m_last_stall_warn_us := x4\<rparr>) ws = accounted c ws"
  "accounted (c\<lparr>m_fault_injector := x5\<rparr>) ws = accounted c ws"
  "accounted (fst (stall_update now c)) ws = accounted c ws"
  "accounted (c\<lparr>m_device_set := x6\<rparr>) ws = accounted c ws"
  "accounted (c\<lparr>m_devices_closed := x7\<rparr>) ws = accounted c ws"
  "accounted (c\<lparr>m_fault_injector := x5, m_metrics := record_chunk_timing t (m_metrics c)\<rparr>) ws = accounted c ws"
  by (simp_all add: accounted_def record_chunk_timing_def Let_def)

context sink_contract
begin

lemma flush_writes: "run_state (vt_flush vt) (sk, h) = (u, sk', h') \<Longrightarrow> received_writes h' = received_writes h"
  using received_writes_outer flush_outer by blast

lemma write_writes: "run_state (vt_write vt data n) (sk, h) = (ok, sk', h') \<Longrightarrow> received_writes h' = received_writes h"
  by (drule wpD [OF write_frame]) (auto intro: received_writes_outer)

lemma served_writes:
  "served vt cmd c h c2 h2 \<Longrightarrow> received_writes h2 = received_writes h \<and>
   (accounted c ws \<longrightarrow> accounted c2 (ws @ writes_of (Some cmd)))"
  by (erule served.cases)
    (auto simp: writes_of_def dest!: received_writes_quiet write_writes dest: account_accounted)

lemma device_step_accounted:
  "device_step w vt d s r s' \<Longrightarrow> accounted (cl s) (received_writes (hist s)) \<Longrightarrow>
   accounted (cl s') (received_writes (hist s'))"
  by (erule device_step.cases)
    (auto dest!: received_received_writes received_writes_quiet flush_writes write_writes
      served_writes [where ws = "received_writes (hist s)"] completed_received_writes
      simp: writes_of_def VDC_defs intro!: account_accounted)

lemma command_loop_accounted:
  assumes "command_loop w vt start ds s = Some (r, s')" "accounted (cl s) (received_writes (hist s))"
  shows "accounted (cl s') (received_writes (hist s'))"
proof -
  have "r \<noteq> Next \<and> accounted (cl s') (received_writes (hist s'))"
    by (rule command_loop_rule [OF assms(1), where I = "\<lambda>t. accounted (cl t) (received_writes (hist t))"])
      (use assms(2) device_step_accounted in auto)
  then show ?thesis by blast
qed

lemma close_accounted: "accounted (cl s) ws \<Longrightarrow> wp (close w vt) (\<lambda>_ s'. accounted (cl s') ws) s"
  unfolding close_def flush_before_close_def close_device_set_def SetClose_def SetRelease_def
  by (intro wp_intros) auto

lemma after_loop_accounted:
  "accounted (cl s) ws \<Longrightarrow> wp (after_loop w vt devices) (\<lambda>_ s'. accounted (cl s') ws) s"
  unfolding after_loop_def
  by (intro wp_intros wp_mono [OF release_all_outer] wp_mono [OF close_accounted] wp_mono [OF report_spec]) auto

lemma process_commands_accounted:
  assumes "process_commands w vt s = Some (out, s')" "accounted (cl s) (received_writes (hist s))"
  shows "accounted (cl s') (received_writes (hist s'))"
  using assms(1)
proof (cases rule: process_commands_cases)
  case stopped
  with wpD [OF process_prologue_spec stopped(1)] wpD [OF process_prologue_outer stopped(1)] assms(2)
  show ?thesis by (auto simp: received_writes_outer)
next
  case (ran devices s1 start s2 r s3)
  have "accounted (cl s2) (received_writes (hist s2))"
    using wpD [OF process_prologue_spec ran(1)] wpD [OF process_prologue_outer ran(1)]
      wpD [OF start_session_clock_spec ran(2)] clock_outer [OF ran(2)] assms(2)
    by (auto simp: received_writes_outer)
  then have "accounted (cl s3) (received_writes (hist s3))" by (rule command_loop_accounted [OF ran(3)])
  moreover have "received_writes (hist (snd (run_state (after_loop w vt devices) s3))) = received_writes (hist s3)"
    using after_loop_outer [of w devices s3] by (simp add: wp_snd received_writes_outer)
  ultimately show ?thesis
    using after_loop_accounted [of s3 _ w devices] ran(5) by (auto simp: wp_snd split: if_splits)
qed

end

lemma new_client_accounted:
  "wp (new_VdiClient w sink logging mode) (\<lambda>c _. accounted c []) h"
proof -
  have pool: "m_free_buffers (BufferPool BUFFER_SIZE BUFFER_POOL_SIZE) \<noteq> []"
    using BufferPool_state [of BUFFER_SIZE BUFFER_POOL_SIZE] by (simp add: BUFFER_POOL_SIZE_def)
  then show ?thesis
    unfolding new_VdiClient_def create_timer_def new_ChronoTimer_def new_QPCTimer_def new_Metrics_def
      steady_clock_now_def QueryPerformanceFrequency_def QueryPerformanceCounter_def
    by (cases mode) (auto intro!: wp_intros simp: accounted_def word_sum_def Let_def)
qed

section \<open>Properties\<close>

lemma word_sum_sizes: "word_sum (map chunk_size ws) = word_of_nat (\<Sum>cmd\<leftarrow>ws. unat (cmd_size cmd))"
  by (induction ws) (simp_all add: word_sum_def chunk_size_def)

text \<open>
  C16. The figures of the report are those of the data stream. After process_commands, on a client
  whose counters agreed with the history before (a new one does): the byte total is the sum of the
  sizes of the write commands received, the chunk count, pool acquires, hits and releases are their
  number, no acquire ever missed, no buffer is still out, and the high-water mark of active
  buffers is 1 as soon as there was a write: it never shows more, however many devices there are.
\<close>

theorem session_metrics:
  assumes "sink_contract vt" "process_commands w vt s = Some (out, s')"
    and "accounted (cl s) (received_writes (hist s))"
  shows "let ws = received_writes (hist s'); m = m_metrics (cl s'); n = word_of_nat (length ws) in
      m_total_bytes m = word_of_nat (\<Sum>cmd\<leftarrow>ws. unat (cmd_size cmd)) \<and> m_chunk_count m = n \<and>
      m_buffer_acquire_count m = n \<and> m_buffer_pool_hits m = n \<and> m_buffer_release_count m = n \<and>
      m_buffer_pool_misses m = 0 \<and> m_active_buffers (cl s') = 0 \<and>
      m_max_active_buffers (cl s') = (if ws = [] then 0 else 1)"
  using sink_contract.process_commands_accounted [OF assms]
  by (simp add: accounted_def Let_def word_sum_sizes)

theorem session_metrics_witness:
  "\<exists>s'. process_commands (one_write_world True) (file_vtbl (one_write_world True)) demo_file_session = Some (Returned, s')
     \<and> m_chunk_count (m_metrics (cl s')) = word_of_nat (length (received_writes (hist s')))
     \<and> m_buffer_pool_misses (m_metrics (cl s')) = 0"
proof -
  obtain s' where s': "process_commands (one_write_world True) (file_vtbl (one_write_world True)) demo_file_session
      = Some (Returned, s')"
    using demo_run by blast
  have "m_free_buffers (BufferPool BUFFER_SIZE BUFFER_POOL_SIZE) \<noteq> []"
    using BufferPool_state [of BUFFER_SIZE BUFFER_POOL_SIZE] by (simp add: BUFFER_POOL_SIZE_def)
  then have "accounted (cl demo_file_session) (received_writes (hist demo_file_session))"
    by (simp add: demo_file_session_def accounted_def Let_def word_sum_def empty_metrics_def)
  from session_metrics [OF file_frame.sink_contract_axioms s' this] s' show ?thesis
    by (auto simp: Let_def)
qed

text \<open>At the head of the loop the byte count of the last check is always the current one.\<close>

lemma loop_reach_last_bytes:
  assumes "loop_reach w vt ds s s'" "m_last_bytes_total (cl s) = m_total_bytes (m_metrics (cl s))"
  shows "m_last_bytes_total (cl s') = m_total_bytes (m_metrics (cl s'))"
proof (rule loop_reach_invariant [OF assms(1), where I = "\<lambda>t. m_last_bytes_total (cl t) = m_total_bytes (m_metrics (cl t))"])
  fix d t t'
  assume I: "m_last_bytes_total (cl t) = m_total_bytes (m_metrics (cl t))" and "device_step w vt d t Next t'"
  from this(2) show "m_last_bytes_total (cl t') = m_total_bytes (m_metrics (cl t'))"
    by cases (use I in \<open>auto dest!: received_client elim!: served.cases
      simp: stall_update_def record_chunk_timing_def\<close>)
qed (rule assms(2))

text \<open>
  C20. The stall detector does not look at progress. It is meant to warn only when no byte arrived
  within the window, but the byte count it compares with is refreshed at every write, so at any
  timeout in the loop it finds the two equal: it warns exactly when a minute has passed since its
  own last stamp, even if a chunk was written a moment ago, and its other branch is never taken.
\<close>

theorem stall_detector_ignores_progress:
  assumes "loop_reach w vt ds s s'" "m_last_bytes_total (cl s) = m_total_bytes (m_metrics (cl s))"
  shows "snd (stall_update now (cl s')) \<longleftrightarrow>
    m_last_stall_warn_us (cl s') \<noteq> 0 \<and> 60000000 \<le> unat (now - m_last_stall_warn_us (cl s'))"
  using loop_reach_last_bytes [OF assms]
  by (auto simp: stall_update_def STALL_WARN_MS_def word_less_nat_alt)

text \<open>A session stamped at microsecond 1: after a write it is a minute later, and the timeout warns.\<close>

definition demo_stamped :: "file_sink sys" where
  "demo_stamped = demo_opened\<lparr>cl := (cl demo_opened)\<lparr>m_last_stall_warn_us := 1\<rparr>\<rparr>"

lemma demo_stamped_turn:
  "case run_state (process_device (one_write_world True) (file_vtbl (one_write_world True)) 0 1) demo_stamped of (r, s') \<Rightarrow>
     r = Next \<and> received_data (hist s') = [7, 7, 7, 7] \<and> m_last_stall_warn_us (cl s') = 1"
  by (simp add: demo_stamped_def demo_opened_def run_defs ow demo_defs written_data_def payload_def bytes_at_def upt_rec)

theorem stall_detector_ignores_progress_witness:
  "\<exists>s'. loop_reach (one_write_world True) (file_vtbl (one_write_world True)) [1] demo_stamped s' \<and>
     received_data (hist s') = [7, 7, 7, 7] \<and> snd (stall_update 60000001 (cl s'))"
proof -
  let ?w = "one_write_world True"
  obtain s' where s': "run_state (process_device ?w (file_vtbl ?w) 0 1) demo_stamped = (Next, s')"
      "received_data (hist s') = [7, 7, 7, 7]" "m_last_stall_warn_us (cl s') = 1"
    using demo_stamped_turn by (auto split: prod.splits)
  have "device_step ?w (file_vtbl ?w) 1 demo_stamped Next s'" by (rule wpD [OF process_device_step s'(1)])
  then have run: "loop_reach ?w (file_vtbl ?w) [1] demo_stamped s'" by (auto intro: reach_start reach_step)
  have "m_last_bytes_total (cl demo_stamped) = m_total_bytes (m_metrics (cl demo_stamped))"
    by (simp add: demo_stamped_def demo_opened_def demo_file_session_def empty_metrics_def)
  from stall_detector_ignores_progress [OF run this, of 60000001] run s' show ?thesis by auto
qed

end
