(* ===== verification/Main_Program.thy ===== *)
theory Main_Program
  imports Accounting
begin

text \<open>
  \<open>src/main.cpp\<close>: the command line, the choice of the sink, the launch of sqlcmd, and the session the
  program runs from connect to close, with its exit codes and the destructors at its end. The
  result of a run is None when the command loop never ends.
\<close>

section \<open>The command line\<close>

record cli =
  use_file_sink :: bool
  auto_mode :: bool
  benchmark_id :: string

definition default_cli :: cli where
  "default_cli = \<lparr>use_file_sink = False, auto_mode = False, benchmark_id = ''default_run''\<rparr>"

text \<open>The loop over the arguments after the program's name; the last argument has no successor.\<close>

fun parse_args :: "string list \<Rightarrow> cli \<Rightarrow> cli" where
  "parse_args [] c = c"
| "parse_args [a] c = (if a = ''--auto'' then c\<lparr>auto_mode := True\<rparr> else c)"
| "parse_args (a # b # rest) c =
     (if a = ''--auto'' then parse_args (b # rest) (c\<lparr>auto_mode := True\<rparr>)
      else if a = ''--sink'' then parse_args rest (if b = ''file'' then c\<lparr>use_file_sink := True\<rparr> else c)
      else if a = ''--benchmark-id'' then parse_args rest (c\<lparr>benchmark_id := b\<rparr>)
      else parse_args (b # rest) c)"

section \<open>Launching the backup\<close>

abbreviation squote :: string where "squote \<equiv> [CHR 0x27]"

definition sqlcmd_line :: "string \<Rightarrow> string \<Rightarrow> string" where
  "sqlcmd_line device_name backup_db =
     ''cmd /c start '' @ dq @ dq @ '' /B sqlcmd -S (local) -E -d master -Q '' @ dq @ ''BACKUP DATABASE ['' @
     backup_db @ ''] TO VIRTUAL_DEVICE = N'' @ squote @ device_name @ squote @ dq @ '' -b -t 300''"

definition launch_sqlcmd :: "world \<Rightarrow> string \<Rightarrow> string \<Rightarrow> bool io" where
  "launch_sqlcmd w device_name backup_db = do {
     rc \<leftarrow> wsystem w (sqlcmd_line device_name backup_db);
     if rc \<noteq> 0
     then do {
       emit (E_cerr (''  Failed to launch sqlcmd (rc='' @ decimal_int (sint rc) @ '')'' @ nl));
       State_Monad.return False }
     else State_Monad.return True }"

definition backup_db :: string where "backup_db = ''VDIBenchmarkDB''"

definition banner :: "cli \<Rightarrow> string \<Rightarrow> string" where
  "banner c device_name =
     ''VDI C++ Wrapper'' @ nl @ ''==============='' @ nl @
     ''Device name: '' @ device_name @ nl @
     ''Device count: '' @ decimal_int 1 @ nl @
     ''Sink: '' @ (if use_file_sink c then ''FileSink'' else ''NullSink'') @ nl @
     ''Database: '' @ backup_db @ nl @
     ''Mode: '' @ (if auto_mode c then ''automated (sqlcmd)'' else ''interactive'') @ nl @ nl"

text \<open>From the connection to the wait for SQL Server: a launch that fails falls back to asking.\<close>

definition start_backup :: "world \<Rightarrow> cli \<Rightarrow> string \<Rightarrow> unit io" where
  "start_backup w c device_name = do {
     auto \<leftarrow> (if auto_mode c
       then do {
         emit (E_cout (''  Launching: BACKUP DATABASE ['' @ backup_db @ ''] TO VIRTUAL_DEVICE = N'' @
           squote @ device_name @ squote @ nl));
         launch_sqlcmd w device_name backup_db }
       else State_Monad.return False);
     if \<not> auto
     then do {
       emit (E_cout (nl @ ''========== INSTRUCTION =========='' @ nl @
         ''In SQL Server Management Studio, execute:'' @ nl @ nl));
       emit (E_wcout (''    BACKUP DATABASE ['' @ backup_db @ ''] TO VIRTUAL_DEVICE = N'' @
         squote @ device_name @ squote @ nl @ nl));
       emit (E_cout (''Press Enter after issuing the T-SQL command...'' @ nl));
       cin_get }
     else State_Monad.return () }"

section \<open>The session\<close>

datatype main_result = Exit nat | Abort \<comment> \<open>a null pointer was used\<close>

text \<open>The part before the devices are open: the exit code, or None to go on.\<close>

definition main_setup :: "world \<Rightarrow> 's sink_vtbl \<Rightarrow> cli \<Rightarrow> string \<Rightarrow> ('s, nat option) act" where
  "main_setup w vt c device_name = do {
     do_io (emit (E_cout (banner c device_name)));
     connected \<leftarrow> connect w device_name 1;
     if \<not> connected
     then do {
       do_io (emit (E_cerr (''Failed to connect.'' @ nl)));
       State_Monad.return (Some 1) }
     else do {
       do_io (start_backup w c device_name);
       opened \<leftarrow> open_devices w;
       if \<not> opened
       then do {
         do_io (emit (E_cerr (''Failed to open devices.'' @ nl)));
         close w vt;
         State_Monad.return (Some 1) }
       else do {
         do_io (emit (E_cout (nl @ ''VDI device open and ready. Data transfer starting...'' @ nl @ nl)));
         State_Monad.return None } } }"

definition main_session :: "world \<Rightarrow> 's sink_vtbl \<Rightarrow> cli \<Rightarrow> string \<Rightarrow> 's sys \<Rightarrow> (main_result \<times> 's sys) option" where
  "main_session w vt c device_name s =
     (case run_state (main_setup w vt c device_name) s of
        (Some code, s) \<Rightarrow> Some (Exit code, s)
      | (None, s) \<Rightarrow> (case process_commands w vt s of
            None \<Rightarrow> None
          | Some (Crashed, s) \<Rightarrow> Some (Abort, s)
          | Some (Returned, s) \<Rightarrow> Some (Exit 0, snd (run_state (close w vt) s))))"

text \<open>The client's construction on a sink, the session, and the client's destruction on return.\<close>

definition run_client :: "world \<Rightarrow> 's sink_vtbl \<Rightarrow> 's \<Rightarrow> cli \<Rightarrow> string \<Rightarrow> history \<Rightarrow> (main_result \<times> 's sys) option" where
  "run_client w vt sink c device_name h =
     (case run_state (new_VdiClient w (Some sink) False Chrono) h of (client, h) \<Rightarrow>
        (case main_session w vt c device_name \<lparr>cl = client, hist = h\<rparr> of
           None \<Rightarrow> None
         | Some (Abort, s) \<Rightarrow> Some (Abort, s)
         | Some (Exit code, s) \<Rightarrow> Some (Exit code, snd (run_state (VdiClient_dtor w vt) s))))"

text \<open>The two ways a client exits: before the devices are open, or after the command loop.\<close>

lemma run_client_cases:
  assumes "run_client w vt sink c nm h = Some (Exit n, s')"
  obtains (early) client h1 s1 where "run_state (new_VdiClient w (Some sink) False Chrono) h = (client, h1)"
      "run_state (main_setup w vt c nm) \<lparr>cl = client, hist = h1\<rparr> = (Some n, s1)"
      "s' = snd (run_state (VdiClient_dtor w vt) s1)"
  | (ran) client h1 s1 t where "run_state (new_VdiClient w (Some sink) False Chrono) h = (client, h1)"
      "run_state (main_setup w vt c nm) \<lparr>cl = client, hist = h1\<rparr> = (None, s1)"
      "process_commands w vt s1 = Some (Returned, t)" "n = 0"
      "s' = snd (run_state (VdiClient_dtor w vt) (snd (run_state (close w vt) t)))"
  using assms
  by (auto simp: run_client_def main_session_def split: prod.splits option.splits main_result.splits outcome.splits)

definition virtual_device_name :: "u32 \<Rightarrow> string" where
  "virtual_device_name pid = ''VDI_Device_'' @ decimal (unat pid)"

text \<open>A process that starts with nothing done; \<open>args\<close> are the arguments after the program's name.\<close>

definition main :: "world \<Rightarrow> string list \<Rightarrow> (main_result \<times> history) option" where
  "main w args =
     (let c = parse_args args default_cli in
      case run_state (GetCurrentProcessId w) [] of (pid, h) \<Rightarrow>
        if use_file_sink c
        then (case run_state (new_FileSink w ''backup_stream.bin'') h of (sink, h) \<Rightarrow>
                map_option (apsnd hist) (run_client w (file_vtbl w) sink c (virtual_device_name pid) h))
        else map_option (apsnd hist) (run_client w null_vtbl () c (virtual_device_name pid) h))"

section \<open>What the command line means\<close>

text \<open>
  The reference: the arguments are cut into options, an option that takes a value into one token
  with it; a token that is none of the three options means nothing.
\<close>

datatype token = Auto | Sink_Name string | Benchmark string | Other string

fun tokens :: "string list \<Rightarrow> token list" where
  "tokens [] = []"
| "tokens (a # rest) =
     (if a = ''--auto'' then Auto # tokens rest
      else case rest of
        [] \<Rightarrow> [Other a]
      | b # rest' \<Rightarrow>
          if a = ''--sink'' then Sink_Name b # tokens rest'
          else if a = ''--benchmark-id'' then Benchmark b # tokens rest'
          else Other a # tokens rest)"

definition benchmarks :: "token list \<Rightarrow> string list" where
  "benchmarks ts = List.map_filter (\<lambda>t. case t of Benchmark b \<Rightarrow> Some b | _ \<Rightarrow> None) ts"

lemma benchmarks_simps [simp]:
  "benchmarks [] = []" "benchmarks (Auto # ts) = benchmarks ts"
  "benchmarks (Sink_Name s # ts) = benchmarks ts" "benchmarks (Other s # ts) = benchmarks ts"
  "benchmarks (Benchmark b # ts) = b # benchmarks ts"
  by (simp_all add: benchmarks_def)

lemma parse_args_tokens:
  "parse_args args c = \<lparr>use_file_sink = use_file_sink c \<or> Sink_Name ''file'' \<in> set (tokens args),
     auto_mode = auto_mode c \<or> Auto \<in> set (tokens args),
     benchmark_id = last (benchmark_id c # benchmarks (tokens args))\<rparr>"
  by (induction args c rule: parse_args.induct) auto

text \<open>
  C35. The command line means: the automatic mode and the file sink are on when their option occurs
  somewhere, a later \<open>--sink null\<close> does not take the file sink back, the last benchmark id counts,
  and a value is never taken for an option.
\<close>

theorem command_line_meaning:
  "parse_args args default_cli =
     \<lparr>use_file_sink = (Sink_Name ''file'' \<in> set (tokens args)), auto_mode = (Auto \<in> set (tokens args)),
      benchmark_id = last (''default_run'' # benchmarks (tokens args))\<rparr>"
  by (simp add: parse_args_tokens default_cli_def)

end
