(* ===== verification/Data_Flow.thy ===== *)
theory Data_Flow
  imports Accounting
begin

text \<open>
  The data on its way through the client. The reference is \<open>accepted_data\<close>, the payloads of the
  acceptable write commands in the history. The locale \<open>sink_relation\<close> takes a relation between the data
  handed to a sink and the sink with its file, kept by the sink's methods, and shows that every
  session keeps it for \<open>accepted_data\<close>: the client hands over every accepted block once and in order.
  What then holds of the file depends on the relation the sink supports.
\<close>

section \<open>The data SQL Server asked to write\<close>

text \<open>The data of the write commands the protocol rules allow; a refused one carries none.\<close>

definition accepted_data :: "history \<Rightarrow> u8 list" where
  "accepted_data h = concat (map payload (filter write_acceptable (received_writes h)))"

definition accepted_part :: "vdc_command option \<Rightarrow> u8 list" where
  "accepted_part c = concat (map payload (filter write_acceptable (writes_of c)))"

lemma accepted_part_simps [simp]:
  "accepted_part None = []" "commandCode cmd \<noteq> VDC_Write \<Longrightarrow> accepted_part (Some cmd) = []"
  "commandCode cmd = VDC_Write \<Longrightarrow>
    accepted_part (Some cmd) = (if write_acceptable cmd then payload cmd else [])"
  by (simp_all add: accepted_part_def writes_of_def)

lemma accepted_data_outer: "outer h h' \<Longrightarrow> accepted_data h' = accepted_data h"
  by (simp add: accepted_data_def received_writes_outer)

lemmas accepted_data_quiet = outer_of(1) [THEN accepted_data_outer]
lemmas accepted_data_sink = outer_of(2) [THEN accepted_data_outer]

lemma received_accepted_data:
  "received w d s hr c c1 h \<Longrightarrow>
   accepted_data h = accepted_data (hist s) @ (if hr_failed hr then [] else accepted_part c)"
  by (auto simp: accepted_data_def accepted_part_def dest!: received_received_writes)

lemma completed_accepted_data: "completed w d cmd h hr h' \<Longrightarrow> accepted_data h' = accepted_data h"
  by (auto simp: accepted_data_def dest!: completed_received_writes)

section \<open>A relation between the data and the sink\<close>

locale sink_relation = sink_contract vt for vt :: "'s sink_vtbl" +
  fixes R :: "u8 list \<Rightarrow> 's \<Rightarrow> history \<Rightarrow> bool"
  assumes R_other: "\<not> is_sink_event e \<Longrightarrow> R D sk h \<Longrightarrow> R D sk (e # h)"
    and R_write: "R D sk h \<Longrightarrow> vt_is_open vt sk \<Longrightarrow> unat n < 2 ^ 32 \<Longrightarrow>
      wp (vt_write vt data n) (\<lambda>_ s'. R (D @ bytes_at data (unat n)) (fst s') (snd s')) (sk, h)"
    and R_flush: "R D sk h \<Longrightarrow> wp (vt_flush vt) (\<lambda>_ s'. R D (fst s') (snd s')) (sk, h)"
    and R_closed: "R D sk h \<Longrightarrow> \<not> vt_is_open vt sk \<Longrightarrow> R (D @ bs) sk h"
begin

definition related :: "'s option \<Rightarrow> history \<Rightarrow> bool" where
  "related m h \<longleftrightarrow> (\<exists>sk. m = Some sk \<and> R (accepted_data h) sk h)"

lemma related_None [simp]: "\<not> related None h"
  by (simp add: related_def)

lemma R_nonsink:
  assumes "nonsink h h'" "R D sk h"
  shows "R D sk h'"
proof -
  obtain es where es: "h' = es @ h" "list_all (\<lambda>e. \<not> is_sink_event e) es"
    using assms(1) by (auto simp: extends_def)
  from es(2) have "R D sk (es @ h)" by (induction es) (simp_all add: assms(2) R_other)
  with es(1) show ?thesis by simp
qed

lemma related_aside: "related m h \<Longrightarrow> aside h h' \<Longrightarrow> related m h'"
  by (auto simp: related_def accepted_data_outer dest!: aside_split intro: R_nonsink)

lemma related_quiet: "quiet h h' \<Longrightarrow> related m h \<Longrightarrow> related m h'"
  by (blast intro: related_aside aside_of)

lemma related_completed: "completed w d cmd h hr h' \<Longrightarrow> related m h \<Longrightarrow> related m h'"
  by (auto simp: related_def completed_accepted_data dest!: completed_nonsink intro: R_nonsink)

lemma related_flush:
  "related (Some sk) h \<Longrightarrow> run_state (vt_flush vt) (sk, h) = (u, sk', h') \<Longrightarrow> related (Some sk') h'"
  using wpD [OF R_flush] wpD [OF flush_frame] by (fastforce simp: related_def dest: accepted_data_sink)

text \<open>Nothing that was received is to be written, or it has been handed to the sink.\<close>

lemma related_idle:
  assumes "received w d s hr c c1 h" "related (m_sink (cl s)) (hist s)" "hr_failed hr \<or> accepted_part c = []"
  shows "related (m_sink c1) h"
  using assms R_nonsink [OF received_nonsink [OF assms(1)]] received_accepted_data [OF assms(1)]
  by (auto simp: related_def m_sink_received)

lemma related_write:
  assumes "run_state (vt_write vt (cmd_memory cmd) (ucast (cmd_size cmd))) (sk, h1) = (ok, sk', h1')"
    and "received w d s hr (Some cmd) c1 h" "hr_succeeded hr" "related (m_sink (cl s)) (hist s)"
    and "commandCode cmd = VDC_Write" "write_acceptable cmd" "m_sink (cl s) = Some sk" "vt_is_open vt sk" "quiet h h1"
  shows "related (Some sk') h1'"
proof -
  have "R (accepted_data (hist s)) sk h1"
    using assms(4,7) R_nonsink [OF nonsink_of(1) [OF assms(9)]] R_nonsink [OF received_nonsink [OF assms(2)]]
    by (auto simp: related_def)
  moreover have "unat (ucast (cmd_size cmd) :: u64) < 2 ^ 32"
    using unsigned_less [of "cmd_size cmd"] by (simp add: unat_ucast_up)
  ultimately have "R (accepted_data (hist s) @ payload cmd) sk' h1'"
    using wpD [OF R_write assms(1)] assms(8) payload_block [OF assms(6)] by simp
  moreover have "accepted_data h1' = accepted_data (hist s) @ payload cmd"
    using accepted_data_sink [OF wpD [OF write_frame assms(1), simplified]] accepted_data_quiet [OF assms(9)]
      received_accepted_data [OF assms(2)] assms(3,5,6) by simp
  ultimately show ?thesis by (simp add: related_def)
qed

lemma related_served:
  assumes "served vt cmd c1 h c2 h2" "received w d s hr (Some cmd) c1 h" "hr_succeeded hr"
    and "related (m_sink (cl s)) (hist s)"
  shows "related (m_sink c2) h2"
  using assms(1)
proof cases
  case served_other
  then show ?thesis using related_idle [OF assms(2,4)] related_quiet by simp
next
  case (served_write sk h1 sk' h1')
  then have "m_sink (cl s) = Some sk" using m_sink_received [OF assms(2)] by simp
  with related_write [OF served_write(5) assms(2-4)] served_write show ?thesis by (simp add: related_quiet)
qed

lemma related_step:
  assumes "device_step w vt d s r s'" "related (m_sink (cl s)) (hist s)"
  shows "related (m_sink (cl s')) (hist s')"
  using assms(1)
proof cases
  case (graceful_end hr c c1 h sk h1 u sk' h')
  then have "hr_failed hr" by auto
  then have "related (Some sk) h1"
    using related_idle [OF graceful_end(3) assms(2)] m_sink_received [OF graceful_end(3)] graceful_end(5)
      related_quiet [OF graceful_end(7)] by simp
  from related_flush [OF this graceful_end(6)] graceful_end show ?thesis by simp
next
  case (sink_closed hr cmd c1 h sk h')
  have "R (accepted_data (hist s)) sk h"
    using assms(2) sink_closed(7) R_nonsink [OF received_nonsink [OF sink_closed(3)]] by (simp add: related_def)
  from R_closed [OF this sink_closed(8)] have "related (Some sk) h"
    using received_accepted_data [OF sink_closed(3)] by (simp add: related_def)
  then show ?thesis using sink_closed m_sink_received [OF sink_closed(3)] by (auto intro: related_quiet)
next
  case (write_failed hr cmd c1 h sk h1 sk' h1' h')
  then show ?thesis
    using related_write [OF write_failed(9,3) _ assms(2)] related_quiet [OF write_failed(11)] by simp
next
  case (complete_failed hr cmd c1 h c2 h2 hr2 h')
  then show ?thesis using related_served [OF complete_failed(5,3) _ assms(2)] related_completed by simp
next
  case (fault_injected hr cmd c1 h c2 h2 hr2 h' fi)
  then show ?thesis using related_served [OF fault_injected(5,3) _ assms(2)] related_completed by simp
next
  case (command_done hr cmd c1 h c2 h2 hr2 h' fi tm)
  then show ?thesis using related_served [OF command_done(5,3) _ assms(2)] related_completed by simp
next
  case (close_request hr cmd c1 h h')
  then have "commandCode cmd \<noteq> VDC_Write" by (simp add: VDC_defs)
  then show ?thesis using close_request related_idle [OF close_request(3) assms(2)] related_quiet by simp
qed (use assms(2) in \<open>auto dest: related_idle [OF _ assms(2)] intro: related_quiet\<close>)

end

sublocale sink_relation \<subseteq> sink_invariant vt related
  by unfold_locales (rule related_aside related_flush related_step; assumption)+

end
