(* ===== verification/End_To_End.thy ===== *)
theory End_To_End
  imports Main_Program Data_Flow
begin

text \<open>
  The program from its start to its exit: what the exit code says, what has been released, and that
  the backup file holds the data however the session ended. The locale \<open>accepting_sink\<close> adds to
  \<open>durable_sink\<close> what the last one needs: a sink that is ready takes every chunk while the system is
  healthy, and its destructor makes durable what it has stored.
\<close>

section \<open>A sink that accepts\<close>

locale accepting_sink = durable_sink vt sinv stored durable healthy
  for vt :: "'s sink_vtbl" and sinv stored durable healthy +
  fixes ready :: "'s \<Rightarrow> bool"
  assumes ready_open: "ready sk \<Longrightarrow> vt_is_open vt sk"
    and write_ready: "sinv sk \<Longrightarrow> ready sk \<Longrightarrow> unat n < 2 ^ 32 \<Longrightarrow>
      wp (vt_write vt data n) (\<lambda>ok s'. ready (fst s') \<and> (healthy (snd s') \<longrightarrow> ok)) (sk, h)"
    and flush_ready: "sinv sk \<Longrightarrow> ready sk \<Longrightarrow> wp (vt_flush vt) (\<lambda>_ s'. ready (fst s')) (sk, h)"
    and dtor_durable: "sinv sk \<Longrightarrow>
      wp (vt_dtor vt) (\<lambda>_ s'. healthy (snd s') \<longrightarrow> durable (snd s') = stored sk h) (sk, h)"

text \<open>Nothing accepted is missing: a relation such a sink supports.\<close>

context accepting_sink
begin

definition kept :: "u8 list \<Rightarrow> 's \<Rightarrow> history \<Rightarrow> bool" where
  "kept D sk h \<longleftrightarrow> sinv sk \<and> ready sk \<and> (healthy h \<longrightarrow> stored sk h = D)"

lemma kept_write:
  assumes "kept D sk h" "unat n < 2 ^ 32"
  shows "wp (vt_write vt data n) (\<lambda>_ s'. kept (D @ bytes_at data (unat n)) (fst s') (snd s')) (sk, h)"
proof -
  have sk: "sinv sk" "ready sk" "healthy h \<longrightarrow> stored sk h = D" using assms(1) by (auto simp: kept_def)
  show ?thesis
    by (rule wp_mono [OF wp_conj [OF write_frame wp_conj [OF write_spec [OF sk(1)] write_ready [OF sk(1,2) assms(2)]]]])
      (use sk in \<open>auto simp: kept_def dest: healthy_extends\<close>)
qed

lemma kept_flush:
  assumes "kept D sk h"
  shows "wp (vt_flush vt) (\<lambda>_ s'. kept D (fst s') (snd s')) (sk, h)"
proof -
  have sk: "sinv sk" "ready sk" "healthy h \<longrightarrow> stored sk h = D" using assms(1) by (auto simp: kept_def)
  show ?thesis
    by (rule wp_mono [OF wp_conj [OF flush_frame wp_conj [OF flush_spec [OF sk(1)] flush_ready [OF sk(1,2)]]]])
      (use sk in \<open>auto simp: kept_def dest: healthy_extends\<close>)
qed

end

sublocale accepting_sink \<subseteq> sink_relation vt kept
  by unfold_locales (auto simp: kept_write kept_flush, auto simp: kept_def other_event ready_open)

section \<open>Around the command loop\<close>

lemma new_ComRuntime_aside: "wp (new_ComRuntime w) (\<lambda>_ h'. aside h h') h"
  unfolding new_ComRuntime_def CoInitializeEx_def
  by (intro wp_intros) (erule aside_back | rule extends_Cons | simp)+

lemma ComRuntime_dtor_aside: "wp (ComRuntime_dtor com) (\<lambda>_ h'. aside h h') h"
  unfolding ComRuntime_dtor_def CoUninitialize_def by (intro wp_intros) simp_all

lemma connect_aside:
  "wp (connect w nm n) (\<lambda>_ s'. aside (hist s) (hist s') \<and> m_sink (cl s') = m_sink (cl s)) s"
proof -
  have set: "wp (connect_device_set w nm n)
      (\<lambda>_ s'. aside (hist s) (hist s') \<and> m_sink (cl s') = m_sink (cl s)) s" for s :: "'a sys"
    unfolding connect_device_set_def CreateEx_def SetRelease_def
    by (intro wp_intros wp_CoCreateInstance; simp) (erule aside_back | rule extends_Cons | simp)+
  show ?thesis
    unfolding connect_def
    by (intro wp_intros wp_mono [OF new_ComRuntime_aside] wp_mono [OF set] wp_mono [OF ComRuntime_dtor_aside]; simp)
      (erule aside_back | elim conjE | rule conjI | rule extends_Cons | simp)+
qed

lemma open_devices_aside:
  "wp (open_devices w) (\<lambda>_ s'. aside (hist s) (hist s') \<and> m_sink (cl s') = m_sink (cl s)) s"
  unfolding open_devices_def GetConfiguration_def log_server_config_def
  by (intro wp_intros; simp split: prod.splits)
    (erule aside_back | rule conjI | rule extends_Cons | simp)+

lemma start_backup_aside: "wp (start_backup w c nm) (\<lambda>_ h'. aside h h') h"
  unfolding start_backup_def launch_sqlcmd_def wsystem_def cin_get_def
  by (intro wp_intros) simp_all

text \<open>A fact that \<open>sink_invariant\<close> carries holds until the client is destroyed.\<close>

lemma new_client_aside:
  "wp (new_VdiClient w sink lg Chrono) (\<lambda>c h'. aside h h' \<and> m_sink c = sink) h"
  unfolding new_VdiClient_def create_timer_def new_ChronoTimer_def new_Metrics_def steady_clock_now_def
  by (auto intro!: wp_intros)

context sink_invariant
begin

lemma main_setup_carries: "carried s \<Longrightarrow> wp (main_setup w vt c nm) (\<lambda>_. carried) s"
  unfolding main_setup_def
  by (intro wp_intros wp_mono [OF connect_aside] wp_mono [OF start_backup_aside] wp_mono [OF open_devices_aside]
      wp_mono [OF close_carries]; (elim conjE)?)
    (auto elim!: K_back(1) dest!: aside_head intro: extends_trans intro!: K_back(4))

text \<open>The destructor of the client closes, then destroys the sink; \<open>P\<close> is what that leaves of the fact.\<close>

lemma VdiClient_dtor_carries:
  assumes "carried s" "\<And>h. K None h \<Longrightarrow> P h"
    and dtor: "\<And>sk h u sk' h'. K (Some sk) h \<Longrightarrow> run_state (vt_dtor vt) (sk, h) = (u, sk', h') \<Longrightarrow> P h'"
  shows "wp (VdiClient_dtor w vt) (\<lambda>_ s'. P (hist s')) s"
proof -
  have sink: "wp (case m_sink (cl t) of None \<Rightarrow> State_Monad.return () | Some sk \<Rightarrow> on_sink sk (vt_dtor vt))
      (\<lambda>_ s'. P (hist s')) t" if "carried t" for t
    using that by (intro wp_intros) (auto intro: assms(2) dtor)
  show ?thesis
    unfolding VdiClient_dtor_def
    by (intro wp_bind wp_gets wp_if wp_do_io wp_LOG_WARN wp_return wp_mono [OF close_carries] sink)
      (use assms(1) in \<open>auto intro: K_back\<close>)
qed

lemma run_client_carries:
  assumes "run_client w vt sk c nm h = Some (Exit n, s')" "K (Some sk) h" "\<And>h. K None h \<Longrightarrow> P h"
    and "\<And>sk h u sk' h'. K (Some sk) h \<Longrightarrow> run_state (vt_dtor vt) (sk, h) = (u, sk', h') \<Longrightarrow> P h'"
  shows "P (hist s')"
proof -
  have start: "carried \<lparr>cl = client, hist = h1\<rparr>"
    if "run_state (new_VdiClient w (Some sk) False Chrono) h = (client, h1)" for client h1
    using wpD [OF new_client_aside that] assms(2) K_aside by auto
  have dtor: "P (hist (snd (run_state (VdiClient_dtor w vt) t)))" if "carried t" for t
    using VdiClient_dtor_carries [OF that assms(3,4)] by (simp add: wp_snd)
  from assms(1) show ?thesis
  proof (cases rule: run_client_cases)
    case (early client h1 s1)
    with dtor wpD [OF main_setup_carries [OF start [OF early(1)]] early(2)] show ?thesis by blast
  next
    case (ran client h1 s1 t)
    have "carried (snd (run_state (close w vt) t))"
      using close_carries [OF process_commands_carries [OF ran(3)
        wpD [OF main_setup_carries [OF start [OF ran(1)]] ran(2)]]]
      by (simp add: wp_snd)
    with dtor ran(5) show ?thesis by blast
  qed
qed

end

context sink_relation
begin

lemma run_client_related:
  assumes "run_client w vt sk c nm h = Some (Exit n, s')" "R (accepted_data h) sk h"
    and "\<And>D sk h u sk' h'. R D sk h \<Longrightarrow> run_state (vt_dtor vt) (sk, h) = (u, sk', h') \<Longrightarrow> P D h'"
  shows "P (accepted_data (hist s')) (hist s')"
proof (rule run_client_carries [OF assms(1)])
  show "P (accepted_data h') h'" if "related (Some sk) h" "run_state (vt_dtor vt) (sk, h) = (u, sk', h')" for sk h u sk' h'
    using that assms(3) [of "accepted_data h" sk h u sk' h'] accepted_data_sink [OF wpD [OF dtor_frame that(2), simplified]]
    by (simp add: related_def)
qed (use assms(2) in \<open>simp_all add: related_def\<close>)

end

context accepting_sink
begin

lemma run_client_keeps:
  assumes "run_client w vt sk c nm h = Some (Exit n, s')"
    and "sinv sk" "ready sk" "healthy h \<longrightarrow> stored sk h = accepted_data h" "healthy (hist s')"
  shows "durable (hist s') = accepted_data (hist s')"
proof -
  have "healthy (hist s') \<longrightarrow> durable (hist s') = accepted_data (hist s')"
  proof (rule run_client_related [OF assms(1), where P = "\<lambda>D h. healthy h \<longrightarrow> durable h = D"])
    show "kept (accepted_data h) sk h" using assms(2-4) by (simp add: kept_def)
    show "healthy h' \<longrightarrow> durable h' = D" if "kept D sk h" "run_state (vt_dtor vt) (sk, h) = (u, sk', h')"
      for D sk h u sk' h'
      using that wpD [OF dtor_durable that(2)] wpD [OF dtor_frame that(2)] healthy_extends by (auto simp: kept_def)
  qed
  with assms(5) show ?thesis by simp
qed

end

section \<open>FileSink accepts\<close>

definition file_ready :: "file_sink \<Rightarrow> bool" where
  "file_ready fs \<longleftrightarrow> m_file_handle fs = Handle \<and> m_write_buffer fs \<noteq> None"

lemma flush_buffer_ready:
  "file_ready fs \<Longrightarrow> wp (flush_buffer w) (\<lambda>_ s'. file_ready (fst s')) (fs, h)"
  unfolding flush_buffer_def WriteFile_def by (intro wp_intros) (auto simp: file_ready_def)

lemma write_direct_ready:
  assumes "file_ready fs" "unat n < 2 ^ 32"
  shows "wp (write_direct w data n) (\<lambda>ok s'. file_ready (fst s') \<and> (os_ok (snd s') \<longrightarrow> ok)) (fs, h)"
proof -
  have "ucast k = n" if "unat k = unat (ucast n :: u32)" for k :: u32
  proof -
    have "unat (ucast k :: u64) = unat n"
      using that unat_ucast_down [OF assms(2)] by (simp add: unat_ucast_up)
    then show ?thesis by (simp add: word_unat_eq_iff)
  qed
  then show ?thesis
    unfolding write_direct_def WriteFile_def using assms(1) by (intro wp_intros) auto
qed

lemma file_write_ready:
  assumes "file_ready fs" "unat n < 2 ^ 32"
  shows "wp (file_write w data n) (\<lambda>ok s'. file_ready (fst s') \<and> (os_ok (snd s') \<longrightarrow> ok)) (fs, h)"
proof -
  have direct: "wp (write_direct w data n) (\<lambda>ok s'. file_ready (fst s') \<and> (os_ok (snd s') \<longrightarrow> ok)) s"
    if "file_ready (fst s)" for s
    using write_direct_ready [OF that assms(2), of w data "snd s"] by simp
  have flush: "wp (flush_buffer w) (\<lambda>_. Q) (fs, h)" if "\<And>s. file_ready (fst s) \<Longrightarrow> Q s" for Q
    by (rule wp_mono [OF flush_buffer_ready [OF assms(1)]]) (rule that)
  have append: "wp (State_Monad.bind (on_object (append_to_buffer data n)) (\<lambda>_. State_Monad.return True))
      (\<lambda>ok s'. file_ready (fst s') \<and> (os_ok (snd s') \<longrightarrow> ok)) s" if "file_ready (fst s)" for s
    using that by (cases s) (simp add: wp_def on_object_def file_ready_def append_to_buffer_def)
  show ?thesis
    unfolding file_write_def
  proof (intro wp_bind [of "gets fst"] wp_gets wp_if, simp_all only: fst_conv, goal_cases)
    case 1
    then show ?case using assms(1) by (auto simp: file_ready_def)
  next
    case 2
    show ?case using assms(1) by (intro wp_bind wp_if flush direct wp_return) simp_all
  next
    case 3
    show ?case by (rule wp_bind) (intro wp_if flush append wp_return, simp_all add: assms(1))
  qed
qed

lemma file_dtor_durable:
  assumes "file_inv fs"
  shows "wp (file_dtor w) (\<lambda>_ s'. os_ok (snd s') \<longrightarrow> file_bytes (snd s') = file_stored fs h) (fs, h)"
  unfolding file_dtor_def
  by (intro wp_intros wp_mono [OF flush_buffer_spec [OF assms]]) (auto intro!: wp_intros)

interpretation faccept: accepting_sink "file_vtbl w" file_inv file_stored file_bytes os_ok file_ready for w
proof unfold_locales
  show "wp (vt_write (file_vtbl w) data n) (\<lambda>ok s'. file_ready (fst s') \<and> (os_ok (snd s') \<longrightarrow> ok)) (sk, h)"
    if "file_inv sk" "file_ready sk" "unat n < 2 ^ 32" for sk data n h
    using file_write_ready [OF that(2,3)] by simp
  show "wp (vt_flush (file_vtbl w)) (\<lambda>_ s'. file_ready (fst s')) (sk, h)"
    if "file_inv sk" "file_ready sk" for sk h
    unfolding vt_file file_flush_def
    by (intro wp_intros wp_mono [OF flush_buffer_ready [OF that(2)]]) (auto intro!: wp_intros)
  show "wp (vt_dtor (file_vtbl w)) (\<lambda>_ s'. os_ok (snd s') \<longrightarrow> file_bytes (snd s') = file_stored sk h) (sk, h)"
    if "file_inv sk" for sk h
    using file_dtor_durable [OF that] by simp
qed (simp add: file_ready_def file_is_open_def)

section \<open>The data at the exit\<close>

lemma new_FileSink_spec:
  "wp (new_FileSink w path)
    (\<lambda>fs h'. extends is_sink_event h h' \<and> file_inv fs \<and> m_buffered_bytes fs = 0 \<and> file_bytes h' = file_bytes h \<and>
      (os_ok h' = os_ok h) \<and>
      ((\<forall>h. 0 < sint (r_MultiByteToWideChar w h path) \<and> r_CreateFileW w h path \<and> r_aligned_malloc w h WRITE_BUFFER_SIZE)
        \<longrightarrow> file_ready fs)) h"
  by (simp add: new_FileSink_def MultiByteToWideChar_def CreateFileW_def aligned_malloc_def wp_def
      file_inv_def file_ready_def) (meson not_le)

text \<open>The file sink has its file and its buffer.\<close>

definition file_created :: "world \<Rightarrow> bool" where
  "file_created w \<longleftrightarrow> (\<forall>h. 0 < sint (r_MultiByteToWideChar w h ''backup_stream.bin'') \<and>
     r_CreateFileW w h ''backup_stream.bin'' \<and> r_aligned_malloc w h WRITE_BUFFER_SIZE)"

lemma main_file:
  assumes "main w args = Some (r, h')" "use_file_sink (parse_args args default_cli)"
  obtains fs h nm s' where "extends is_sink_event [E_GetCurrentProcessId (r_GetCurrentProcessId w [])] h"
    "file_inv fs" "m_buffered_bytes fs = 0" "file_bytes h = []" "os_ok h" "file_created w \<longrightarrow> file_ready fs"
    "run_client w (file_vtbl w) fs (parse_args args default_cli) nm h = Some (r, s')" "h' = hist s'"
proof -
  let ?h0 = "[E_GetCurrentProcessId (r_GetCurrentProcessId w [])]"
  obtain fs h where new: "run_state (new_FileSink w ''backup_stream.bin'') ?h0 = (fs, h)" by fastforce
  from wpD [OF new_FileSink_spec new] assms new show thesis
    by (auto simp: main_def GetCurrentProcessId_def file_created_def Let_def intro!: that)
qed

text \<open>
  C3. The file is the backup, end to end. Run with the file sink, when the file and its buffer could
  be created: whenever the program exits, with whatever code and however the session ended (closed by
  SQL Server, closed by a command, a protocol error, an injected fault), the bytes in the file are
  the payloads of all the acceptable write commands received, in order, provided every WriteFile
  wrote what it was given. What the end of the loop did not flush, \<open>close\<close> or the destructors do.
\<close>

theorem main_backup_complete:
  assumes "main w args = Some (Exit n, h')" "Sink_Name ''file'' \<in> set (tokens args)"
    and "file_created w" "os_ok h'"
  shows "file_bytes h' = concat (map payload (filter write_acceptable (received_writes h')))"
proof -
  have "use_file_sink (parse_args args default_cli)"
    using assms(2) by (simp add: parse_args_tokens)
  from assms(1) this show ?thesis
  proof (rule main_file)
    fix fs h nm and s' :: "file_sink sys"
    assume h: "extends is_sink_event [E_GetCurrentProcessId (r_GetCurrentProcessId w [])] h"
      and fs: "file_inv fs" "m_buffered_bytes fs = 0" "file_bytes h = []" "file_created w \<longrightarrow> file_ready fs"
      and run: "run_client w (file_vtbl w) fs (parse_args args default_cli) nm h = Some (Exit n, s')" "h' = hist s'"
    have "accepted_data h = []"
      using accepted_data_sink [OF h] by (simp add: accepted_data_def)
    then show ?thesis
      using faccept.run_client_keeps [OF run(1) fs(1)] fs assms(3,4) run(2)
      by (simp add: file_stored_def buffered_data_0 accepted_data_def)
  qed
qed

section \<open>Termination, and a run to look at\<close>

lemma new_client_sink: "run_state (new_VdiClient w (Some sk) lg md) h = (c, h') \<Longrightarrow> m_sink c = Some sk"
  by (drule wpD [OF new_VdiClient_spec]) simp

lemma close_sink_some: "m_sink (cl s) \<noteq> None \<Longrightarrow> wp (close w vt) (\<lambda>_ s'. m_sink (cl s') \<noteq> None) s"
  unfolding close_def flush_before_close_def close_device_set_def SetClose_def SetRelease_def
  by (intro wp_intros) auto

lemma main_setup_sink: "m_sink (cl s) \<noteq> None \<Longrightarrow> wp (main_setup w vt c nm) (\<lambda>_ s'. m_sink (cl s') \<noteq> None) s"
  unfolding main_setup_def
  by (intro wp_intros wp_mono [OF connect_aside] wp_mono [OF start_backup_aside] wp_mono [OF open_devices_aside]
      wp_mono [OF close_sink_some]; (elim conjE)?) auto

lemma main_session_returns:
  assumes "sink_contract vt" "closes_after k w" "m_sink (cl s) \<noteq> None"
  shows "\<exists>n s'. main_session w vt c nm s = Some (Exit n, s')"
proof -
  obtain x s1 where x: "run_state (main_setup w vt c nm) s = (x, s1)" by fastforce
  have "m_sink (cl s1) \<noteq> None" by (rule wpD [OF main_setup_sink [OF assms(3)] x])
  from process_commands_returns [OF assms(1,2) this] x show ?thesis
    by (auto simp: main_session_def split: option.splits)
qed

lemma run_client_returns:
  assumes "sink_contract vt" "closes_after k w"
  shows "\<exists>n s'. run_client w vt sk c nm h = Some (Exit n, s')"
proof -
  obtain client h1 where new: "run_state (new_VdiClient w (Some sk) False Chrono) h = (client, h1)" by fastforce
  have "m_sink (cl \<lparr>cl = client, hist = h1\<rparr>) \<noteq> None" using new_client_sink [OF new] by simp
  from main_session_returns [OF assms this, of c nm] new show ?thesis by (auto simp: run_client_def)
qed

lemma main_returns:
  assumes "closes_after k w"
  shows "\<exists>n h'. main w args = Some (Exit n, h')"
  using run_client_returns [OF file_frame.sink_contract_axioms assms]
    run_client_returns [OF null.sink_contract_axioms assms]
  by (fastforce simp: main_def Let_def split: prod.splits)

text \<open>A disk that writes what it is asked to keeps the history of WriteFile calls in order.\<close>

context accepting_sink
begin

lemma run_client_well:
  assumes "run_client w vt sk c nm h = Some (Exit n, s')" reliable "sinv sk" "healthy h"
    and "\<And>sk h u sk' h'. sinv sk \<Longrightarrow> healthy h \<Longrightarrow> run_state (vt_dtor vt) (sk, h) = (u, sk', h') \<Longrightarrow> healthy h'"
  shows "healthy (hist s')"
  by (rule sink_invariant.run_client_carries [OF reliable_well [OF assms(2)] assms(1)])
    (use assms(3,4) in \<open>auto simp: well_def intro: assms(5)\<close>)

end

lemma file_dtor_disk_ok:
  assumes "disk_ok w" "os_ok h" "run_state (file_dtor w) (fs, h) = (u, fs', h')"
  shows "os_ok h'"
proof -
  have "wp (file_dtor w) (\<lambda>_ s'. os_ok (snd s')) (fs, h)"
    unfolding file_dtor_def
    by (intro wp_intros wp_mono [OF flush_buffer_disk_ok [OF assms(1,2)]]) (auto intro!: wp_intros)
  from wpD [OF this assms(3)] show ?thesis by simp
qed

lemma main_disk_ok:
  assumes "main w args = Some (Exit n, h')" "use_file_sink (parse_args args default_cli)" "disk_ok w" "file_created w"
  shows "os_ok h'"
  using assms(1,2)
proof (rule main_file)
  fix fs h nm and s' :: "file_sink sys"
  assume "file_inv fs" "os_ok h"
    and run: "run_client w (file_vtbl w) fs (parse_args args default_cli) nm h = Some (Exit n, s')" "h' = hist s'"
  then show ?thesis
    using faccept.run_client_well [OF run(1) disk_ok_reliable [OF assms(3)]] file_dtor_disk_ok [OF assms(3)] by simp
qed

theorem main_backup_complete_witness:
  "\<exists>n h'. main (one_write_world True) [''--sink'', ''file''] = Some (Exit n, h') \<and>
     file_bytes h' = concat (map payload (filter write_acceptable (received_writes h')))"
proof -
  let ?w = "one_write_world True"
  have "closes_after 1 ?w" by (simp add: closes_after_def ow VD_E_defs hr_failed_def)
  then obtain n h' where main: "main ?w [''--sink'', ''file''] = Some (Exit n, h')" using main_returns by blast
  have created: "file_created ?w"
    by (simp add: file_created_def one_write_world_def calm_world_def)
  have "disk_ok ?w" by (simp add: disk_ok_def ow)
  then have "os_ok h'" using main_disk_ok [OF main _ _ created] by simp
  from main_backup_complete [OF main _ created this] main show ?thesis by auto
qed

end
