(* ===== verification/Exit_Status.thy ===== *)
theory Exit_Status
  imports End_To_End
begin

text \<open>
  What is true when the program exits: what its exit code means, that the device set and the devices
  are released, and that it exits at all once SQL Server reports an end.
\<close>

section \<open>The exit code\<close>

text \<open>SQL Server has connected: some GetConfiguration succeeded.\<close>

fun sql_connected :: "history \<Rightarrow> bool" where
  "sql_connected [] = False"
| "sql_connected (E_GetConfiguration ds t hr cfg # h) \<longleftrightarrow> \<not> hr_failed hr \<or> sql_connected h"
| "sql_connected (_ # h) = sql_connected h"

text \<open>Events that neither connect nor open or release a device.\<close>

fun is_modest :: "event \<Rightarrow> bool" where
  "is_modest (E_GetConfiguration _ _ _ _) = False"
| "is_modest (E_OpenDevice _ _ _ _) = False"
| "is_modest (E_DeviceRelease _) = False"
| "is_modest _ = True"

abbreviation modest :: "history \<Rightarrow> history \<Rightarrow> bool" where
  "modest \<equiv> extends is_modest"

lemma modest_same: "modest h h' \<Longrightarrow> sql_connected h' = sql_connected h \<and> device_refs h' = device_refs h"
proof -
  have e: "sql_connected (e # h) = sql_connected h" "device_refs (e # h) = device_refs h" if "is_modest e" for e h
    using that by (cases e, simp_all)+
  show "modest h h' \<Longrightarrow> ?thesis"
    using extends_same [of is_modest h h' sql_connected] extends_same [of is_modest h h' device_refs] e by blast
qed

lemma connected_extends: "extends P h h' \<Longrightarrow> sql_connected h \<Longrightarrow> sql_connected h'"
proof -
  have "sql_connected h \<Longrightarrow> sql_connected (e # h)" for e h by (cases e) simp_all
  then have "sql_connected h \<Longrightarrow> sql_connected (es @ h)" for es by (induction es) simp_all
  then show "extends P h h' \<Longrightarrow> sql_connected h \<Longrightarrow> sql_connected h'" by (auto simp: extends_def)
qed

lemma modest_of:
  "extends is_log h h' \<Longrightarrow> modest h h'" "extends is_sink_event h h' \<Longrightarrow> modest h h'"
proof -
  have "is_log e \<Longrightarrow> is_modest e" "is_sink_event e \<Longrightarrow> is_modest e" for e by (cases e; simp)+
  then show "extends is_log h h' \<Longrightarrow> modest h h'" "extends is_sink_event h h' \<Longrightarrow> modest h h'"
    by (auto elim: extends_mono)
qed

lemma modest_back: "extends is_log h h' \<Longrightarrow> modest h0 h \<Longrightarrow> modest h0 h'" "modest h h' \<Longrightarrow> modest h0 h \<Longrightarrow> modest h0 h'"
  by (blast intro: modest_of extends_trans)+

lemma connect_modest: "wp (connect w nm n) (\<lambda>_ s'. modest (hist s) (hist s')) s"
proof -
  have new: "wp (new_ComRuntime w) (\<lambda>_ h'. modest h h') h" for h
    unfolding new_ComRuntime_def CoInitializeEx_def
    by (intro wp_intros) (erule modest_back | rule extends_Cons | simp)+
  have dtor: "wp (ComRuntime_dtor com) (\<lambda>_ h'. modest h h') h" for com h
    unfolding ComRuntime_dtor_def CoUninitialize_def by (intro wp_intros) simp_all
  have set: "wp (connect_device_set w nm n) (\<lambda>_ s'. modest (hist s) (hist s')) s" for s :: "'a sys"
    unfolding connect_device_set_def CreateEx_def SetRelease_def
    by (intro wp_intros wp_CoCreateInstance; simp) (erule modest_back | rule extends_Cons | simp)+
  show ?thesis
    unfolding connect_def
    by (intro wp_intros wp_mono [OF new] wp_mono [OF set] wp_mono [OF dtor]; simp)
      (erule modest_back | rule extends_Cons | simp)+
qed

lemma open_devices_connected:
  "wp (open_devices w) (\<lambda>ok s'. sql_connected (hist s') = (ok \<or> sql_connected (hist s)) \<and>
     device_refs (hist s') = device_refs (hist s)) s"
  unfolding open_devices_def GetConfiguration_def log_server_config_def
  by (intro wp_intros) (auto dest!: modest_of modest_same split: prod.splits)

lemma start_backup_modest: "wp (start_backup w c nm) (\<lambda>_ h'. modest h h') h"
  unfolding start_backup_def launch_sqlcmd_def wsystem_def cin_get_def
  by (intro wp_intros) simp_all

context sink_contract
begin

lemma close_modest: "wp (close w vt) (\<lambda>_ s'. modest (hist s) (hist s')) s"
proof -
  have flush: "run_state (vt_flush vt) (sk, h) = (u, sk', h') \<Longrightarrow> modest h h'" for sk h u sk' h'
    by (drule wpD [OF flush_frame]) (simp add: modest_of)
  show ?thesis
    unfolding close_def flush_before_close_def close_device_set_def SetClose_def SetRelease_def
    by (intro wp_intros; simp) (drule flush | erule modest_back | rule extends_Cons | simp)+
qed

lemma VdiClient_dtor_modest: "wp (VdiClient_dtor w vt) (\<lambda>_ s'. modest (hist s) (hist s')) s"
proof -
  have dtor: "run_state (vt_dtor vt) (sk, h) = (u, sk', h') \<Longrightarrow> modest h h'" for sk h u sk' h'
    by (drule wpD [OF dtor_frame]) (simp add: modest_of)
  show ?thesis
    unfolding VdiClient_dtor_def
    by (intro wp_intros wp_mono [OF close_modest]; simp) (drule dtor | erule modest_back | rule extends_Cons | simp)+
qed

lemma device_step_connected: "device_step w vt d s r s' \<Longrightarrow> sql_connected (hist s) \<Longrightarrow> sql_connected (hist s')"
proof -
  have grow: "extends P h h' \<Longrightarrow> sql_connected h \<longrightarrow> sql_connected h'" for P h h'
    using connected_extends by blast
  have flush: "run_state (vt_flush vt) (sk, h) = (u, sk', h') \<Longrightarrow> sql_connected h \<longrightarrow> sql_connected h'" for sk h u sk' h'
    by (drule wpD [OF flush_frame]) (simp add: grow)
  have writes: "run_state (vt_write vt data n) (sk, h) = (ok, sk', h') \<Longrightarrow> sql_connected h \<longrightarrow> sql_connected h'"
    for data n sk h ok sk' h'
    by (drule wpD [OF write_frame]) (simp add: grow)
  assume "device_step w vt d s r s'" "sql_connected (hist s)"
  then show "sql_connected (hist s')"
    by cases (auto dest!: received_nonsink [THEN grow] completed_nonsink [THEN grow] served_neutral [THEN grow]
        flush writes grow)
qed

lemma process_commands_connected:
  assumes "process_commands w vt s = Some (out, s')" "sql_connected (hist s)"
  shows "sql_connected (hist s')"
  using assms(1)
proof (cases rule: process_commands_cases)
  case stopped
  then show ?thesis using connected_extends [OF wpD [OF process_prologue_outer stopped(1)] assms(2)] by simp
next
  case (ran devices s1 start s2 r s3)
  have "sql_connected (hist s2)"
    using connected_extends [OF wpD [OF process_prologue_outer ran(1)] assms(2)] clock_outer [OF ran(2)]
    by (blast intro: connected_extends)
  then have "sql_connected (hist s3)"
    using command_loop_rule [OF ran(3), where I = "\<lambda>t. sql_connected (hist t)" and F = "\<lambda>_ t. sql_connected (hist t)"]
      device_step_connected by auto
  then show ?thesis
    using ran(5) after_loop_outer [of w devices s3] by (auto simp: wp_snd intro: connected_extends split: if_splits)
qed

text \<open>What the part before the loop returns.\<close>

lemma main_setup_exit:
  "wp (main_setup w vt c nm) (\<lambda>r s'. device_refs (hist s') = device_refs (hist s) \<and>
     (case r of None \<Rightarrow> sql_connected (hist s')
      | Some n \<Rightarrow> n = 1 \<and> sql_connected (hist s') = sql_connected (hist s))) s"
  unfolding main_setup_def
  by (intro wp_intros wp_mono [OF connect_modest] wp_mono [OF start_backup_modest]
      wp_mono [OF open_devices_connected] wp_mono [OF close_modest]; (elim conjE)?)
    (auto dest!: modest_same)

lemma run_client_exit:
  assumes "run_client w vt sk c nm h = Some (r, s')" "\<not> sql_connected h"
  shows "if sql_connected (hist s') then r = Exit 0 else r = Exit 1"
proof -
  obtain client h1 where new: "run_state (new_VdiClient w (Some sk) False Chrono) h = (client, h1)" by fastforce
  let ?s = "\<lparr>cl = client, hist = h1\<rparr>"
  have "wp (new_VdiClient w (Some sk) False Chrono) (\<lambda>_ h'. modest h h') h"
    unfolding new_VdiClient_def create_timer_def new_ChronoTimer_def new_Metrics_def steady_clock_now_def
    by (auto intro!: wp_intros)
  then have h1: "\<not> sql_connected h1" using wpD [OF _ new] modest_same assms(2) by blast
  have dtor: "sql_connected (hist (snd (run_state (VdiClient_dtor w vt) t))) = sql_connected (hist t)" for t :: "'s sys"
    using VdiClient_dtor_modest [of w t] by (auto simp: wp_snd dest: modest_same)
  have close: "sql_connected (hist (snd (run_state (close w vt) t))) = sql_connected (hist t)" for t :: "'s sys"
    using close_modest [of w t] by (auto simp: wp_snd dest: modest_same)
  obtain x s1 where x: "run_state (main_setup w vt c nm) ?s = (x, s1)" by fastforce
  from wpD [OF main_setup_exit x] h1
  have s1: "case x of None \<Rightarrow> sql_connected (hist s1) | Some n \<Rightarrow> n = 1 \<and> \<not> sql_connected (hist s1)"
    by (simp split: option.splits)
  have "m_sink (cl s1) \<noteq> None"
    by (rule wpD [OF main_setup_sink x]) (simp add: new_client_sink [OF new])
  then have "out = Returned \<and> sql_connected (hist s2)" if "process_commands w vt s1 = Some (out, s2)" "x = None" for out s2
    using that s1 process_commands_no_crash [OF that(1) \<open>m_sink (cl s1) \<noteq> None\<close>]
      process_commands_connected [OF that(1)] by simp
  with assms(1) new x s1 show ?thesis
    by (cases x) (auto simp: run_client_def main_session_def dtor close split: option.splits outcome.splits)
qed

end

lemma main_exits:
  assumes "main w args = Some (r, h')"
  shows "r = (if sql_connected h' then Exit 0 else Exit 1)"
proof -
  let ?h0 = "[E_GetCurrentProcessId (r_GetCurrentProcessId w [])]"
  show ?thesis
  proof (cases "use_file_sink (parse_args args default_cli)")
    case True
    from assms True show ?thesis
    proof (rule main_file)
      fix fs h nm and s' :: "file_sink sys"
      assume "extends is_sink_event ?h0 h" and run: "run_client w (file_vtbl w) fs (parse_args args default_cli) nm h = Some (r, s')" "h' = hist s'"
      then have "\<not> sql_connected h" using modest_same [OF modest_of(2)] by fastforce
      from file_frame.run_client_exit [OF run(1) this] run(2) show ?thesis by (auto split: if_splits)
    qed
  next
    case False
    then obtain nm s' where run: "run_client w null_vtbl () (parse_args args default_cli) nm ?h0 = Some (r, s')" "h' = hist s'"
      using assms by (auto simp: main_def GetCurrentProcessId_def Let_def)
    have "\<not> sql_connected ?h0" by simp
    from null.run_client_exit [OF run(1) this] run(2) show ?thesis by (auto split: if_splits)
  qed
qed

text \<open>
  C6. The exit code says whether SQL Server connected, and nothing else. The program always ends in
  an exit, never in the use of a null pointer; the code is 0 when a GetConfiguration succeeded and 1
  otherwise. What process_commands made of the data afterwards does not change it: a backup that ended
  in FAILED exits with 0, which the scripts that run the program take for success.
\<close>

theorem main_exit_code:
  assumes "main w args = Some (r, h')"
  shows "r = (if sql_connected h' then Exit 0 else Exit 1)"
  using assms by (rule main_exits)

text \<open>SQL Server connects and then aborts: every GetCommand fails.\<close>

definition aborting_world :: world where
  "aborting_world = calm_world\<lparr>r_GetCommand := (\<lambda>_ _ _. (VD_E_ABORT, None))\<rparr>"

lemma aw: "LOGGING_LEVEL aborting_world = 0" "r_steady_clock aborting_world h = 0"
  "r_CoInitializeEx aborting_world h = S_OK" "r_CoCreateInstance aborting_world h = (S_OK, 1)"
  "r_CreateEx aborting_world h nm cfg = S_OK" "r_GetConfiguration aborting_world h t = (S_OK, vdconfig_zero)"
  by (simp_all add: aborting_world_def calm_world_def)

lemma aborting_setup:
  assumes "m_state (cl s) = INIT"
  shows "fst (run_state (main_setup aborting_world vt (parse_args [] default_cli) nm) s) = None"
  using assms
  by (simp add: main_setup_def default_cli_def connect_def new_ComRuntime_def ComRuntime_dtor_def
      connect_device_set_def CoInitializeEx_def CoUninitialize_def CoCreateInstance_def CreateEx_def
      do_io_def upd_def set_state_to_def log_defs LOG_LEVEL_INFO_def S_OK_def S_FALSE_def hr_failed_def aw
      start_backup_def cin_get_def open_devices_def GetConfiguration_def log_server_config_def)

theorem main_exit_code_witness:
  "\<exists>h'. main aborting_world [] = Some (Exit 0, h') \<and> sql_connected h'"
proof -
  let ?w = aborting_world and ?h0 = "[E_GetCurrentProcessId (r_GetCurrentProcessId aborting_world [])]"
  have "closes_after 0 ?w" by (simp add: closes_after_def aborting_world_def VD_E_defs hr_failed_def)
  note returns = process_commands_returns [OF null.sink_contract_axioms this]
  obtain client h1 where new: "run_state (new_VdiClient ?w (Some ()) False Chrono) ?h0 = (client, h1)" by fastforce
  obtain x s1 where s1: "run_state (main_setup ?w null_vtbl (parse_args [] default_cli)
      (virtual_device_name (r_GetCurrentProcessId ?w []))) \<lparr>cl = client, hist = h1\<rparr> = (x, s1)" by fastforce
  have "m_state client = INIT" using wpD [OF new_VdiClient_spec new] by simp
  then have "x = None" using aborting_setup [of "\<lparr>cl = client, hist = h1\<rparr>"] s1 by (metis fst_conv sys.select_convs(1))
  have "m_sink (cl s1) \<noteq> None"
    by (rule wpD [OF main_setup_sink s1]) (simp add: new_client_sink [OF new])
  from returns [OF this] obtain s2 where "process_commands ?w null_vtbl s1 = Some (Returned, s2)" by blast
  then have "\<exists>h'. main ?w [] = Some (Exit 0, h')"
    using new s1 \<open>x = None\<close>
    by (simp add: main_def GetCurrentProcessId_def default_cli_def run_client_def main_session_def)
  then show ?thesis using main_exit_code by (metis main_result.inject nat.simps(3) One_nat_def)
qed

section \<open>Everything is released\<close>

lemma session_inv_hist: "session_inv s \<Longrightarrow> live_sets h' = live_sets (hist s) \<Longrightarrow> session_inv (s\<lparr>hist := h'\<rparr>)"
  by (simp add: session_inv_def)

lemma start_backup_neutral: "wp (start_backup w c nm) (\<lambda>_ h'. neutral h h') h"
  unfolding start_backup_def launch_sqlcmd_def wsystem_def cin_get_def
  by (intro wp_intros) simp_all

context sink_contract
begin

lemma call_inv:
  assumes "session_inv s"
  shows "wp (connect w nm n) (\<lambda>_. session_inv) s" "wp (open_devices w) (\<lambda>_. session_inv) s"
    "wp (close w vt) (\<lambda>_. session_inv) s"
  using session_step_inv [OF assms call_connect] session_step_inv [OF assms call_open_devices]
    session_step_inv [OF assms call_close]
  by (simp_all add: wp_snd)

lemma main_setup_inv: "session_inv s \<Longrightarrow> wp (main_setup w vt c nm) (\<lambda>_. session_inv) s"
  unfolding main_setup_def
  by (intro wp_intros wp_mono [OF call_inv(1)] wp_mono [OF call_inv(2)] wp_mono [OF call_inv(3)]
      wp_mono [OF start_backup_neutral])
    (auto intro!: session_inv_hist dest: neutral_same)

lemma run_client_releases:
  assumes "run_client w vt sk c nm h = Some (Exit n, s')" "live_sets h = []" "device_refs h = (\<lambda>_. 0)"
  shows "live_sets (hist s') = [] \<and> (device_refs (hist s') = (\<lambda>_. 0) \<or> has_failed_open (hist s'))"
proof -
  obtain client h1 where new: "run_state (new_VdiClient w (Some sk) False Chrono) h = (client, h1)" by fastforce
  let ?s = "\<lparr>cl = client, hist = h1\<rparr>"
  have refs: "device_refs h1 = (\<lambda>_. 0)" using wpD [OF new_VdiClient_spec new] assms(3) by (auto dest: neutral_same)
  obtain x s1 where x: "run_state (main_setup w vt c nm) ?s = (x, s1)" by fastforce
  have s1: "session_inv s1" "device_refs (hist s1) = (\<lambda>_. 0)"
    using wpD [OF main_setup_inv [OF session_inv_new [OF assms(2) new]] x] wpD [OF main_setup_exit x] refs by auto
  obtain s2 where s2: "main_session w vt c nm ?s = Some (Exit n, s2)" "s' = snd (run_state (VdiClient_dtor w vt) s2)"
    using assms(1) new by (auto simp: run_client_def split: option.splits main_result.splits)
  have close: "session_inv (snd (run_state (close w vt) t)) \<and>
      device_refs (hist (snd (run_state (close w vt) t))) = device_refs (hist t) \<and>
      (has_failed_open (hist t) \<longrightarrow> has_failed_open (hist (snd (run_state (close w vt) t))))"
    if "session_inv t" for t
    using call_inv(3) [OF that, of w] close_spec [of w t] close_modest [of w t]
    by (auto simp: wp_snd intro: has_failed_open_extends split: if_splits)
  have "session_inv s2 \<and> (device_refs (hist s2) = (\<lambda>_. 0) \<or> has_failed_open (hist s2))"
  proof (cases x)
    case (Some code)
    then show ?thesis using s2(1) x s1 by (simp add: main_session_def)
  next
    case None
    then obtain t where t: "process_commands w vt s1 = Some (Returned, t)" "s2 = snd (run_state (close w vt) t)"
      using s2(1) x by (auto simp: main_session_def split: option.splits outcome.splits)
    have "session_inv t" using session_step_inv [OF s1(1) call_process_commands [OF t(1)]] by simp
    moreover have "device_refs (hist t) = (\<lambda>_. 0) \<or> has_failed_open (hist t)"
      using process_commands_devices [OF t(1) s1(1)] s1(2) by auto
    ultimately show ?thesis using close [of t] t(2) by auto
  qed
  moreover have "live_sets (hist s') = [] \<and> device_refs (hist s') = device_refs (hist s2) \<and>
      (has_failed_open (hist s2) \<longrightarrow> has_failed_open (hist s'))" if "session_inv s2"
    using that VdiClient_dtor_spec [of w s2] VdiClient_dtor_modest [of w s2] s2(2)
    by (auto simp: wp_snd session_inv_def intro: has_failed_open_extends split: if_splits option.splits)
  ultimately show ?thesis by auto
qed

end

text \<open>
  The program gives back what it took from SQL Server: at its exit, whatever its options and
  whatever happened, every device set it created has been released, and every device it opened has
  been released once, unless an OpenDevice failed.
\<close>

lemma main_releases:
  assumes "main w args = Some (r, h')"
  shows "live_sets h' = [] \<and> ((\<forall>d. device_refs h' d = 0) \<or> has_failed_open h')"
proof -
  let ?h0 = "[E_GetCurrentProcessId (r_GetCurrentProcessId w [])]"
  obtain n where r: "r = Exit n" using main_exits [OF assms] by (cases "sql_connected h'") auto
  show ?thesis
  proof (cases "use_file_sink (parse_args args default_cli)")
    case True
    from assms True show ?thesis
    proof (rule main_file)
      fix fs h nm and s' :: "file_sink sys"
      assume h: "extends is_sink_event ?h0 h" and run: "run_client w (file_vtbl w) fs (parse_args args default_cli) nm h = Some (r, s')" "h' = hist s'"
      have "live_sets h = []" "device_refs h = (\<lambda>_. 0)"
        using neutral_same [OF sink_neutral [OF h]] by simp_all
      from file_frame.run_client_releases [OF run(1) [unfolded r] this] run(2) show ?thesis by auto
    qed
  next
    case False
    then obtain nm s' where run: "run_client w null_vtbl () (parse_args args default_cli) nm ?h0 = Some (r, s')" "h' = hist s'"
      using assms by (auto simp: main_def GetCurrentProcessId_def Let_def)
    from null.run_client_releases [OF run(1) [unfolded r]] run(2) show ?thesis by auto
  qed
qed

end
