(* ===== verification/Report_Json.thy ===== *)
theory Report_Json
  imports Metrics_Report
begin

text \<open>
  The JSON document of \<open>Metrics::to_json\<close> as its consumers see it: the object a JSON reader gets
  from the text. The text is the layout of theory \<open>Json\<close> for that object, so every figure comes
  back exactly as it was printed, for any state of the metrics and any clock.
\<close>

section \<open>The object\<close>

definition json_u64 :: "u64 \<Rightarrow> json" where
  "json_u64 n = JNum (decimal (unat n))"

definition json_fixed :: "nat \<Rightarrow> dbl \<Rightarrow> json" where
  "json_fixed p d = JNum (format_fixed p d)"

definition stage_object :: "metrics \<Rightarrow> (chunk_timing \<Rightarrow> u64) \<Rightarrow> json" where
  "stage_object m field = JObj
     [(''p50'', json_u64 (stage_p m field 50)), (''p95'', json_u64 (stage_p m field 95)),
      (''p99'', json_u64 (stage_p m field 99))]"

definition cpu_object :: "(filetime \<times> filetime) option \<Rightarrow> json" where
  "cpu_object ptimes =
     (let kernel_us = (case ptimes of None \<Rightarrow> 0 | Some (k, _) \<Rightarrow> filetime_to_us k);
          user_us = (case ptimes of None \<Rightarrow> 0 | Some (_, u) \<Rightarrow> filetime_to_us u)
      in JObj [(''kernel_ms'', json_u64 (kernel_us div 1000)), (''user_ms'', json_u64 (user_us div 1000)),
               (''total_ms'', json_u64 ((kernel_us + user_us) div 1000))])"

definition report_object :: "metrics \<Rightarrow> dbl \<Rightarrow> (filetime \<times> filetime) option \<Rightarrow> json" where
  "report_object m seconds ptimes = JObj
     [(''tool_version'', JStr ''0.1.0''),
      (''throughput_mbps'', json_fixed 1 (json_throughput m seconds)),
      (''total_bytes'', json_u64 (m_total_bytes m)),
      (''chunk_count'', json_u64 (m_chunk_count m)),
      (''elapsed_seconds'', json_fixed 2 seconds),
      (''chunk_sizes'', JObj
        [(''min_bytes'', json_u64 (reported_min m)), (''avg_bytes'', json_u64 (reported_avg m)),
         (''max_bytes'', json_u64 (m_max_chunk_size m))]),
      (''cpu'', cpu_object ptimes),
      (''per_stage_timing_us'', JObj
        [(''getcommand'', stage_object m getcommand_us), (''dispatch'', stage_object m dispatch_us),
         (''sink'', stage_object m sink_us), (''complete'', stage_object m complete_us),
         (''total'', stage_object m total_us)]),
      (''buffer_pool'', JObj
        [(''acquires'', json_u64 (m_buffer_acquire_count m)),
         (''releases'', json_u64 (m_buffer_release_count m)),
         (''hits'', json_u64 (m_buffer_pool_hits m)), (''misses'', json_u64 (m_buffer_pool_misses m)),
         (''reuse_rate_pct'', json_fixed 1 (reuse_rate m))]),
      (''logging_enabled'', JBool (m_metrics_logging m))]"

lemmas object_defs = report_object_def stage_object_def cpu_object_def json_u64_def json_fixed_def

lemma render_report: "json_text m seconds ptimes = render 0 (report_object m seconds ptimes)"
  by (simp add: json_text_def json_stage_def object_defs show_u64_def VDI_WRAPPER_VERSION_STRING_def
      Let_def numeral_eq_Suc)

section \<open>The figures are numbers\<close>

definition finite_dbl :: "dbl \<Rightarrow> bool" where
  "finite_dbl d \<longleftrightarrow> (\<exists>x. d = Fin x)"

lemma finite_dbl_ops:
  "finite_dbl (Fin x)" "finite_dbl (dbl_of_u64 n)"
  "finite_dbl a \<Longrightarrow> finite_dbl b \<Longrightarrow> finite_dbl (dmul a b)"
  "finite_dbl a \<Longrightarrow> finite_dbl b \<Longrightarrow> b \<noteq> Fin 0 \<Longrightarrow> finite_dbl (ddiv a b)"
  by (auto simp: finite_dbl_def dbl_of_u64_def)

lemma json_fixed_well_formed: "0 < p \<Longrightarrow> finite_dbl d \<Longrightarrow> well_formed (json_fixed p d)"
  by (auto simp: finite_dbl_def json_fixed_def format_fixed_number)

lemma elapsed_finite: "finite_dbl (elapsed_seconds start finish)"
  by (simp add: elapsed_seconds_def Let_def dbl_of_int_def finite_dbl_def)

lemma json_throughput_finite: "finite_dbl s \<Longrightarrow> finite_dbl (json_throughput m s)"
  by (auto simp: json_throughput_def megabytes_def dpositive_def intro!: finite_dbl_ops)

lemma reuse_rate_finite: "finite_dbl (reuse_rate m)"
proof -
  have "dbl_of_u64 n \<noteq> Fin 0" if "0 < n" for n
    using that dbl_of_u64_eq_0 [of n] by (auto simp: dbl_of_u64_def)
  then show ?thesis by (auto simp: reuse_rate_def intro!: finite_dbl_ops)
qed

lemma json_u64_well_formed: "well_formed (json_u64 n)"
  by (simp add: json_u64_def)

lemma report_well_formed: "finite_dbl seconds \<Longrightarrow> well_formed (report_object m seconds ptimes)"
proof -
  assume "finite_dbl seconds"
  then have "well_formed (json_fixed 1 (json_throughput m seconds))" "well_formed (json_fixed 2 seconds)"
    "well_formed (json_fixed 1 (reuse_rate m))"
    by (simp_all add: json_fixed_well_formed json_throughput_finite reuse_rate_finite)
  then show ?thesis
    by (simp add: report_object_def stage_object_def cpu_object_def Let_def json_u64_well_formed plain_char_def)
qed

text \<open>
  C33. The JSON report is valid and exact: from any metrics, clock and process times, a JSON reader
  of the text to_json returns gets the report object, each counter as the decimal text of its
  value and each percentage, rate and time as its rounded text. In particular no figure is
  printed as an infinity or a NaN, which JSON does not have.
\<close>

theorem to_json_roundtrip:
  "let finish = r_steady_clock w h; ptimes = r_GetProcessTimes w (E_steady_clock finish # h)
   in read_json (fst (run_state (to_json w m) h)) =
        Some (report_object m (elapsed_seconds (m_start_time m) finish) ptimes)"
  by (simp add: to_json_def steady_clock_now_def GetProcessTimes_def render_report read_json_render
      report_well_formed elapsed_finite Let_def)

end
