(* ===== verification/Console.thy ===== *)
theory Console
  imports Report_Json Command_Loop
begin

text \<open>
  The text of the output: what each event of \<open>include/logging.h\<close> and each stream insertion prints, on
  which stream, and so the whole output of a history. The scripts read the JSON report from it.
\<close>

datatype stream_name = Stdout | Stderr

definition trace_line :: "string \<Rightarrow> u32 \<Rightarrow> u64 \<Rightarrow> string" where
  "trace_line nm tid us =
     ''[TRACE] '' @ nm @ '' tid='' @ decimal (unat tid) @ '' '' @ decimal (unat us) @ '' us'' @ nl"

fun log_line :: "log_level \<Rightarrow> string \<Rightarrow> stream_name \<times> string" where
  "log_line L_ERROR m = (Stderr, ''[ERROR] '' @ m @ nl)"
| "log_line L_INFO m = (Stdout, ''[INFO]  '' @ m @ nl)"
| "log_line L_WARN m = (Stderr, ''[WARN]  '' @ m @ nl)"
| "log_line L_DEBUG m = (Stderr, ''[DEBUG] '' @ m @ nl)"

fun printed :: "event \<Rightarrow> (stream_name \<times> string) option" where
  "printed (E_Log lv m) = Some (log_line lv m)"
| "printed (E_Trace nm tid us) = Some (Stderr, trace_line nm tid us)"
| "printed (E_cout t) = Some (Stdout, t)"
| "printed (E_wcout t) = Some (Stdout, t)"
| "printed (E_cerr t) = Some (Stderr, t)"
| "printed _ = None"

fun console :: "stream_name \<Rightarrow> history \<Rightarrow> string" where
  "console st [] = []"
| "console st (e # h) = console st h @
     (case printed e of None \<Rightarrow> [] | Some (st', t) \<Rightarrow> if st' = st then t else [])"

lemma console_extends: "extends P h h' \<Longrightarrow> \<exists>t. console st h' = console st h @ t"
proof -
  have "\<exists>t. console st (es @ h) = console st h @ t" for es
    by (induction es) auto
  then show "extends P h h' \<Longrightarrow> ?thesis" by (auto simp: extends_def)
qed

text \<open>LOG_HRESULT prints an HRESULT in eight lower case hexadecimal digits.\<close>

definition LOG_HRESULT :: "string \<Rightarrow> hresult \<Rightarrow> unit io" where
  "LOG_HRESULT msg hr =
     LOG_ERROR (msg @ '' HRESULT=0x'' @ pad_left (CHR ''0'') 8 (hex_digits False (unat hr)))"

section \<open>The report on the console\<close>

lemma read_report: "read_json (json_text m (elapsed_seconds a b) pt) = Some (report_object m (elapsed_seconds a b) pt)"
  by (simp add: render_report read_json_render report_well_formed elapsed_finite)

lemma report_console:
  assumes "LOG_LEVEL_INFO \<le> LOGGING_LEVEL w"
  shows "\<exists>finish pt summary rest. console Stdout (hist (snd (run_state (report w) s))) =
    console Stdout (hist s) @ summary @ ''[INFO]  ---BEGIN JSON METRICS---'' @ nl @ ''[INFO]  '' @
      json_text (m_metrics (cl s)) (elapsed_seconds (m_start_time (m_metrics (cl s))) finish) pt @ nl @
      ''[INFO]  ---END JSON METRICS---'' @ nl @ rest"
proof -
  let ?m = "m_metrics (cl s)"
  obtain h1 summary where sum: "run_state (print_summary w ?m) (hist s) = ((), h1)"
      "console Stdout h1 = console Stdout (hist s) @ summary"
    using wpD [OF wp_print_summary] console_extends by (metis (full_types) old.unit.exhaust surj_pair)
  let ?finish = "r_steady_clock w (E_Log L_INFO ''---BEGIN JSON METRICS---'' # h1)"
  let ?pt = "r_GetProcessTimes w (E_steady_clock ?finish # E_Log L_INFO ''---BEGIN JSON METRICS---'' # h1)"
  have "console Stdout (hist (snd (run_state (report w) s))) = console Stdout (hist s) @ summary @
      ''[INFO]  ---BEGIN JSON METRICS---'' @ nl @ ''[INFO]  '' @
      json_text ?m (elapsed_seconds (m_start_time ?m) ?finish) ?pt @ nl @
      ''[INFO]  ---END JSON METRICS---'' @ nl @ ''[INFO]  Resource accounting: max_active_buffers='' @
      decimal (unat (m_max_active_buffers (cl s))) @ nl"
    using assms sum
    by (simp add: report_def do_io_def LOG_INFO_def to_json_def steady_clock_now_def GetProcessTimes_def)
  then show ?thesis by blast
qed

text \<open>
  C34. The JSON report cannot be read where the scripts look for it. The text between the two marker
  lines is the document with the log prefix before its first brace: the document alone is valid
  JSON, what stands between the markers is not.
\<close>

theorem report_json_prefixed:
  assumes "LOG_LEVEL_INFO \<le> LOGGING_LEVEL w"
  shows "\<exists>json summary rest.
    console Stdout (hist (snd (run_state (report w) s))) = console Stdout (hist s) @ summary @
      ''[INFO]  ---BEGIN JSON METRICS---'' @ nl @ ''[INFO]  '' @ json @ nl @
      ''[INFO]  ---END JSON METRICS---'' @ nl @ rest \<and>
    read_json json \<noteq> None \<and> read_json (''[INFO]  '' @ json @ nl) = None"
proof -
  have "read_json (''[INFO]  '' @ json @ nl) = None" for json
    by (simp add: read_json_def skip_ws_def is_ws_def read_number_def number_char_def is_digit_def
        is_number_def is_unsigned_def is_int_part_def)
  with report_console [OF assms, of s] show ?thesis by (metis (no_types, lifting) option.distinct(1) read_report)
qed

theorem report_json_prefixed_witness:
  "\<exists>json. read_json json \<noteq> None \<and> read_json (''[INFO]  '' @ json @ nl) = None"
proof -
  have "LOG_LEVEL_INFO \<le> LOGGING_LEVEL (calm_world\<lparr>LOGGING_LEVEL := 1\<rparr>)" by (simp add: LOG_LEVEL_INFO_def)
  from report_json_prefixed [OF this] show ?thesis by blast
qed

end
