(* ===== verification/Report_Accuracy.thy ===== *)
theory Report_Accuracy
  imports Metrics_Report
begin

text \<open>
  How exact the derived figures of the reports are: the throughput against the true rate, over all
  the roundings of the double arithmetic and the truncation of the clock to milliseconds.
\<close>

section \<open>A calculus of relative errors\<close>

text \<open>\<open>approx k x y\<close>: x is y up to k roundings, multiplied or divided.\<close>

definition unit_loss :: rat where "unit_loss = 1 - 1 / 2 ^ 53"

lemma unit_loss_bounds: "0 < unit_loss" "unit_loss < 1"
  by (simp_all add: unit_loss_def)

definition approx :: "nat \<Rightarrow> rat \<Rightarrow> rat \<Rightarrow> bool" where
  "approx k x y \<longleftrightarrow> 0 < y \<and> y * unit_loss ^ k \<le> x \<and> x * unit_loss ^ k \<le> y"

lemma approx_refl: "0 < y \<Longrightarrow> approx 0 y y"
  by (simp add: approx_def)

lemma approx_pos: "approx k x y \<Longrightarrow> 0 < x"
  using unit_loss_bounds by (metis approx_def mult_pos_pos order_less_le_trans zero_less_power)

lemma approx_round: "approx k x y \<Longrightarrow> approx (Suc k) (dround x) y"
proof -
  assume a: "approx k x y"
  have x: "0 < x" by (rule approx_pos [OF a])
  have lo: "x * unit_loss \<le> dround x" and hi: "dround x \<le> x + x / 2 ^ 53"
    using dround_error [OF x] unfolding unit_loss_def abs_le_iff right_diff_distrib by simp_all
  have "dround x * unit_loss \<le> (x + x / 2 ^ 53) * unit_loss"
    using hi unit_loss_bounds by (simp add: mult_right_mono)
  also have "\<dots> = x - x / 2 ^ 106" by (simp add: unit_loss_def field_simps)
  also have "\<dots> \<le> x" using x by simp
  finally have hi': "dround x * unit_loss \<le> x" .
  have "y * unit_loss ^ Suc k = (y * unit_loss ^ k) * unit_loss" by simp
  also have "\<dots> \<le> x * unit_loss" using a unit_loss_bounds by (simp add: approx_def mult_right_mono)
  also note lo
  finally have 1: "y * unit_loss ^ Suc k \<le> dround x" .
  have "dround x * unit_loss ^ Suc k = (dround x * unit_loss) * unit_loss ^ k" by simp
  also have "\<dots> \<le> x * unit_loss ^ k" using hi' unit_loss_bounds by (simp add: mult_right_mono)
  also have "\<dots> \<le> y" using a by (simp add: approx_def)
  finally show ?thesis using 1 a by (simp add: approx_def)
qed

lemma approx_divide: "approx i a x \<Longrightarrow> approx j b y \<Longrightarrow> approx (i + j) (a / b) (x / y)"
proof -
  assume a: "approx i a x" and b: "approx j b y"
  have pos: "0 < a" "0 < b" "0 < x" "0 < y" using a b approx_pos by (auto simp: approx_def)
  have "(x * unit_loss ^ i) * (b * unit_loss ^ j) \<le> a * y"
    using a b pos unit_loss_bounds by (intro mult_mono) (auto simp: approx_def)
  moreover have "(a * unit_loss ^ i) * (y * unit_loss ^ j) \<le> x * b"
    using a b pos unit_loss_bounds by (intro mult_mono) (auto simp: approx_def)
  ultimately show ?thesis
    using pos by (simp add: approx_def power_add field_simps)
qed

lemma ddiv_approx:
  "approx i a x \<Longrightarrow> approx j b y \<Longrightarrow> \<exists>q. ddiv (Fin a) (Fin b) = Fin q \<and> approx (Suc (i + j)) q (x / y)"
  using approx_round [OF approx_divide, of i a x j b y] approx_pos [of j b y] by auto

text \<open>Six roundings lose less than one part in \<open>2 ^ 50\<close>.\<close>

lemma approx_6:
  assumes "approx 6 x y"
  shows "y - y / 2 ^ 50 \<le> x" "x \<le> y + y / 2 ^ 50"
proof -
  have y: "0 < y" and x: "0 < x" using assms approx_pos by (auto simp: approx_def)
  have loss: "1 - 1 / 2 ^ 50 \<le> unit_loss ^ 6" "1 \<le> (1 + 1 / 2 ^ 50) * unit_loss ^ 6"
    by (simp_all add: unit_loss_def power_divide)
  have "y - y / 2 ^ 50 = y * (1 - 1 / 2 ^ 50)" by (simp add: right_diff_distrib)
  also have "\<dots> \<le> y * unit_loss ^ 6" using loss(1) y by (intro mult_left_mono) auto
  also have "\<dots> \<le> x" using assms by (simp add: approx_def)
  finally show "y - y / 2 ^ 50 \<le> x" .
  have "x \<le> x * ((1 + 1 / 2 ^ 50) * unit_loss ^ 6)" using mult_left_mono [OF loss(2), of x] x by simp
  also have "\<dots> = (x * unit_loss ^ 6) * (1 + 1 / 2 ^ 50)" by (simp add: mult_ac)
  also have "\<dots> \<le> y * (1 + 1 / 2 ^ 50)" using assms by (intro mult_right_mono) (auto simp: approx_def)
  also have "\<dots> = y + y / 2 ^ 50" by (simp add: distrib_left)
  finally show "x \<le> y + y / 2 ^ 50" .
qed

section \<open>The throughput\<close>

lemma megabytes_approx:
  assumes "0 < n"
  shows "\<exists>x. megabytes n = Fin x \<and> approx 3 x (of_nat (unat n) / 2 ^ 20)"
proof -
  let ?n = "of_nat (unat n) :: rat"
  have k: "approx 0 1024 (1024 :: rat)" by (simp add: approx_refl)
  have "0 < unat n" using assms by (simp add: unat_gt_0)
  then have "approx 0 ?n ?n" by (intro approx_refl) (simp only: of_nat_0_less_iff)
  then have "approx 1 (dround ?n) ?n" using approx_round by fastforce
  from ddiv_approx [OF this k] obtain x where x: "ddiv (Fin (dround ?n)) (Fin 1024) = Fin x"
      "approx 2 x (?n / 1024)" by (auto simp: numeral_2_eq_2)
  from ddiv_approx [OF x(2) k] obtain z where "ddiv (Fin x) (Fin 1024) = Fin z" "approx 3 z (?n / 1024 / 1024)"
    by (auto simp: eval_nat_numeral)
  with x(1) show ?thesis by (simp add: megabytes_def dbl_of_u64_def)
qed

text \<open>The elapsed time in whole milliseconds.\<close>

definition milliseconds :: "i64 \<Rightarrow> i64 \<Rightarrow> int" where
  "milliseconds start finish = sint (finish - start) div 1000000"

lemma elapsed_approx:
  assumes "1000000 \<le> sint (finish - start)"
  shows "\<exists>x. elapsed_seconds start finish = Fin x \<and> approx 2 x (of_int (milliseconds start finish) / 1000)"
proof -
  let ?ms = "of_int (milliseconds start finish) :: rat"
  have ms: "1 \<le> milliseconds start finish" using assms by (simp add: milliseconds_def)
  then have "approx 0 ?ms ?ms" by (intro approx_refl) simp
  then have a: "approx 1 (dround ?ms) ?ms" using approx_round by fastforce
  have "approx 0 1000 (1000 :: rat)" by (simp add: approx_refl)
  from ddiv_approx [OF a this] obtain x where "ddiv (Fin (dround ?ms)) (Fin 1000) = Fin x" "approx 2 x (?ms / 1000)"
    by (auto simp: numeral_2_eq_2)
  moreover have "elapsed_seconds start finish = ddiv (Fin (dround ?ms)) (Fin 1000)"
    using assms by (simp add: elapsed_seconds_def Let_def dbl_of_int_def milliseconds_def)
  ultimately show ?thesis by simp
qed

text \<open>
  A rate over the milliseconds the clock shows, against the rate over the elapsed time: cutting the
  time to milliseconds raises it, by at most one part in their number.
\<close>

lemma cut_clock_rate:
  fixes b :: rat
  assumes "1000000 \<le> sint (finish - start)" "0 < b"
  defines "rate \<equiv> b / (of_int (sint (finish - start)) / 10 ^ 9)"
    and "cut_rate \<equiv> b / (of_int (milliseconds start finish) / 1000)"
  shows "rate \<le> cut_rate" "cut_rate \<le> rate * (1 + 1 / of_int (milliseconds start finish))"
proof -
  let ?ns = "of_int (sint (finish - start)) :: rat" and ?ms = "of_int (milliseconds start finish) :: rat"
  have "1 \<le> milliseconds start finish" using assms(1) by (simp add: milliseconds_def)
  then have ms: "(1 :: rat) \<le> ?ms" by simp
  have "milliseconds start finish * 1000000 \<le> sint (finish - start)"
      "sint (finish - start) \<le> (milliseconds start finish + 1) * 1000000"
    unfolding milliseconds_def by presburger+
  then have "(of_int (milliseconds start finish * 1000000) :: rat) \<le> ?ns"
      "?ns \<le> of_int ((milliseconds start finish + 1) * 1000000)"
    by (simp_all only: of_int_le_iff)
  then have ns: "?ms * 1000000 \<le> ?ns" "?ns \<le> (?ms + 1) * 1000000" by simp_all
  with ms have ms': "0 < ?ms" "0 < ?ns" by linarith+
  show "rate \<le> cut_rate"
    unfolding rate_def cut_rate_def using assms(2) ms' ns(1) by (intro divide_left_mono) (auto simp: field_simps)
  have "cut_rate * ?ms = b * 1000" using ms' by (simp add: cut_rate_def)
  also have "\<dots> = rate * (?ns / 10 ^ 6)" using ms' by (simp add: rate_def)
  also have "\<dots> \<le> rate * (?ms + 1)" using ns(2) assms(2) ms' by (intro mult_left_mono) (simp_all add: rate_def)
  finally show "cut_rate \<le> rate * (1 + 1 / ?ms)" using ms' by (simp add: field_simps)
qed

text \<open>
  The throughput is exact. In a session of a millisecond or more that transferred a byte, both
  reports compute the same finite value, and it is the true rate, the bytes over \<open>2 ^ 20\<close> per second
  of elapsed time, but for one part in \<open>2 ^ 50\<close> and the milliseconds the clock is cut to, which
  can only raise it: by at most one part in the number of milliseconds.
\<close>

lemma throughput_accuracy:
  assumes "1000000 \<le> sint (finish - start)" "0 < m_total_bytes m"
  shows "\<exists>x. json_throughput m (elapsed_seconds start finish) = Fin x
    \<and> summary_throughput m (elapsed_seconds start finish) = Fin x
    \<and> (let rate = of_nat (unat (m_total_bytes m)) / 2 ^ 20 / (of_int (sint (finish - start)) / 10 ^ 9) in
         rate * (1 - 1 / 2 ^ 50) \<le> x
       \<and> x \<le> rate * (1 + 1 / of_int (milliseconds start finish)) * (1 + 1 / 2 ^ 50))"
proof -
  define b :: rat where "b = of_nat (unat (m_total_bytes m)) / 2 ^ 20"
  define rate where "rate = b / (of_int (sint (finish - start)) / 10 ^ 9)"
  define top where "top = rate * (1 + 1 / of_int (milliseconds start finish))"
  obtain e where e: "elapsed_seconds start finish = Fin e"
      "approx 2 e (of_int (milliseconds start finish) / 1000)"
    using elapsed_approx [OF assms(1)] by blast
  obtain mb where mb: "megabytes (m_total_bytes m) = Fin mb" "approx 3 mb b"
    using megabytes_approx [OF assms(2)] by (auto simp: b_def)
  from ddiv_approx [OF mb(2) e(2)] obtain x where x: "ddiv (Fin mb) (Fin e) = Fin x"
      "approx 6 x (b / (of_int (milliseconds start finish) / 1000))" by (auto simp: eval_nat_numeral)
  have b: "0 < b" and e0: "0 < e" using mb(2) approx_pos [OF e(2)] by (auto simp: approx_def)
  have "rate - rate / 2 ^ 50 \<le> x" "x \<le> top + top / 2 ^ 50"
    using approx_6 [OF x(2)] cut_clock_rate [OF assms(1) b, folded rate_def top_def] by simp_all
  then have "rate * (1 - 1 / 2 ^ 50) \<le> x" "x \<le> top * (1 + 1 / 2 ^ 50)"
    by (simp_all only: right_diff_distrib distrib_left mult_1_right times_divide_eq_right)
  moreover have "json_throughput m (elapsed_seconds start finish) = Fin x"
      "summary_throughput m (elapsed_seconds start finish) = Fin x"
    using e(1) mb(1) x(1) e0 by (simp_all add: json_throughput_def summary_throughput_def dpositive_def)
  ultimately show ?thesis unfolding Let_def top_def rate_def b_def by blast
qed

end
