(* ===== verification/Report_Values.thy ===== *)
theory Report_Values
  imports Report_Json Report_Accuracy
begin

text \<open>
  The figures of the JSON report as numbers: the value of a number as JSON writes it, the figure a
  consumer finds under a path of keys, and how far the printed decimals are from the value the
  program computed, and that from the true one.
\<close>

section \<open>The value of a number\<close>

definition unsigned_value :: "string \<Rightarrow> rat" where
  "unsigned_value s =
     (let f = drop 1 (dropWhile is_digit s)
      in of_nat (undecimal (takeWhile is_digit s)) + of_nat (undecimal f) / 10 ^ length f)"

definition number_value :: "string \<Rightarrow> rat" where
  "number_value s = (if s \<noteq> [] \<and> hd s = CHR ''-'' then - unsigned_value (tl s) else unsigned_value s)"

lemma undecimal_leading_zeros: "undecimal (replicate k (CHR ''0'') @ s) = undecimal s"
  by (induction k) (simp_all add: undecimal_def)

lemma length_decimal: "n < 10 ^ p \<Longrightarrow> 0 < p \<Longrightarrow> length (decimal n) \<le> p"
proof (induction p arbitrary: n)
  case (Suc p)
  show ?case
  proof (cases "n < 10")
    case True
    then show ?thesis by (subst decimal.simps) simp
  next
    case False
    then have "0 < p" using Suc.prems by (cases p) auto
    moreover have "n div 10 < 10 ^ p" using Suc.prems by (simp add: less_mult_imp_div_less mult.commute)
    ultimately show ?thesis using Suc.IH [of "n div 10"] False by (subst decimal.simps) simp
  qed
qed simp

lemma length_padded_decimal: "n < 10 ^ p \<Longrightarrow> 0 < p \<Longrightarrow> length (pad_left (CHR ''0'') p (decimal n)) = p"
  using length_decimal [of n p] by (simp add: length_pad_left)

lemma split_decimal:
  "takeWhile is_digit (decimal n @ r) = decimal n @ takeWhile is_digit r"
  "dropWhile is_digit (decimal n @ r) = dropWhile is_digit r"
  using decimal_digits [of n] by (simp_all add: list_all_iff)

lemma decimal_all_digits [simp]: "takeWhile is_digit (decimal n) = decimal n" "dropWhile is_digit (decimal n) = []"
  using split_decimal [of n "[]"] by simp_all

lemma decimal_hd_not_minus: "hd (decimal n @ r) \<noteq> CHR ''-''"
  using decimal_digits [of n] decimal_nonempty [of n]
  by (cases "decimal n") (auto simp: list_all_iff is_digit_def)

lemma undecimal_Nil [simp]: "undecimal [] = 0"
  by (simp add: undecimal_def)

lemma number_value_sign:
  assumes "t \<noteq> []" "hd t \<noteq> CHR ''-''"
  shows "number_value ((if neg then ''-'' else []) @ t) = (if neg then - unsigned_value t else unsigned_value t)"
  using assms by (simp add: number_value_def)

lemma number_value_decimal: "number_value (decimal n) = of_nat n"
  using decimal_hd_not_minus [of n "[]"] number_value_sign [of "decimal n" False]
  by (simp add: decimal_nonempty unsigned_value_def undecimal_decimal)

lemma unsigned_value_fraction:
  assumes "0 < p"
  shows "unsigned_value (decimal (n div 10 ^ p) @ ''.'' @ pad_left (CHR ''0'') p (decimal (n mod 10 ^ p))) = of_nat n / 10 ^ p"
proof -
  define f where "f = pad_left (CHR ''0'') p (decimal (n mod 10 ^ p))"
  have f: "length f = p" "undecimal f = n mod 10 ^ p"
    using length_padded_decimal [of "n mod 10 ^ p" p] assms
    by (simp_all add: f_def pad_left_def undecimal_leading_zeros undecimal_decimal)
  have dot: "\<not> is_digit (CHR ''.'')" by (simp add: is_digit_def)
  have "(of_nat n :: rat) = of_nat (n div 10 ^ p * 10 ^ p + n mod 10 ^ p)" by (simp only: div_mult_mod_eq)
  also have "\<dots> = of_nat (n div 10 ^ p) * 10 ^ p + of_nat (n mod 10 ^ p)"
    by (simp only: of_nat_add of_nat_mult of_nat_power of_nat_numeral)
  finally have "(of_nat n :: rat) / 10 ^ p = of_nat (n div 10 ^ p) + of_nat (n mod 10 ^ p) / 10 ^ p"
    by (simp add: add_divide_distrib)
  then show ?thesis
    by (simp add: f_def [symmetric] unsigned_value_def split_decimal dot f undecimal_decimal Let_def)
qed

lemma unsigned_value_fixed:
  "unsigned_value (decimal (n div 10 ^ p) @
     (if p = 0 then [] else ''.'' @ pad_left (CHR ''0'') p (decimal (n mod 10 ^ p)))) = of_nat n / 10 ^ p"
  using unsigned_value_fraction [of p n]
  by (cases "p = 0") (simp_all add: unsigned_value_def undecimal_decimal)

lemma number_value_fixed: "number_value (format_fixed p (Fin x)) = of_int (round_even (x * 10 ^ p)) / 10 ^ p"
proof -
  define k where "k = round_even (x * 10 ^ p)"
  define n where "n = nat \<bar>k\<bar>"
  define t where "t = decimal (n div 10 ^ p) @ (if p = 0 then [] else ''.'' @ pad_left (CHR ''0'') p (decimal (n mod 10 ^ p)))"
  have fixed: "format_fixed p (Fin x) = (if x < 0 then ''-'' else []) @ t"
    by (simp add: format_fixed_def Let_def k_def n_def t_def)
  have sign: "x < 0 \<Longrightarrow> k \<le> 0" "\<not> x < 0 \<Longrightarrow> 0 \<le> k"
    unfolding k_def by (rule round_even_le, simp add: mult_nonpos_nonneg, rule round_even_between, simp)
  have "t \<noteq> []" "hd t \<noteq> CHR ''-''" using decimal_nonempty decimal_hd_not_minus by (simp_all add: t_def)
  note signed = number_value_sign [OF this]
  have "unsigned_value t = of_nat n / 10 ^ p" unfolding t_def by (rule unsigned_value_fixed)
  then have "number_value (format_fixed p (Fin x)) = (if x < 0 then - (of_nat n / 10 ^ p) else of_nat n / 10 ^ p)"
    by (simp only: fixed signed)
  then show ?thesis using sign by (auto simp: k_def [symmetric] n_def)
qed

lemma fixed_error: "\<bar>number_value (format_fixed p (Fin x)) - x\<bar> \<le> 1 / 2 / 10 ^ p"
proof -
  have "number_value (format_fixed p (Fin x)) - x = (of_int (round_even (x * 10 ^ p)) - x * 10 ^ p) / 10 ^ p"
    by (simp add: number_value_fixed diff_divide_distrib)
  then have "\<bar>number_value (format_fixed p (Fin x)) - x\<bar> = \<bar>of_int (round_even (x * 10 ^ p)) - x * 10 ^ p\<bar> / 10 ^ p"
    by (simp only: abs_divide power_abs abs_numeral)
  also have "\<dots> \<le> 1 / 2 / 10 ^ p" by (rule divide_right_mono [OF round_even_error]) simp
  finally show ?thesis .
qed

section \<open>Figures under a path\<close>

fun number_at :: "string list \<Rightarrow> json \<Rightarrow> rat option" where
  "number_at [] (JNum t) = Some (number_value t)"
| "number_at (k # ks) (JObj ms) = (case map_of ms k of None \<Rightarrow> None | Some j \<Rightarrow> number_at ks j)"
| "number_at _ _ = None"

lemma report_figures:
  "number_at [''total_bytes''] (report_object m s pt) = Some (of_nat (unat (m_total_bytes m)))"
  "number_at [''chunk_count''] (report_object m s pt) = Some (of_nat (unat (m_chunk_count m)))"
  "number_at [''chunk_sizes'', ''min_bytes''] (report_object m s pt) = Some (of_nat (unat (reported_min m)))"
  "number_at [''chunk_sizes'', ''avg_bytes''] (report_object m s pt) = Some (of_nat (unat (reported_avg m)))"
  "number_at [''chunk_sizes'', ''max_bytes''] (report_object m s pt) = Some (of_nat (unat (m_max_chunk_size m)))"
  "number_at [''buffer_pool'', ''hits''] (report_object m s pt) = Some (of_nat (unat (m_buffer_pool_hits m)))"
  "number_at [''throughput_mbps''] (report_object m s pt) = Some (number_value (format_fixed 1 (json_throughput m s)))"
  by (simp_all add: report_object_def json_u64_def json_fixed_def number_value_decimal)

section \<open>The percentiles of the stages\<close>

text \<open>The nearest-rank percentile of a list of numbers, and the five groups of the report.\<close>

definition rank_value :: "nat \<Rightarrow> nat list \<Rightarrow> nat" where
  "rank_value p ns = (if ns = [] then 0 else sort ns ! (nearest_rank p (length ns) - 1))"

definition stage_fields :: "(string \<times> (chunk_timing \<Rightarrow> u64)) list" where
  "stage_fields = [(''getcommand'', getcommand_us), (''dispatch'', dispatch_us), (''sink'', sink_us),
     (''complete'', complete_us), (''total'', total_us)]"

definition describes_stages :: "json \<Rightarrow> chunk_timing list \<Rightarrow> bool" where
  "describes_stages j tms \<longleftrightarrow> (\<forall>(stage, field)\<in>set stage_fields.
     \<forall>(key, p)\<in>set [(''p50'', 50), (''p95'', 95), (''p99'', 99)].
       number_at [''per_stage_timing_us'', stage, key] j =
         Some (of_nat (rank_value p (map (\<lambda>tm. unat (field tm)) tms))))"

lemma sort_map_unat: "sort (map unat xs) = map unat (sort xs)" for xs :: "u64 list"
  by (rule properties_for_sort) (simp_all add: sorted_map word_le_nat_alt [symmetric])

lemma percentile_rank_value:
  assumes "p \<in> {50, 95, 99}" "length xs < 2 ^ 45"
  shows "unat (percentile xs (Fin (of_nat p))) = rank_value p (map unat xs)"
proof (cases "xs = []")
  case False
  then have "nearest_rank p (length xs) - 1 < length (sort xs)"
    using nearest_rank_bounds [of p "length xs"] assms(1) by auto
  then show ?thesis
    using percentile_eq [OF assms(1) False assms(2)] False by (simp add: rank_value_def sort_map_unat del: length_sort)
qed (simp add: percentile_def rank_value_def)

lemma report_stages:
  assumes "length (m_timings m) < 2 ^ 45"
  shows "describes_stages (report_object m s pt) (m_timings m)"
proof -
  have "unat (stage_p m field 50) = rank_value 50 (map (\<lambda>tm. unat (field tm)) (m_timings m))"
    "unat (stage_p m field 95) = rank_value 95 (map (\<lambda>tm. unat (field tm)) (m_timings m))"
    "unat (stage_p m field 99) = rank_value 99 (map (\<lambda>tm. unat (field tm)) (m_timings m))" for field
    using percentile_rank_value [of 50 "map field (m_timings m)"] percentile_rank_value [of 95 "map field (m_timings m)"]
      percentile_rank_value [of 99 "map field (m_timings m)"] assms
    by (simp_all add: stage_p_def stage_values_def o_def)
  then show ?thesis
    by (simp add: describes_stages_def stage_fields_def report_object_def stage_object_def json_u64_def number_value_decimal)
qed

section \<open>The throughput\<close>

text \<open>
  C32. The throughput a consumer reads is the true rate. In a session of a millisecond or more that
  transferred a byte, the figure a JSON reader finds in the text of to_json is the number of bytes
  over \<open>2 ^ 20\<close> per second of elapsed time, but for the one decimal printed, one part in \<open>2 ^ 50\<close>
  for all the roundings of the double arithmetic, and the cut of the clock to milliseconds, which
  can only raise it, by at most one part in their number. The summary prints the same text.
\<close>

theorem reported_throughput:
  assumes "1000000 \<le> sint (r_steady_clock w h - m_start_time m)" "0 < m_total_bytes m"
  shows "let elapsed = r_steady_clock w h - m_start_time m;
      rate = of_nat (unat (m_total_bytes m)) / 2 ^ 20 / (of_int (sint elapsed) / 10 ^ 9);
      ms = of_int (sint elapsed div 1000000)
    in \<exists>j v. read_json (fst (run_state (to_json w m) h)) = Some j \<and> number_at [''throughput_mbps''] j = Some v
      \<and> rate * (1 - 1 / 2 ^ 50) - 1 / 20 \<le> v \<and> v \<le> rate * (1 + 1 / ms) * (1 + 1 / 2 ^ 50) + 1 / 20
      \<and> format_fixed 1 (summary_throughput m (elapsed_seconds (m_start_time m) (r_steady_clock w h))) =
        format_fixed 1 (json_throughput m (elapsed_seconds (m_start_time m) (r_steady_clock w h)))"
proof -
  let ?now = "r_steady_clock w h" and ?m0 = "m_start_time m"
  obtain x where x: "json_throughput m (elapsed_seconds ?m0 ?now) = Fin x"
      "summary_throughput m (elapsed_seconds ?m0 ?now) = Fin x"
      "of_nat (unat (m_total_bytes m)) / 2 ^ 20 / (of_int (sint (?now - ?m0)) / 10 ^ 9) * (1 - 1 / 2 ^ 50) \<le> x"
      "x \<le> of_nat (unat (m_total_bytes m)) / 2 ^ 20 / (of_int (sint (?now - ?m0)) / 10 ^ 9) *
        (1 + 1 / of_int (sint (?now - ?m0) div 1000000)) * (1 + 1 / 2 ^ 50)"
    using throughput_accuracy [OF assms] unfolding Let_def milliseconds_def by blast
  define v where "v = number_value (format_fixed 1 (Fin x))"
  have v: "x - 1 / 20 \<le> v" "v \<le> x + 1 / 20"
    using fixed_error [of 1 x] unfolding v_def abs_le_iff by simp_all
  obtain j where j: "read_json (fst (run_state (to_json w m) h)) = Some j"
      "number_at [''throughput_mbps''] j = Some v"
    using report_figures(7) x(1) by (auto simp: v_def to_json_def steady_clock_now_def GetProcessTimes_def
        render_report read_json_render report_well_formed elapsed_finite)
  show ?thesis
    unfolding Let_def
    by (intro exI [of _ j] exI [of _ v] conjI j order_trans [OF diff_right_mono [OF x(3)] v(1)]
        order_trans [OF v(2) add_right_mono [OF x(4)]]) (simp only: x(1,2))
qed

text \<open>A megabyte in a second: the figure is between 0.9 and 1.1.\<close>

theorem reported_throughput_witness:
  "\<exists>j v. read_json (fst (run_state (to_json (calm_world\<lparr>r_steady_clock := \<lambda>_. 1000000000\<rparr>)
      (record_chunk 1048576 empty_metrics)) [])) = Some j
    \<and> number_at [''throughput_mbps''] j = Some v \<and> 9 / 10 \<le> v \<and> v \<le> 11 / 10"
  using reported_throughput [of "calm_world\<lparr>r_steady_clock := \<lambda>_. 1000000000\<rparr>" "[]" "record_chunk 1048576 empty_metrics"]
  by (fastforce simp: record_chunk_def record_chunk_size_eq add_bytes_def empty_metrics_def Let_def)

end
