(* ===== verification/Loop_Order.thy ===== *)
theory Loop_Order
  imports Accounting
begin

text \<open>
  The order in which the loop works, and what it records of each command. The devices are asked in
  turn, in the order in which they were opened, until one answer ends the session; and the vector of
  timings has one entry per command completed with success, in their order. Both are equations
  between functions of the history and of the object.
\<close>

section \<open>Who was asked\<close>

fun polled :: "history \<Rightarrow> device list" where
  "polled [] = []"
| "polled (E_GetCommand d t hr c # h) = polled h @ [d]"
| "polled (_ # h) = polled h"

fun opened :: "history \<Rightarrow> device list" where
  "opened [] = []"
| "opened (E_OpenDevice ds nm hr d # h) = opened h @ (if hr_failed hr then [] else [d])"
| "opened (_ # h) = opened h"

fun is_open_event :: "event \<Rightarrow> bool" where
  "is_open_event (E_OpenDevice _ _ _ _) = True"
| "is_open_event _ = False"

abbreviation no_open :: "history \<Rightarrow> history \<Rightarrow> bool" where
  "no_open \<equiv> extends (\<lambda>e. \<not> is_open_event e)"

lemma polled_outer: "outer h h' \<Longrightarrow> polled h' = polled h"
proof (rule extends_same [of is_outer])
  show "is_outer e \<Longrightarrow> polled (e # h) = polled h" for e h by (cases e) auto
qed

lemmas polled_quiet = outer_of(1) [THEN polled_outer]

lemma opened_no_open: "no_open h h' \<Longrightarrow> opened h' = opened h"
proof (rule extends_same [of "\<lambda>e. \<not> is_open_event e"])
  show "\<not> is_open_event e \<Longrightarrow> opened (e # h) = opened h" for e h by (cases e) auto
qed

lemma no_open_of:
  "quiet h h' \<Longrightarrow> no_open h h'" "extends is_sink_event h h' \<Longrightarrow> no_open h h'"
  "extends is_report h h' \<Longrightarrow> no_open h h'" "extends is_log h h' \<Longrightarrow> no_open h h'"
proof -
  have "is_quiet e \<Longrightarrow> \<not> is_open_event e" "is_sink_event e \<Longrightarrow> \<not> is_open_event e"
    "is_report e \<Longrightarrow> \<not> is_open_event e" "is_log e \<Longrightarrow> \<not> is_open_event e" for e
    by (cases e; simp)+
  then show "quiet h h' \<Longrightarrow> no_open h h'" "extends is_sink_event h h' \<Longrightarrow> no_open h h'"
    "extends is_report h h' \<Longrightarrow> no_open h h'" "extends is_log h h' \<Longrightarrow> no_open h h'"
    by (auto elim: extends_mono)
qed

lemma received_polled: "received w d s hr c c1 h \<Longrightarrow> polled h = polled (hist s) @ [d]"
  by (auto simp: received_def dest!: polled_quiet)

lemma completed_polled: "completed w d cmd h hr h' \<Longrightarrow> polled h' = polled h"
  by (auto simp: completed_def dest!: polled_quiet)

lemmas opened_quiet = no_open_of(1) [THEN opened_no_open]

lemma no_open_trans: "no_open h h' \<Longrightarrow> no_open h0 h \<Longrightarrow> no_open h0 h'"
  by (rule extends_trans)

lemmas no_open_back = no_open_trans no_open_of [THEN no_open_trans]

lemma received_opened: "received w d s hr c c1 h \<Longrightarrow> opened h = opened (hist s)"
  by (auto simp: received_def dest!: opened_quiet)

lemma completed_opened: "completed w d cmd h hr h' \<Longrightarrow> opened h' = opened h"
  by (auto simp: completed_def dest!: opened_quiet)

lemma log_opened: "extends is_log h h' \<Longrightarrow> opened h' = opened h \<and> device_refs h' = device_refs h"
  by (simp add: opened_no_open no_open_of log_same)

lemma open_all_devices_opened:
  "wp (open_all_devices w ds i n devs) (\<lambda>r s'. \<exists>new. opened (hist s') = opened (hist s) @ new \<and>
     device_refs (hist s') = (\<lambda>d. device_refs (hist s) d + int (count_list new d)) \<and>
     (case r of None \<Rightarrow> length new < n \<and> m_state (cl s') = FAILED
        | Some devices \<Rightarrow> devices = devs @ new \<and> length new = n)) s"
proof (induction n arbitrary: i devs s)
  case (Suc n)
  show ?case
    unfolding open_all_devices.simps OpenDevice_def
    by (intro wp_intros wp_mono [OF Suc]) (auto dest!: log_opened simp: fun_eq_iff split: option.splits)
qed (auto intro!: wp_intros)

section \<open>What was completed\<close>

fun completed_cmds :: "history \<Rightarrow> vdc_command list" where
  "completed_cmds [] = []"
| "completed_cmds (E_CompleteCommand d cmd code n pos hr # h) =
     completed_cmds h @ (if hr_failed hr then [] else [cmd])"
| "completed_cmds (_ # h) = completed_cmds h"

lemma completed_cmds_outer: "outer h h' \<Longrightarrow> completed_cmds h' = completed_cmds h"
proof (rule extends_same [of is_outer])
  show "is_outer e \<Longrightarrow> completed_cmds (e # h) = completed_cmds h" for e h by (cases e) auto
qed

lemmas completed_cmds_quiet = outer_of(1) [THEN completed_cmds_outer]

lemma received_completed_cmds:
  "received w d s hr c c1 h \<Longrightarrow> completed_cmds h = completed_cmds (hist s) \<and>
   m_metrics c1 = m_metrics (cl s)"
  by (auto simp: received_def dest!: completed_cmds_quiet)

lemma completed_completed_cmds:
  "completed w d cmd h hr h' \<Longrightarrow>
   completed_cmds h' = completed_cmds h @ (if hr_failed hr then [] else [cmd])"
  by (auto simp: completed_def dest!: completed_cmds_quiet)

lemma quiet_order: "quiet h h' \<Longrightarrow> polled h' = polled h \<and> completed_cmds h' = completed_cmds h"
  by (blast intro: polled_quiet completed_cmds_quiet)

lemma timings_fields [simp]:
  "m_timings (count_chunk cmd m) = m_timings m" "m_timings (m_metrics (pool_use c)) = m_timings (m_metrics c)"
  "m_timings (m_metrics (account cmd c)) = m_timings (m_metrics c)"
  by (simp_all add: account_def pool_use_def Let_def count_chunk_def add_bytes_def record_chunk_size_eq
      record_buffer_acquire_def record_buffer_release_def split: prod.splits option.splits)

definition timed :: "'s sys \<Rightarrow> bool" where
  "timed s \<longleftrightarrow> list_all2 timing_of (completed_cmds (hist s)) (m_timings (m_metrics (cl s)))"

text \<open>
  The only command that can be completed without an entry: the one at which the fault injector
  fired, after which the session ends.
\<close>

definition timed_but_fault :: "world \<Rightarrow> 's sys \<Rightarrow> bool" where
  "timed_but_fault w s \<longleftrightarrow> timed s \<or> FAULT_INJECTION_ENABLED w \<and> m_state (cl s) = FAILED \<and>
     list_all2 timing_of (butlast (completed_cmds (hist s))) (m_timings (m_metrics (cl s)))"

text \<open>Induction over the rounds of a loop that ended.\<close>

lemma command_loop_induct [consumes 1, case_names last more]:
  assumes "command_loop w vt start ds s = Some (r, s')"
    and last: "\<And>s r s1. run_state (device_round w vt start ds) s = (r, s1) \<Longrightarrow> r \<noteq> Next \<Longrightarrow> P s s1"
    and more: "\<And>s s1 s'. run_state (device_round w vt start ds) s = (Next, s1) \<Longrightarrow> P s1 s' \<Longrightarrow> P s s'"
  shows "P s s'"
proof -
  have "(\<forall>s r s1. run_state (device_round w vt start ds) s = (r, s1) \<longrightarrow> r \<noteq> Next \<longrightarrow> P s s1) \<longrightarrow>
      (\<forall>s s1 s'. run_state (device_round w vt start ds) s = (Next, s1) \<longrightarrow> P s1 s' \<longrightarrow> P s s') \<longrightarrow> P s (snd (r, s'))"
  proof (rule command_loop.raw_induct [OF _ assms(1), where P = "\<lambda>w vt start ds s x.
      (\<forall>s r s1. run_state (device_round w vt start ds) s = (r, s1) \<longrightarrow> r \<noteq> Next \<longrightarrow> P s s1) \<longrightarrow>
      (\<forall>s s1 s'. run_state (device_round w vt start ds) s = (Next, s1) \<longrightarrow> P s1 s' \<longrightarrow> P s s') \<longrightarrow> P s (snd x)"])
  qed (auto split: prod.splits if_splits)
  with last more show ?thesis by auto
qed

context sink_contract
begin

lemma flush_order:
  "run_state (vt_flush vt) (sk, h) = (u, sk', h') \<Longrightarrow>
   polled h' = polled h \<and> completed_cmds h' = completed_cmds h"
  using polled_outer completed_cmds_outer flush_outer by blast

lemma write_order:
  "run_state (vt_write vt data n) (sk, h) = (ok, sk', h') \<Longrightarrow>
   polled h' = polled h \<and> completed_cmds h' = completed_cmds h"
  by (drule wpD [OF write_frame]) (auto intro: polled_outer completed_cmds_outer)

lemma served_order:
  "served vt cmd c h c2 h2 \<Longrightarrow> polled h2 = polled h \<and> completed_cmds h2 = completed_cmds h \<and>
   m_timings (m_metrics c2) = m_timings (m_metrics c)"
  by (erule served.cases) (auto dest!: quiet_order write_order)

lemma device_step_polled: "device_step w vt d s r s' \<Longrightarrow> polled (hist s') = polled (hist s) @ [d]"
  by (erule device_step.cases)
    (auto dest!: received_polled polled_quiet flush_order write_order served_order completed_polled)

lemma device_step_timed:
  assumes "device_step w vt d s r s'" "timed s"
  shows "if r = Next then timed s' else timed_but_fault w s'"
  using assms(1)
proof cases
  case (fault_injected hr cmd c1 h c2 h2 hr2 h' fi)
  then have "FAULT_INJECTION_ENABLED w" by (auto simp: on_chunk_completed_def split: if_splits)
  with fault_injected assms(2) show ?thesis
    using received_completed_cmds [OF fault_injected(3)] served_order [OF fault_injected(5)]
      completed_completed_cmds [OF fault_injected(6)]
    by (simp add: timed_but_fault_def timed_def)
next
  case (command_done hr cmd c1 h c2 h2 hr2 h' fi tm)
  with assms(2) show ?thesis
    using received_completed_cmds [OF command_done(3)] served_order [OF command_done(5)]
      completed_completed_cmds [OF command_done(6)]
    by (simp add: timed_def record_chunk_timing_def list_all2_appendI)
qed (use assms(2) in \<open>auto simp: timed_but_fault_def timed_def dest!: received_completed_cmds
  quiet_order flush_order write_order served_order completed_completed_cmds\<close>)

section \<open>Round after round\<close>

lemma device_round_polled:
  "wp (device_round w vt start ds) (\<lambda>r s'. \<exists>k \<le> length ds.
     polled (hist s') = polled (hist s) @ take k ds \<and> (r = Next \<longrightarrow> k = length ds)) s"
proof (induction ds arbitrary: s)
  case (Cons d ds)
  show ?case
    unfolding device_round.simps
  proof (rule wp_bind, rule wp_mono [OF process_device_step], intro wp_intros)
    fix r s1 assume step: "device_step w vt d s r s1" "r = Next"
    show "wp (device_round w vt start ds) (\<lambda>r s'. \<exists>k \<le> length (d # ds).
        polled (hist s') = polled (hist s) @ take k (d # ds) \<and> (r = Next \<longrightarrow> k = length (d # ds))) s1"
    proof (rule wp_mono [OF Cons], elim exE conjE)
      fix r s' k
      assume "k \<le> length ds" "polled (hist s') = polled (hist s1) @ take k ds" "r = Next \<longrightarrow> k = length ds"
      then show "\<exists>k \<le> length (d # ds). polled (hist s') = polled (hist s) @ take k (d # ds) \<and>
          (r = Next \<longrightarrow> k = length (d # ds))"
        using device_step_polled [OF step(1)] by (intro exI [of _ "Suc k"]) simp
    qed
  next
    fix r s1 assume step: "device_step w vt d s r s1" "r \<noteq> Next"
    then show "\<exists>k \<le> length (d # ds). polled (hist s1) = polled (hist s) @ take k (d # ds) \<and>
        (r = Next \<longrightarrow> k = length (d # ds))"
      using device_step_polled [OF step(1)] by (intro exI [of _ 1]) simp
  qed
qed (auto intro: wp_intros)

lemma command_loop_polled:
  assumes "command_loop w vt start ds s = Some (r, s')"
  shows "\<exists>n. \<exists>k \<le> length ds. polled (hist s') = polled (hist s) @ concat (replicate n ds) @ take k ds"
proof (rule command_loop_induct [OF assms])
  fix s r s1
  assume "run_state (device_round w vt start ds) s = (r, s1)" "r \<noteq> Next"
  from wpD [OF device_round_polled this(1)]
  show "\<exists>n. \<exists>k \<le> length ds. polled (hist s1) = polled (hist s) @ concat (replicate n ds) @ take k ds"
    by (metis append_Nil concat.simps(1) replicate_0)
next
  fix s s1 s'
  assume rd: "run_state (device_round w vt start ds) s = (Next, s1)"
    and "\<exists>n. \<exists>k \<le> length ds. polled (hist s') = polled (hist s1) @ concat (replicate n ds) @ take k ds"
  then obtain n k where
    "k \<le> length ds" "polled (hist s') = polled (hist s1) @ concat (replicate n ds) @ take k ds" by blast
  moreover have "polled (hist s1) = polled (hist s) @ ds" using wpD [OF device_round_polled rd] by auto
  ultimately show "\<exists>n. \<exists>k \<le> length ds. polled (hist s') = polled (hist s) @ concat (replicate n ds) @ take k ds"
    by (intro exI [of _ "Suc n"] exI [of _ k]) simp
qed

lemma flush_no_open: "run_state (vt_flush vt) (sk, h) = (u, sk', h') \<Longrightarrow> no_open h h'"
  by (drule wpD [OF flush_frame]) (simp add: no_open_of)

lemma write_opened: "run_state (vt_write vt data n) (sk, h) = (ok, sk', h') \<Longrightarrow> opened h' = opened h"
  by (drule wpD [OF write_frame]) (simp add: no_open_of opened_no_open)

lemma served_opened: "served vt cmd c h c2 h2 \<Longrightarrow> opened h2 = opened h"
  by (erule served.cases) (auto dest!: opened_quiet write_opened)

lemma device_step_opened: "device_step w vt d s r s' \<Longrightarrow> opened (hist s') = opened (hist s)"
  by (erule device_step.cases)
    (auto dest!: received_opened opened_quiet flush_no_open [THEN opened_no_open] write_opened
      served_opened completed_opened)

lemma command_loop_opened:
  assumes "command_loop w vt start ds s = Some (r, s')"
  shows "opened (hist s') = opened (hist s)"
  using command_loop_rule [OF assms, where I = "\<lambda>t. opened (hist t) = opened (hist s)"
      and F = "\<lambda>_ t. opened (hist t) = opened (hist s)"] device_step_opened by auto

lemma command_loop_timed:
  assumes "command_loop w vt start ds s = Some (r, s')" "timed s"
  shows "timed_but_fault w s'"
proof -
  have "r \<noteq> Next \<and> timed_but_fault w s'"
    by (rule command_loop_rule [OF assms(1), where I = timed and F = "\<lambda>_. timed_but_fault w"])
      (use assms(2) device_step_timed in auto)
  then show ?thesis by blast
qed

lemma close_no_open: "wp (close w vt) (\<lambda>_ s'. no_open (hist s) (hist s')) s"
  unfolding close_def flush_before_close_def close_device_set_def SetClose_def SetRelease_def
  by (intro wp_intros; simp) (drule flush_no_open | erule no_open_back | rule extends_Cons | simp)+

lemma after_loop_no_open: "wp (after_loop w vt devices) (\<lambda>_ s'. no_open (hist s) (hist s')) s"
proof -
  have rel: "wp (release_all ds) (\<lambda>_ h'. no_open h h') h" for ds h
  proof (induction ds arbitrary: h)
    case (Cons d ds)
    show ?case
      unfolding release_all.simps DeviceRelease_def
      by (intro wp_intros wp_mono [OF Cons]) (erule no_open_back | rule extends_Cons | simp)+
  qed (auto intro: wp_intros)
  have rep: "wp (report w) (\<lambda>_ s'. no_open (hist s) (hist s')) s" for s :: "'s sys"
    unfolding report_def
    by (intro wp_intros wp_mono [OF wp_print_summary] wp_mono [OF wp_to_json]; simp)
      (erule no_open_back | rule extends_Cons | simp)+
  show ?thesis
    unfolding after_loop_def
    by (intro wp_intros wp_mono [OF rel] wp_mono [OF close_no_open] wp_mono [OF rep]; simp)
      (erule no_open_back | rule extends_Cons | simp)+
qed

lemma after_loop_timings:
  "wp (after_loop w vt devices) (\<lambda>_ s'. m_timings (m_metrics (cl s')) = m_timings (m_metrics (cl s)) \<and>
     (m_state (cl s) = FAILED \<longrightarrow> m_state (cl s') = FAILED)) s"
  unfolding after_loop_def close_def flush_before_close_def close_device_set_def SetClose_def SetRelease_def
  by (intro wp_intros wp_mono [OF release_all_outer] wp_mono [OF report_spec]) auto

end

section \<open>The whole of process_commands\<close>

lemma device_total_pos: "0 < device_total c"
  by (simp add: device_total_def)

lemma process_prologue_opened:
  "wp (process_prologue w) (\<lambda>r s'. \<exists>new. opened (hist s') = opened (hist s) @ new \<and>
     device_refs (hist s') = (\<lambda>d. device_refs (hist s) d + int (count_list new d)) \<and>
     (case r of
        None \<Rightarrow> length new < device_total (cl s) \<and>
          (m_state (cl s) = STREAMING \<longrightarrow> m_device_set (cl s) \<noteq> None \<longrightarrow> m_state (cl s') = FAILED)
      | Some devices \<Rightarrow> devices = new \<and> length new = device_total (cl s))) s"
  unfolding process_prologue_def
  by (intro wp_intros wp_mono [OF open_all_devices_opened])
    (auto dest!: log_opened simp: device_total_pos split: option.splits)

lemma prologue_same:
  assumes "run_state (process_prologue w) s = (x, s')"
  shows "polled (hist s') = polled (hist s)" "completed_cmds (hist s') = completed_cmds (hist s)"
    "m_metrics (cl s') = m_metrics (cl s)"
  using wpD [OF process_prologue_outer assms] wpD [OF process_prologue_spec assms]
  by (auto simp: polled_outer completed_cmds_outer split: option.splits)

lemma clock_same:
  assumes "run_state (start_session_clock w) s = (x, s')"
  shows "polled (hist s') = polled (hist s)" "completed_cmds (hist s') = completed_cmds (hist s)"
    "opened (hist s') = opened (hist s)" "m_metrics (cl s') = m_metrics (cl s)"
  using wpD [OF start_session_clock_spec assms]
  by (auto simp: polled_quiet completed_cmds_quiet opened_quiet)

context sink_contract
begin

lemma process_commands_opened:
  assumes "process_commands w vt s = Some (out, s')" "run_state (process_prologue w) s = (x, s1)"
  shows "opened (hist s') = opened (hist s1)"
  using assms(1)
proof (cases rule: process_commands_cases)
  case (ran devices t1 start s2 r s3)
  have "opened (hist s3) = opened (hist t1)"
    using command_loop_opened [OF ran(3)] clock_same(3) [OF ran(2)] by simp
  then show ?thesis
    using after_loop_no_open [of w devices s3] ran(1,5) assms(2)
    by (auto simp: wp_snd opened_no_open split: if_splits)
qed (use assms(2) in simp)

lemma process_commands_polled:
  assumes "process_commands w vt s = Some (out, s')"
  shows "\<exists>ds n k. opened (hist s') = opened (hist s) @ ds \<and> k \<le> length ds \<and>
    polled (hist s') = polled (hist s) @ concat (replicate n ds) @ take k ds \<and>
    (length ds = device_total (cl s) \<or> length ds < device_total (cl s) \<and> n = 0 \<and> k = 0)"
  using assms
proof (cases rule: process_commands_cases)
  case stopped
  then show ?thesis
    using wpD [OF process_prologue_opened stopped(1)] prologue_same [OF stopped(1)]
    by (auto intro!: exI [of _ 0])
next
  case (ran devices s1 start s2 r s3)
  have o1: "opened (hist s1) = opened (hist s) @ devices" "length devices = device_total (cl s)"
    using wpD [OF process_prologue_opened ran(1)] by auto
  obtain n k where loop: "k \<le> length devices"
      "polled (hist s3) = polled (hist s) @ concat (replicate n devices) @ take k devices"
    using command_loop_polled [OF ran(3)] prologue_same(1) [OF ran(1)] clock_same(1) [OF ran(2)] by auto
  have "polled (hist s') = polled (hist s3)"
    using after_loop_outer [of w devices s3] ran(5) by (auto simp: wp_snd polled_outer split: if_splits)
  then show ?thesis
    using o1 loop process_commands_opened [OF assms ran(1)] by (intro exI [of _ devices] exI [of _ n] exI [of _ k]) simp
qed

lemma process_commands_timed:
  assumes "process_commands w vt s = Some (out, s')" "timed s"
  shows "timed_but_fault w s'"
  using assms(1)
proof (cases rule: process_commands_cases)
  case stopped
  then show ?thesis
    using prologue_same [OF stopped(1)] assms(2) by (simp add: timed_but_fault_def timed_def)
next
  case (ran devices s1 start s2 r s3)
  have "timed s2" using prologue_same [OF ran(1)] clock_same [OF ran(2)] assms(2) by (simp add: timed_def)
  then have "timed_but_fault w s3" by (rule command_loop_timed [OF ran(3)])
  moreover have "completed_cmds (hist s') = completed_cmds (hist s3) \<and>
      m_timings (m_metrics (cl s')) = m_timings (m_metrics (cl s3)) \<and>
      (m_state (cl s3) = FAILED \<longrightarrow> m_state (cl s') = FAILED)"
  proof (cases "r = Crash")
    case False
    then have "s' = snd (run_state (after_loop w vt devices) s3)" using ran(5) by simp
    then show ?thesis
      using after_loop_outer [of w devices s3] after_loop_timings [of w devices s3]
      by (simp add: wp_snd completed_cmds_outer)
  qed (use ran(5) in simp)
  ultimately show ?thesis by (auto simp: timed_but_fault_def timed_def)
qed

lemma process_commands_stopped_leaks:
  assumes "process_commands w vt s = Some (out, s')"
    and "opened (hist s') = opened (hist s) @ new" "length new < device_total (cl s)"
  shows "out = Returned \<and> polled (hist s') = polled (hist s) \<and>
    device_refs (hist s') = (\<lambda>d. device_refs (hist s) d + int (count_list new d)) \<and>
    (m_state (cl s) = STREAMING \<longrightarrow> m_device_set (cl s) \<noteq> None \<longrightarrow> m_state (cl s') = FAILED)"
  using assms(1)
proof (cases rule: process_commands_cases)
  case stopped
  then show ?thesis
    using wpD [OF process_prologue_opened stopped(1)] prologue_same(1) [OF stopped(1)] assms(2) by auto
next
  case (ran devices s1 start s2 r s3)
  then show ?thesis
    using wpD [OF process_prologue_opened ran(1)] process_commands_opened [OF assms(1) ran(1)] assms(2,3) by auto
qed

end

section \<open>How a session ends\<close>

fun last_reply :: "history \<Rightarrow> (hresult \<times> vdc_command option) option" where
  "last_reply [] = None"
| "last_reply (E_GetCommand d t hr c # h) = Some (hr, c)"
| "last_reply (_ # h) = last_reply h"

text \<open>The state that the last answer of GetCommand calls for, once the loop has been left.\<close>

definition verdict :: "hresult \<times> vdc_command option \<Rightarrow> session_state" where
  "verdict rep = (case rep of (hr, c) \<Rightarrow>
     if hr = VD_E_CLOSE \<or> hr = VD_E_EOF then CLOSED
     else if hr_succeeded hr \<and> map_option commandCode c = Some VDC_Close then STREAMING
     else FAILED)"

text \<open>The step that ends the loop leaves the state of the verdict, FLUSHING standing for CLOSED.\<close>

definition left_as_told :: "'s sys \<Rightarrow> bool" where
  "left_as_told s \<longleftrightarrow> (case last_reply (hist s) of None \<Rightarrow> False
     | Some rep \<Rightarrow> m_state (cl s) = (if verdict rep = CLOSED then FLUSHING else verdict rep))"

lemma last_reply_outer: "outer h h' \<Longrightarrow> last_reply h' = last_reply h"
proof (rule extends_same [of is_outer])
  show "is_outer e \<Longrightarrow> last_reply (e # h) = last_reply h" for e h by (cases e) auto
qed

lemmas last_reply_quiet = outer_of(1) [THEN last_reply_outer]

lemma received_reply: "received w d s hr c c1 h \<Longrightarrow> last_reply h = Some (hr, c) \<and> m_state c1 = m_state (cl s)"
  by (auto simp: received_def dest!: last_reply_quiet)

lemma completed_reply: "completed w d cmd h hr h' \<Longrightarrow> last_reply h' = last_reply h"
  by (auto simp: completed_def dest!: last_reply_quiet)

lemma graceful_failed: "hr_failed VD_E_CLOSE" "hr_failed VD_E_EOF"
  by (simp_all add: hr_failed_def VD_E_CLOSE_def VD_E_EOF_def)

context sink_contract
begin

lemma flush_reply: "run_state (vt_flush vt) (sk, h) = (u, sk', h') \<Longrightarrow> last_reply h' = last_reply h"
  using last_reply_outer flush_outer by blast

lemma write_reply: "run_state (vt_write vt data n) (sk, h) = (ok, sk', h') \<Longrightarrow> last_reply h' = last_reply h"
  by (drule wpD [OF write_frame]) (auto intro: last_reply_outer)

lemma served_reply:
  "served vt cmd c h c2 h2 \<Longrightarrow> last_reply h2 = last_reply h \<and> commandCode cmd \<noteq> VDC_Close"
  by (erule served.cases) (auto simp: VDC_defs dest!: last_reply_quiet write_reply)


lemma device_step_verdict:
  assumes "device_step w vt d s r s'" "r = Stop" "m_state (cl s) = STREAMING"
  shows "left_as_told s'"
  using assms
  by (cases rule: device_step.cases)
    (auto simp: left_as_told_def verdict_def graceful_failed VDC_defs dest!: received_reply last_reply_quiet flush_reply
      write_reply served_reply completed_reply)

lemma command_loop_told:
  assumes "command_loop w vt start ds s = Some (r, s')" "m_state (cl s) = STREAMING"
  shows "r = Stop \<longrightarrow> left_as_told s'"
proof -
  have step: "if r = Next then m_state (cl t') = STREAMING else r = Stop \<longrightarrow> left_as_told t'"
    if "m_state (cl t) = STREAMING" "device_step w vt d t r t'" for d t r t'
    using device_step_state [OF that(2,1)] device_step_verdict [OF that(2) _ that(1)] by auto
  have "r \<noteq> Next \<and> (r = Stop \<longrightarrow> left_as_told s')"
    by (rule command_loop_rule [OF assms(1), where I = "\<lambda>t. m_state (cl t) = STREAMING" and
        F = "\<lambda>r t. r = Stop \<longrightarrow> left_as_told t"]) (fact assms(2), rule step)
  then show ?thesis by blast
qed

lemma process_commands_verdict:
  assumes "process_commands w vt s = Some (Returned, s')" "m_state (cl s) = STREAMING"
    "m_device_set (cl s) \<noteq> None" "\<not> m_devices_closed (cl s)"
  shows "\<exists>ds. opened (hist s') = opened (hist s) @ ds \<and>
    (if length ds < device_total (cl s) then m_state (cl s') = FAILED
     else map_option verdict (last_reply (hist s')) = Some (m_state (cl s')))"
  using assms(1)
proof (cases rule: process_commands_cases)
  case stopped
  then show ?thesis using wpD [OF process_prologue_opened stopped(1)] assms(2,3) by auto
next
  case (ran devices s1 start s2 r s3)
  have s2: "m_state (cl s2) = STREAMING" "m_devices_closed (cl s2) = m_devices_closed (cl s)"
    using wpD [OF process_prologue_spec ran(1)] wpD [OF start_session_clock_spec ran(2)] by auto
  have r: "r = Stop" "s' = snd (run_state (after_loop w vt devices) s3)"
    using ran(4,5) by (cases r; simp)+
  then obtain rep where rep: "last_reply (hist s3) = Some rep"
      "m_state (cl s3) = (if verdict rep = CLOSED then FLUSHING else verdict rep)"
    using command_loop_told [OF ran(3) s2(1)] by (auto simp: left_as_told_def split: option.splits)
  have "verdict rep \<noteq> FLUSHING" by (auto simp: verdict_def split: prod.splits)
  have "\<not> m_devices_closed (cl s3)"
    using command_loop_spec [OF ran(3) s2(1)] s2(2) assms(4) by (simp add: same_resources_def fixed_part_def)
  then have "m_state (cl s') = verdict rep"
    using after_loop_spec [of s3 w devices] r(2) rep(2) \<open>verdict rep \<noteq> FLUSHING\<close>
    by (auto simp: wp_snd split: if_splits)
  moreover have "last_reply (hist s') = Some rep"
    using after_loop_outer [of w devices s3] r(2) rep(1) by (simp add: wp_snd last_reply_outer)
  ultimately show ?thesis
    using wpD [OF process_prologue_opened ran(1)] process_commands_opened [OF assms(1) ran(1)] by auto
qed

end

section \<open>Properties\<close>

text \<open>
  C10. What a session ends in is what SQL Server said last. When process_commands returns, called in
  STREAMING on an open client: if a device could not be opened the state is FAILED; otherwise it is
  CLOSED exactly if the last answer of GetCommand was VD_E_CLOSE or VD_E_EOF, STREAMING exactly if it
  delivered a VDC_Close command, and FAILED after any other, whatever the sink and the injected
  faults did to bring the loop to its end.
\<close>

theorem session_outcome:
  assumes "sink_contract vt" "process_commands w vt s = Some (Returned, s')"
    and "m_state (cl s) = STREAMING" "m_device_set (cl s) \<noteq> None" "\<not> m_devices_closed (cl s)"
  shows "\<exists>ds. opened (hist s') = opened (hist s) @ ds \<and>
    (if length ds < device_total (cl s) then m_state (cl s') = FAILED
     else map_option verdict (last_reply (hist s')) = Some (m_state (cl s')))"
  using assms by (rule sink_contract.process_commands_verdict)

theorem session_outcome_witness:
  "\<exists>s'. process_commands (one_write_world True) (file_vtbl (one_write_world True)) demo_file_session = Some (Returned, s')
     \<and> m_state (cl s') = CLOSED \<and> map_option verdict (last_reply (hist s')) = Some CLOSED"
proof -
  obtain s' where s': "process_commands (one_write_world True) (file_vtbl (one_write_world True)) demo_file_session
      = Some (Returned, s')" "m_state (cl s') = CLOSED"
    using demo_run by blast
  have "m_state (cl demo_file_session) = STREAMING" "m_device_set (cl demo_file_session) \<noteq> None"
    "\<not> m_devices_closed (cl demo_file_session)"
    by (simp_all add: demo_file_session_def)
  from session_outcome [OF file_frame.sink_contract_axioms s'(1) this] s' show ?thesis
    by (auto split: if_splits)
qed

text \<open>
  C15. The devices are polled in turn. Whatever process_commands does, there is a list \<open>ds\<close> of the
  devices it opened, in the order of the calls, such that the devices asked for a command are \<open>ds\<close>
  repeated some number of times and then a part of \<open>ds\<close>: no device is asked twice before every other
  one was asked, and none is asked at all unless all those configured could be opened.
\<close>

theorem devices_polled_in_turn:
  assumes "sink_contract vt" "process_commands w vt s = Some (out, s')"
  shows "\<exists>ds n k. opened (hist s') = opened (hist s) @ ds \<and> k \<le> length ds \<and>
    polled (hist s') = polled (hist s) @ concat (replicate n ds) @ take k ds \<and>
    (length ds = device_total (cl s) \<or> length ds < device_total (cl s) \<and> n = 0 \<and> k = 0)"
  using assms by (rule sink_contract.process_commands_polled)

text \<open>Two devices that time out once each; then the first one ends the session.\<close>

definition turn_world :: world where
  "turn_world = calm_world\<lparr>r_OpenDevice := (\<lambda>h nm. (S_OK, if opened h = [] then 1 else 2)),
     r_GetCommand := (\<lambda>h d t. if get_count h < 2 then (VD_E_TIMEOUT, None) else (VD_E_EOF, None))\<rparr>"

definition demo_two :: "unit sys" where
  "demo_two = demo_streaming\<lparr>cl := (cl demo_streaming)\<lparr>m_device_count := 2\<rparr>\<rparr>"

lemma demo_two_prologue:
  "case run_state (process_prologue turn_world) demo_two of (x, s') \<Rightarrow> opened (hist s') = [1, 2]"
  by (simp add: process_prologue_def device_total_def numeral_eq_Suc OpenDevice_def turn_world_def
      demo_two_def demo_eqs calm_world_def do_io_def upd_def log_defs LOG_LEVEL_INFO_def S_OK_def hr_failed_def)

theorem devices_polled_in_turn_witness:
  "\<exists>s' n k. process_commands turn_world null_vtbl demo_two = Some (Returned, s') \<and>
     opened (hist s') = [1, 2] \<and> k \<le> 2 \<and> polled (hist s') = concat (replicate n [1, 2]) @ take k [1, 2]"
proof -
  have "closes_after 2 turn_world" by (simp add: closes_after_def turn_world_def)
  moreover have start: "m_sink (cl demo_two) \<noteq> None" "opened (hist demo_two) = []" "polled (hist demo_two) = []"
    "device_total (cl demo_two) = 2"
    by (simp_all add: demo_two_def demo_eqs device_total_def)
  ultimately obtain s' where s': "process_commands turn_world null_vtbl demo_two = Some (Returned, s')"
    using process_commands_returns [OF null.sink_contract_axioms] by blast
  have "opened (hist s') = [1, 2]"
    using null.process_commands_opened [OF s'] demo_two_prologue by (auto split: prod.splits)
  moreover obtain ds n k where d: "opened (hist s') = opened (hist demo_two) @ ds" "k \<le> length ds"
      "polled (hist s') = polled (hist demo_two) @ concat (replicate n ds) @ take k ds"
    using devices_polled_in_turn [OF null.sink_contract_axioms s'] by blast
  ultimately have "ds = [1, 2]" using start(2) by simp
  with d s' start show ?thesis by (intro exI [of _ s'] exI [of _ n] exI [of _ k]) simp
qed

text \<open>
  C17. The timings are those of the completed commands. After process_commands, on a client whose
  vector had one entry per completed command before (a new one has neither): the \<open>i\<close>-th entry
  belongs to the \<open>i\<close>-th command whose completion succeeded, carries its size, a total that is the sum
  of the four stages and, unless it is a write, a sink time of 0. Only the command at which an
  injected fault fired has no entry, and then the session is FAILED.
\<close>

theorem timings_match_completions:
  assumes "sink_contract vt" "process_commands w vt s = Some (out, s')"
    and "list_all2 timing_of (completed_cmds (hist s)) (m_timings (m_metrics (cl s)))"
  shows "list_all2 timing_of (completed_cmds (hist s')) (m_timings (m_metrics (cl s'))) \<or>
    FAULT_INJECTION_ENABLED w \<and> m_state (cl s') = FAILED \<and>
    list_all2 timing_of (butlast (completed_cmds (hist s'))) (m_timings (m_metrics (cl s')))"
  using sink_contract.process_commands_timed [OF assms(1,2)] assms(3)
  by (simp add: timed_def timed_but_fault_def)

theorem timings_match_completions_witness:
  "\<exists>s'. process_commands (one_write_world True) (file_vtbl (one_write_world True)) demo_file_session = Some (Returned, s')
     \<and> list_all2 timing_of (completed_cmds (hist s')) (m_timings (m_metrics (cl s')))"
proof -
  obtain s' where s': "process_commands (one_write_world True) (file_vtbl (one_write_world True)) demo_file_session
      = Some (Returned, s')"
    using demo_run by blast
  have "list_all2 timing_of (completed_cmds (hist demo_file_session)) (m_timings (m_metrics (cl demo_file_session)))"
    by (simp add: demo_file_session_def empty_metrics_def)
  from timings_match_completions [OF file_frame.sink_contract_axioms s' this] s' show ?thesis
    by (auto simp: ow)
qed

text \<open>
  C22. A failing OpenDevice leaks the devices opened before it. Whenever process_commands, called in
  STREAMING with a device set, opened fewer devices than are configured, it returns in FAILED without
  asking for a command, and every device \<open>new\<close> it did open is still open after the destructor.
\<close>

theorem failed_open_leaks:
  assumes "sink_contract vt" "process_commands w vt s = Some (out, s')"
    and "m_state (cl s) = STREAMING" "m_device_set (cl s) \<noteq> None"
    and "opened (hist s') = opened (hist s) @ new" "length new < device_total (cl s)"
  shows "out = Returned \<and> m_state (cl s') = FAILED \<and> polled (hist s') = polled (hist s) \<and>
    device_refs (hist (snd (run_state (VdiClient_dtor w vt) s'))) =
      (\<lambda>d. device_refs (hist s) d + int (count_list new d))"
  using sink_contract.process_commands_stopped_leaks [OF assms(1,2,5,6)] assms(3,4)
    sink_contract.VdiClient_dtor_spec [OF assms(1), of w s'] by (simp add: wp_snd)

text \<open>Three devices are configured and the third OpenDevice is refused: two handles stay open.\<close>

definition two_of_three_world :: world where
  "two_of_three_world = turn_world\<lparr>r_OpenDevice :=
     (\<lambda>h nm. if length (opened h) = 2 then (VD_E_ABORT, 0) else (S_OK, 7))\<rparr>"

theorem failed_open_leaks_witness:
  "\<exists>s'. process_commands two_of_three_world null_vtbl
       (demo_two\<lparr>cl := (cl demo_two)\<lparr>m_device_count := 3\<rparr>\<rparr>) = Some (Returned, s') \<and> m_state (cl s') = FAILED \<and>
     device_refs (hist (snd (run_state (VdiClient_dtor two_of_three_world null_vtbl) s'))) 7 = 2"
proof -
  let ?s = "demo_two\<lparr>cl := (cl demo_two)\<lparr>m_device_count := 3\<rparr>\<rparr>"
  have start: "opened (hist ?s) = []" "device_refs (hist ?s) 7 = 0" "m_state (cl ?s) = STREAMING"
    "m_device_set (cl ?s) \<noteq> None" "device_total (cl ?s) = 3"
    by (simp_all add: demo_two_def demo_eqs device_total_def)
  have "case run_state (process_prologue two_of_three_world) ?s of (x, s') \<Rightarrow> x = None \<and> opened (hist s') = [7, 7]"
    by (simp add: process_prologue_def device_total_def numeral_eq_Suc OpenDevice_def turn_world_def
      two_of_three_world_def demo_two_def demo_eqs calm_world_def do_io_def upd_def set_state_to_def log_defs
      LOG_LEVEL_INFO_def S_OK_def hr_failed_def VD_E_ABORT_def)
  then obtain s' where s': "process_commands two_of_three_world null_vtbl ?s = Some (Returned, s')"
      "opened (hist s') = opened (hist ?s) @ [7, 7]"
    using process_commands_stopped start(1) by (fastforce split: prod.splits)
  from failed_open_leaks [OF null.sink_contract_axioms s'(1) start(3,4) s'(2)] start(2,5) s'(1) show ?thesis by auto
qed

end
