(* ===== verification/Session_Report.thy ===== *)
theory Session_Report
  imports Exit_Status Console Report_Values Loop_Order
begin

text \<open>
  The report a run of the program leaves on its console, against the commands SQL Server sent: the
  composition of the command loop, the metrics, the JSON document and the console.
\<close>

section \<open>Reports on a console\<close>

definition shows_report :: "string \<Rightarrow> json \<Rightarrow> bool" where
  "shows_report out j \<longleftrightarrow> (\<exists>before doc after.
     out = before @ ''[INFO]  ---BEGIN JSON METRICS---'' @ nl @ ''[INFO]  '' @ doc @ nl @
       ''[INFO]  ---END JSON METRICS---'' @ nl @ after \<and> read_json doc = Some j)"

lemma shows_report_extends:
  "shows_report (console Stdout h) j \<Longrightarrow> extends P h h' \<Longrightarrow> shows_report (console Stdout h') j"
  unfolding shows_report_def using console_extends [of P h h' Stdout] by (metis (no_types, lifting) append_assoc)

text \<open>The figures of a report that describes a list of write commands.\<close>

definition describes :: "json \<Rightarrow> vdc_command list \<Rightarrow> bool" where
  "describes j ws \<longleftrightarrow> (let sizes = map (\<lambda>cmd. unat (cmd_size cmd)) ws in
     number_at [''total_bytes''] j = Some (of_nat (sum_list sizes)) \<and>
     number_at [''chunk_count''] j = Some (of_nat (length ws)) \<and>
     number_at [''buffer_pool'', ''hits''] j = Some (of_nat (length ws)) \<and>
     number_at [''chunk_sizes'', ''min_bytes''] j = Some (of_nat (if ws = [] then 0 else Min (set sizes))) \<and>
     number_at [''chunk_sizes'', ''avg_bytes''] j = Some (of_nat (sum_list sizes div length ws)) \<and>
     number_at [''chunk_sizes'', ''max_bytes''] j = Some (of_nat (if ws = [] then 0 else Max (set sizes))))"

text \<open>The counters a word holds exactly.\<close>

definition countable :: "vdc_command list \<Rightarrow> bool" where
  "countable ws \<longleftrightarrow> (\<Sum>cmd\<leftarrow>ws. unat (cmd_size cmd)) < 2 ^ 64 \<and> length ws < 2 ^ 64"

lemma unat_chunk_size: "unat (chunk_size cmd) = unat (cmd_size cmd)"
  by (simp add: chunk_size_def unat_ucast_up)

lemma unat_Min: "ws \<noteq> [] \<Longrightarrow> unat (Min (set (map chunk_size ws))) = Min (set (map (\<lambda>cmd. unat (cmd_size cmd)) ws))"
  by (subst mono_Min_commute [where f = unat])
    (auto simp: mono_def word_le_nat_alt image_image unat_chunk_size)

lemma unat_Max: "ws \<noteq> [] \<Longrightarrow> unat (Max (set (map chunk_size ws))) = Max (set (map (\<lambda>cmd. unat (cmd_size cmd)) ws))"
  by (subst mono_Max_commute [where f = unat])
    (auto simp: mono_def word_le_nat_alt image_image unat_chunk_size)

lemma chunk_size_not_top: "chunk_size cmd \<noteq> UINT64_MAX"
proof -
  have "unat (cmd_size cmd) < 2 ^ 32" using unsigned_less [of "cmd_size cmd"] by simp
  then show ?thesis using unat_chunk_size [of cmd] by (auto simp: UINT64_MAX_def)
qed

lemma accounted_describes:
  assumes "accounted c ws" "countable ws"
  shows "describes (report_object (m_metrics c) s pt) ws"
proof -
  let ?m = "m_metrics c" and ?sizes = "map (\<lambda>cmd. unat (cmd_size cmd)) ws"
  have total: "unat (word_sum (map chunk_size ws)) = sum_list ?sizes"
    using word_sum_unat [of "map chunk_size ws"] assms(2) by (simp add: countable_def unat_chunk_size o_def)
  have count: "unat (word_of_nat (length ws) :: u64) = length ws"
    using assms(2) by (simp add: countable_def unat_of_nat take_bit_nat_eq_self)
  have acc: "m_total_bytes ?m = word_sum (map chunk_size ws)" "m_sum_chunk_sizes ?m = word_sum (map chunk_size ws)"
      "m_chunk_count ?m = word_of_nat (length ws)" "m_buffer_pool_hits ?m = word_of_nat (length ws)"
      "m_min_chunk_size ?m = fold min (map chunk_size ws) UINT64_MAX"
      "m_max_chunk_size ?m = fold max (map chunk_size ws) 0"
    using assms(1) by (simp_all add: accounted_def Let_def)
  have avg: "unat (reported_avg ?m) = sum_list ?sizes div length ws"
    using count by (auto simp: reported_avg_def acc total unat_div word_neq_0_conv [symmetric])
  have mn: "unat (reported_min ?m) = (if ws = [] then 0 else Min (set ?sizes))"
  proof (cases "ws = []")
    case False
    then have "Min (set (map chunk_size ws)) \<in> set (map chunk_size ws)" by (intro Min_in) auto
    then have "Min (set (map chunk_size ws)) \<noteq> UINT64_MAX" by (metis chunk_size_not_top imageE set_map)
    then show ?thesis using False by (simp add: reported_min_def acc fold_min_sizes unat_Min del: set_map)
  qed (simp add: reported_min_def acc)
  have mx: "unat (m_max_chunk_size ?m) = (if ws = [] then 0 else Max (set ?sizes))"
    by (simp add: acc fold_max_sizes unat_Max del: set_map)
  show ?thesis
    using total count by (simp add: describes_def report_figures avg mn mx [unfolded acc] acc Let_def)
qed

section \<open>process_commands\<close>

text \<open>A provider that opens the devices it is asked for.\<close>

definition opens_devices :: "world \<Rightarrow> bool" where
  "opens_devices w \<longleftrightarrow> (\<forall>h nm. hr_succeeded (fst (r_OpenDevice w h nm)))"

lemma wp_OpenDevice_opens:
  "opens_devices w \<Longrightarrow> (\<And>hr d. hr_succeeded hr \<Longrightarrow> Q (hr, d) (E_OpenDevice ds nm hr d # h)) \<Longrightarrow> wp (OpenDevice w ds nm) Q h"
  unfolding OpenDevice_def wp_def opens_devices_def by (auto split: prod.splits) (metis fst_conv)

lemma open_all_devices_opens:
  "opens_devices w \<Longrightarrow> wp (open_all_devices w ds i n devs) (\<lambda>r _. r \<noteq> None) s"
proof (induction n arbitrary: i devs s)
  case (Suc n)
  show ?case
    unfolding open_all_devices.simps
    by (intro wp_intros wp_OpenDevice_opens wp_mono [OF Suc.IH]) (use Suc.prems in auto)
qed (auto intro!: wp_intros)

lemma process_prologue_opens:
  "opens_devices w \<Longrightarrow> m_state (cl s) = STREAMING \<Longrightarrow> m_device_set (cl s) \<noteq> None \<Longrightarrow>
   wp (process_prologue w) (\<lambda>r _. r \<noteq> None) s"
  unfolding process_prologue_def by (intro wp_intros wp_mono [OF open_all_devices_opens]) auto

text \<open>
  The timings of the commands completed; the one at which an injected fault fired has none.
\<close>

definition timings_for :: "world \<Rightarrow> vdc_command list \<Rightarrow> chunk_timing list \<Rightarrow> bool" where
  "timings_for w cmds tms \<longleftrightarrow> list_all2 timing_of cmds tms \<or>
     FAULT_INJECTION_ENABLED w \<and> list_all2 timing_of (butlast cmds) tms"

lemma timings_for_length: "timings_for w cmds tms \<Longrightarrow> length tms \<le> length cmds"
  by (auto simp: timings_for_def dest!: list_all2_lengthD)

context sink_contract
begin

lemma close_figures:
  "accounted (cl s) ws \<Longrightarrow> wp (close w vt) (\<lambda>_ s'. accounted (cl s') ws \<and>
     m_timings (m_metrics (cl s')) = m_timings (m_metrics (cl s))) s"
  unfolding close_def flush_before_close_def close_device_set_def SetClose_def SetRelease_def
  by (intro wp_intros) auto

lemma after_loop_report:
  assumes "LOG_LEVEL_INFO \<le> LOGGING_LEVEL w" "accounted (cl s) ws" "countable ws"
    and "length (m_timings (m_metrics (cl s))) < 2 ^ 45"
  shows "wp (after_loop w vt devices) (\<lambda>_ s'. \<exists>j. shows_report (console Stdout (hist s')) j \<and> describes j ws \<and>
    describes_stages j (m_timings (m_metrics (cl s)))) s"
proof -
  let ?tms = "m_timings (m_metrics (cl s))"
  have rep: "wp (report w) (\<lambda>_ s'. \<exists>j. shows_report (console Stdout (hist s')) j \<and> describes j ws \<and> describes_stages j ?tms) t"
    if "accounted (cl t) ws" "m_timings (m_metrics (cl t)) = ?tms" for t :: "'s sys"
  proof -
    let ?m = "m_metrics (cl t)"
    obtain finish pt summary rest where out: "console Stdout (hist (snd (run_state (report w) t))) =
        console Stdout (hist t) @ summary @ ''[INFO]  ---BEGIN JSON METRICS---'' @ nl @ ''[INFO]  '' @
        json_text ?m (elapsed_seconds (m_start_time ?m) finish) pt @ nl @
        ''[INFO]  ---END JSON METRICS---'' @ nl @ rest"
      using report_console [OF assms(1), of t] by blast
    let ?j = "report_object ?m (elapsed_seconds (m_start_time ?m) finish) pt"
    have "shows_report (console Stdout (hist (snd (run_state (report w) t)))) ?j"
      unfolding shows_report_def out
      by (rule exI [of _ "console Stdout (hist t) @ summary"],
          rule exI [of _ "json_text ?m (elapsed_seconds (m_start_time ?m) finish) pt"], rule exI [of _ rest])
        (simp only: append_assoc read_report simp_thms)
    moreover have "describes_stages ?j ?tms" using report_stages [of ?m] assms(4) that(2) by simp
    ultimately show ?thesis using accounted_describes [OF that(1) assms(3)] unfolding wp_snd by blast
  qed
  show ?thesis
    unfolding after_loop_def
    by (intro wp_intros wp_mono [OF release_all_outer] wp_mono [OF close_figures] rep) (use assms in auto)
qed

lemma process_commands_report:
  assumes "process_commands w vt s = Some (Returned, s')" "LOG_LEVEL_INFO \<le> LOGGING_LEVEL w" "opens_devices w"
    and "m_state (cl s) = STREAMING" "m_device_set (cl s) \<noteq> None"
    and "accounted (cl s) (received_writes (hist s))" "countable (received_writes (hist s'))"
    and "timed s" "length (completed_cmds (hist s')) < 2 ^ 45"
  shows "\<exists>j tms. shows_report (console Stdout (hist s')) j \<and> describes j (received_writes (hist s')) \<and>
    describes_stages j tms \<and> timings_for w (completed_cmds (hist s')) tms"
  using assms(1)
proof (cases rule: process_commands_cases)
  case stopped
  with wpD [OF process_prologue_opens [OF assms(3-5)] stopped(1)] show ?thesis by simp
next
  case (ran devices s1 start s2 r s3)
  have "accounted (cl s2) (received_writes (hist s2))"
    using wpD [OF process_prologue_spec ran(1)] wpD [OF process_prologue_outer ran(1)]
      wpD [OF start_session_clock_spec ran(2)] clock_outer [OF ran(2)] assms(6)
    by (auto simp: received_writes_outer)
  then have acc: "accounted (cl s3) (received_writes (hist s3))" by (rule command_loop_accounted [OF ran(3)])
  have "timed s2" using prologue_same [OF ran(1)] clock_same [OF ran(2)] assms(8) by (simp add: timed_def)
  then have "timed_but_fault w s3" by (rule command_loop_timed [OF ran(3)])
  then have tms: "timings_for w (completed_cmds (hist s3)) (m_timings (m_metrics (cl s3)))"
    by (auto simp: timings_for_def timed_but_fault_def timed_def)
  have s': "s' = snd (run_state (after_loop w vt devices) s3)" using ran(5) by (auto split: if_splits)
  have same: "received_writes (hist s') = received_writes (hist s3)" "completed_cmds (hist s') = completed_cmds (hist s3)"
    using after_loop_outer [of w devices s3] by (simp_all add: s' wp_snd received_writes_outer completed_cmds_outer)
  have "length (m_timings (m_metrics (cl s3))) < 2 ^ 45"
    using timings_for_length [OF tms] assms(9) by (simp add: same)
  with after_loop_report [OF assms(2) acc, of devices] assms(7) tms same show ?thesis
    by (fastforce simp: s' wp_snd)
qed

end

section \<open>The whole program\<close>

text \<open>A client that has counted nothing yet.\<close>

definition fresh :: "'s client \<Rightarrow> bool" where
  "fresh c \<longleftrightarrow> accounted c [] \<and> m_timings (m_metrics c) = []"

lemma accounted_connect_update [simp]:
  "accounted (c\<lparr>m_device_name := x1\<rparr>) ws = accounted c ws" "accounted (c\<lparr>m_device_count := x2\<rparr>) ws = accounted c ws"
  by (simp_all add: accounted_def)

lemma connect_fresh: "fresh (cl s) \<Longrightarrow> wp (connect w nm n) (\<lambda>_ s'. fresh (cl s')) s"
proof -
  assume fr: "fresh (cl s)"
  have set: "wp (connect_device_set w nm n) (\<lambda>_ s'. fresh (cl s')) t" if "fresh (cl t)" for t :: "'a sys"
    unfolding connect_device_set_def CreateEx_def SetRelease_def
    by (intro wp_intros wp_CoCreateInstance) (use that in \<open>auto simp: fresh_def\<close>)
  show ?thesis
    unfolding connect_def
    by (intro wp_intros wp_new_ComRuntime_neutral wp_ComRuntime_dtor_neutral wp_mono [OF set])
      (use fr in \<open>auto simp: fresh_def\<close>)
qed

lemma new_client_fresh: "wp (new_VdiClient w sink logging mode) (\<lambda>c _. fresh c) h"
proof -
  have "wp (new_VdiClient w sink logging mode) (\<lambda>c _. m_timings (m_metrics c) = []) h"
    unfolding new_VdiClient_def create_timer_def new_ChronoTimer_def new_QPCTimer_def new_Metrics_def
      steady_clock_now_def QueryPerformanceFrequency_def QueryPerformanceCounter_def
    by (cases mode) (auto intro!: wp_intros)
  then show ?thesis by (rule wp_mono [OF wp_conj [OF new_client_accounted]]) (simp add: fresh_def)
qed

lemma get_count_outer: "outer h h' \<Longrightarrow> get_count h' = get_count h"
proof (rule extends_same [of is_outer])
  show "is_outer e \<Longrightarrow> get_count (e # h) = get_count h" for e h by (cases e) auto
qed

text \<open>After the part before the loop: a fresh client that streams, with nothing received yet.\<close>

lemma outer_head: "outer (E_cout t # h) h' \<Longrightarrow> outer h h'"
  by (rule extends_trans [of _ h "E_cout t # h"]) simp_all

lemma outer_cout: "outer h h' \<Longrightarrow> outer h (E_cout t # h')"
  by (rule extends_Cons) simp_all

lemma main_setup_ready:
  assumes "m_state (cl s) = INIT" "m_device_set (cl s) = None" "fresh (cl s)"
  shows "wp (main_setup w vt c nm) (\<lambda>r s'. r = None \<longrightarrow>
    m_state (cl s') = STREAMING \<and> m_device_set (cl s') \<noteq> None \<and> fresh (cl s') \<and> outer (hist s) (hist s')) s"
proof -
  have connect: "wp (connect w nm n) (\<lambda>ok s'. (ok \<longrightarrow> m_state (cl s') = CONNECTED \<and> m_device_set (cl s') \<noteq> None) \<and>
      fresh (cl s') \<and> outer (hist t) (hist s')) t"
    if "m_state (cl t) = INIT" "m_device_set (cl t) = None" "fresh (cl t)" for t :: "'a sys" and n
    by (rule wp_mono [OF wp_conj [OF connect_spec wp_conj [OF connect_fresh connect_aside]]])
      (use that aside_split in \<open>auto split: if_splits\<close>)
  have backup: "wp (start_backup w c nm) (\<lambda>_ h'. outer h h') h" for h
    by (rule wp_mono [OF start_backup_aside]) (use aside_split in blast)
  have opened: "wp (open_devices w) (\<lambda>ok s'. (ok \<longrightarrow> m_state (cl s') = STREAMING \<and> m_device_set (cl s') \<noteq> None) \<and>
      fresh (cl s') \<and> outer (hist t) (hist s')) t"
    if "m_state (cl t) = CONNECTED" "m_device_set (cl t) \<noteq> None" "fresh (cl t)" for t :: "'a sys"
    by (rule wp_mono [OF wp_conj [OF open_devices_spec open_devices_aside]])
      (use that aside_split in \<open>auto simp: fresh_def\<close>)
  have close: "wp (close w vt) (\<lambda>_ _. True) t" for t by (simp add: wp_def split: prod.splits)
  show ?thesis
    unfolding main_setup_def
    apply (intro wp_intros wp_mono [OF connect] wp_mono [OF backup] wp_mono [OF opened] wp_mono [OF close])
    by (use assms in \<open>auto dest!: outer_head intro!: outer_cout\<close>) (meson outer_trans)
qed

context sink_contract
begin

text \<open>A client that exits with 0 has run the command loop, from a fresh streaming state.\<close>

lemma run_client_ready:
  assumes "run_client w vt sk c nm h = Some (Exit 0, s')"
  obtains s1 t where "process_commands w vt s1 = Some (Returned, t)" "m_state (cl s1) = STREAMING"
    "m_device_set (cl s1) \<noteq> None" "fresh (cl s1)" "outer h (hist s1)" "outer (hist t) (hist s')"
  using assms
proof (cases rule: run_client_cases)
  case (early client h1 s1)
  with wpD [OF main_setup_exit early(2)] show ?thesis by simp
next
  case (ran client h1 s1 t)
  have client: "m_state client = INIT" "m_device_set client = None" "fresh client"
    using wpD [OF new_VdiClient_spec ran(1)] wpD [OF new_client_fresh ran(1)] by simp_all
  have "wp (new_VdiClient w (Some sk) False Chrono) (\<lambda>_ h'. outer h h') h"
    unfolding new_VdiClient_def create_timer_def new_ChronoTimer_def new_Metrics_def steady_clock_now_def
    by (auto intro!: wp_intros)
  then have "outer h h1" using wpD [OF _ ran(1)] by blast
  with wpD [OF main_setup_ready ran(2)] client
  have s1: "m_state (cl s1) = STREAMING" "m_device_set (cl s1) \<noteq> None" "fresh (cl s1)" "outer h (hist s1)"
    by (auto intro: outer_trans)
  have "outer (hist t) (hist s')"
    using close_outer [of w t] VdiClient_dtor_outer [of w "snd (run_state (close w vt) t)"] ran(5)
    by (auto simp: wp_snd intro: outer_trans)
  with ran(3) s1 show ?thesis by (rule that)
qed

lemma run_client_reports:
  assumes "run_client w vt sk c nm h = Some (Exit 0, s')" "LOG_LEVEL_INFO \<le> LOGGING_LEVEL w" "opens_devices w"
    and "received_writes h = []" "completed_cmds h = []"
    and "countable (received_writes (hist s'))" "length (completed_cmds (hist s')) < 2 ^ 45"
  shows "\<exists>j tms. shows_report (console Stdout (hist s')) j \<and> describes j (received_writes (hist s')) \<and>
    describes_stages j tms \<and> timings_for w (completed_cmds (hist s')) tms"
proof -
  obtain s1 t where run: "process_commands w vt s1 = Some (Returned, t)" "m_state (cl s1) = STREAMING"
      "m_device_set (cl s1) \<noteq> None" "fresh (cl s1)" "outer h (hist s1)" "outer (hist t) (hist s')"
    using run_client_ready [OF assms(1)] by metis
  have start: "accounted (cl s1) (received_writes (hist s1))" "timed s1"
    using run(4,5) assms(4,5)
    by (simp_all add: fresh_def timed_def received_writes_outer completed_cmds_outer)
  have same: "received_writes (hist s') = received_writes (hist t)" "completed_cmds (hist s') = completed_cmds (hist t)"
    using run(6) by (simp_all add: received_writes_outer completed_cmds_outer)
  obtain j tms where "shows_report (console Stdout (hist t)) j" "describes j (received_writes (hist t))"
      "describes_stages j tms" "timings_for w (completed_cmds (hist t)) tms"
    using process_commands_report [OF run(1) assms(2,3) run(2,3) start(1) _ start(2)] assms(6,7) same by auto
  then show ?thesis using shows_report_extends [OF _ run(6)] same by metis
qed

end

section \<open>A provider that cooperates\<close>

text \<open>
  COM starts, the device set is created, SQL Server connects and the devices open; what the commands
  are, and what the sink and the clocks answer, is left open.
\<close>

definition cooperative :: "world \<Rightarrow> bool" where
  "cooperative w \<longleftrightarrow> opens_devices w \<and> (\<forall>h. hr_succeeded (r_CoInitializeEx w h)) \<and>
     (\<forall>h. hr_succeeded (fst (r_CoCreateInstance w h))) \<and> (\<forall>h nm cfg. hr_succeeded (r_CreateEx w h nm cfg)) \<and>
     (\<forall>h t. hr_succeeded (fst (r_GetConfiguration w h t)))"

lemma cooperative_replies:
  assumes "cooperative w"
  shows "(\<And>hr. hr_succeeded hr \<Longrightarrow> Q1 hr (E_CoInitializeEx hr # h)) \<Longrightarrow> wp (CoInitializeEx w) Q1 h"
    "(\<And>hr ds. hr_succeeded hr \<Longrightarrow> Q2 (hr, ds) (E_CoCreateInstance hr ds # h)) \<Longrightarrow> wp (CoCreateInstance w) Q2 h"
    "(\<And>hr. hr_succeeded hr \<Longrightarrow> Q1 hr (E_CreateEx ds nm cfg hr # h)) \<Longrightarrow> wp (CreateEx w ds nm cfg) Q1 h"
    "(\<And>hr c. hr_succeeded hr \<Longrightarrow> Q3 (hr, c) (E_GetConfiguration ds t hr c # h)) \<Longrightarrow> wp (GetConfiguration w ds t) Q3 h"
  using assms
  by (simp_all add: cooperative_def wp_def CoInitializeEx_def CoCreateInstance_def CreateEx_def GetConfiguration_def
      split: prod.splits) (metis fst_conv)+

lemma connect_cooperative:
  assumes "cooperative w" "m_state (cl s) = INIT"
  shows "wp (connect w nm n) (\<lambda>ok s'. ok \<and> m_state (cl s') = CONNECTED \<and> m_device_set (cl s') \<noteq> None) s"
proof -
  have com: "wp (new_ComRuntime w) (\<lambda>com _. m_initialized com) h" for h
    unfolding new_ComRuntime_def by (intro wp_intros cooperative_replies [OF assms(1)]) auto
  have set: "wp (connect_device_set w nm n) (\<lambda>ok s'. ok \<and> m_state (cl s') = CONNECTED \<and> m_device_set (cl s') \<noteq> None) t"
    for t :: "'a sys"
    unfolding connect_device_set_def by (intro wp_intros cooperative_replies [OF assms(1)]) auto
  show ?thesis
    unfolding connect_def
    by (intro wp_intros wp_mono [OF com] wp_mono [OF set] wp_ComRuntime_dtor_neutral) (use assms(2) in auto)
qed

lemma open_devices_cooperative:
  assumes "cooperative w" "m_state (cl s) = CONNECTED" "m_device_set (cl s) \<noteq> None"
  shows "wp (open_devices w) (\<lambda>ok _. ok) s"
  unfolding open_devices_def log_server_config_def
  by (intro wp_intros cooperative_replies [OF assms(1)]) (use assms(2,3) in auto)

lemma main_setup_cooperative:
  assumes "cooperative w" "m_state (cl s) = INIT"
  shows "wp (main_setup w vt c nm) (\<lambda>r _. r = None) s"
  unfolding main_setup_def
  by (intro wp_intros wp_mono [OF connect_cooperative [OF assms(1)]] wp_mono [OF start_backup_aside]
      wp_mono [OF open_devices_cooperative [OF assms(1)]]) (use assms(2) in auto)

lemma run_client_completes:
  assumes "sink_contract vt" "cooperative w" "closes_after k w"
  shows "\<exists>s'. run_client w vt sk c nm h = Some (Exit 0, s')"
proof -
  obtain client h1 where new: "run_state (new_VdiClient w (Some sk) False Chrono) h = (client, h1)" by fastforce
  obtain n s' where run: "run_client w vt sk c nm h = Some (Exit n, s')" using run_client_returns [OF assms(1,3)] by blast
  then show ?thesis
  proof (cases rule: run_client_cases)
    case (early client' h1' s1)
    then have "m_state (cl \<lparr>cl = client', hist = h1'\<rparr>) = INIT" using wpD [OF new_VdiClient_spec] by fastforce
    from wpD [OF main_setup_cooperative [OF assms(2) this] early(2)] show ?thesis by simp
  qed (use run in auto)
qed

text \<open>
  C9. The program completes: with a provider that cooperates and from some request on reports an error
  other than a timeout, it exits, with 0, whatever its arguments are.
\<close>

theorem main_completes:
  assumes "cooperative w" "closes_after k w"
  shows "\<exists>h'. main w args = Some (Exit 0, h')"
  using run_client_completes [OF file_frame.sink_contract_axioms assms]
    run_client_completes [OF null.sink_contract_axioms assms]
  by (fastforce simp: main_def Let_def split: prod.splits)

text \<open>
  C8. The report is the truth. A run that got as far as the data and exits with 0 leaves on its standard
  output, between the two marker lines, a JSON document (after its log prefix) whose figures are those
  of the write commands SQL Server sent: the byte total is the sum of their sizes, the chunk count
  their number, the chunk sizes their minimum, rounded-down average and maximum, and the pool was
  hit once for each. Its stage percentiles are the nearest-rank percentiles of a list of timings
  that has one entry per command completed with success, but for the last one in a build with
  fault injection. The byte total and the count must fit 64 bits, and the completed commands be fewer than \<open>2 ^ 45\<close>.
\<close>

theorem main_report:
  assumes "main w args = Some (Exit 0, h')" "LOG_LEVEL_INFO \<le> LOGGING_LEVEL w" "opens_devices w"
    and "countable (received_writes h')" "length (completed_cmds h') < 2 ^ 45"
  shows "\<exists>j tms. shows_report (console Stdout h') j \<and> describes j (received_writes h') \<and>
    describes_stages j tms \<and> timings_for w (completed_cmds h') tms"
proof (cases "use_file_sink (parse_args args default_cli)")
  case True
  from assms(1) True show ?thesis
  proof (rule main_file)
    fix fs h nm and s' :: "file_sink sys"
    assume ev: "extends is_sink_event [E_GetCurrentProcessId (r_GetCurrentProcessId w [])] h"
      and run: "run_client w (file_vtbl w) fs (parse_args args default_cli) nm h = Some (Exit 0, s')" "h' = hist s'"
    have "received_writes h = []" "completed_cmds h = []"
      using outer_of(2) [OF ev] by (simp_all add: received_writes_outer completed_cmds_outer)
    then show ?thesis using file_frame.run_client_reports [OF run(1) assms(2,3)] assms(4,5) run(2) by simp
  qed
next
  case False
  then obtain nm s' where run: "run_client w null_vtbl () (parse_args args default_cli) nm
      [E_GetCurrentProcessId (r_GetCurrentProcessId w [])] = Some (Exit 0, s')" "h' = hist s'"
    using assms(1) by (auto simp: main_def GetCurrentProcessId_def Let_def)
  then show ?thesis using null.run_client_reports [OF run(1) assms(2,3)] assms(4,5) by simp
qed

section \<open>A run to look at\<close>

text \<open>A provider that sends one write of four bytes and then closes.\<close>

definition serves_once :: "world \<Rightarrow> bool" where
  "serves_once w \<longleftrightarrow> (\<forall>h d t. r_GetCommand w h d t =
     (if get_count h = 0 then (S_OK, Some demo_write) else (VD_E_CLOSE, None)))"

definition served_once :: "history \<Rightarrow> bool" where
  "served_once h \<longleftrightarrow> received_writes h = (if get_count h = 0 then [] else [demo_write])"

lemma served_once_outer: "outer h h' \<Longrightarrow> served_once h' = served_once h"
  by (simp add: served_once_def get_count_outer received_writes_outer)

lemma received_once:
  assumes "received w d s hr c c1 h" "serves_once w" "served_once (hist s)"
  shows "served_once h \<and> 0 < get_count h"
proof -
  obtain h1 t where q: "quiet (hist s) h1" "r_GetCommand w h1 d t = (hr, c)"
    using assms(1) by (auto simp: received_def)
  have "get_count h1 = get_count (hist s)" by (rule get_count_quiet [OF q(1)])
  then have reply: "(hr, c) = (if get_count (hist s) = 0 then (S_OK, Some demo_write) else (VD_E_CLOSE, None))"
    using assms(2) q(2) by (simp add: serves_once_def)
  have "writes_of (Some demo_write) = [demo_write]" "\<not> hr_failed S_OK"
    by (simp_all add: writes_of_def demo_write_def hr_failed_def S_OK_def)
  with reply received_received_writes [OF assms(1)] received_count [OF assms(1)] assms(3) show ?thesis
    by (auto simp: served_once_def split: if_splits)
qed

context sink_contract
begin

lemma device_step_writes:
  "device_step w vt d s r s' \<Longrightarrow> \<exists>hr c c1 h. received w d s hr c c1 h \<and> received_writes (hist s') = received_writes h"
  by (erule device_step.cases; rule exI, rule exI, rule exI, rule exI, rule conjI, assumption)
    (auto dest!: received_writes_quiet flush_writes write_writes served_writes [where ws = "[]"] completed_received_writes)

lemma device_step_once:
  assumes "device_step w vt d s r s'" "serves_once w" "served_once (hist s)"
  shows "served_once (hist s') \<and> 0 < get_count (hist s')"
proof -
  obtain hr c c1 h where "received w d s hr c c1 h" "received_writes (hist s') = received_writes h"
    using device_step_writes [OF assms(1)] by blast
  then show ?thesis
    using received_once [OF _ assms(2,3)] device_step_count [OF assms(1)] by (fastforce simp: served_once_def)
qed

lemma process_commands_once:
  assumes "process_commands w vt s = Some (Returned, s')" "serves_once w" "opens_devices w"
    and "m_state (cl s) = STREAMING" "m_device_set (cl s) \<noteq> None" "served_once (hist s)"
  shows "received_writes (hist s') = [demo_write]"
  using assms(1)
proof (cases rule: process_commands_cases)
  case stopped
  with wpD [OF process_prologue_opens [OF assms(3-5)] stopped(1)] show ?thesis by simp
next
  case (ran devices s1 start s2 r s3)
  have "served_once (hist s2)"
    using wpD [OF process_prologue_outer ran(1)] clock_outer [OF ran(2)] assms(6) by (simp add: served_once_outer)
  then have "served_once (hist s3) \<and> 0 < get_count (hist s3)"
    using command_loop_rule [OF ran(3), where I = "\<lambda>t. served_once (hist t)"
        and F = "\<lambda>_ t. served_once (hist t) \<and> 0 < get_count (hist t)"] device_step_once assms(2)
    by auto
  then show ?thesis
    using after_loop_outer [of w devices s3] ran(5) by (auto simp: wp_snd received_writes_outer served_once_def split: if_splits)
qed

lemma run_client_once:
  assumes "run_client w vt sk c nm h = Some (Exit 0, s')" "serves_once w" "opens_devices w"
    and "received_writes h = []" "get_count h = 0"
  shows "received_writes (hist s') = [demo_write]"
proof -
  obtain s1 t where run: "process_commands w vt s1 = Some (Returned, t)" "m_state (cl s1) = STREAMING"
      "m_device_set (cl s1) \<noteq> None" "served_once (hist s1)" "outer (hist t) (hist s')"
    using run_client_ready [OF assms(1)] assms(4,5) unfolding served_once_def
    by (metis get_count_outer received_writes_outer)
  then show ?thesis
    using process_commands_once [OF run(1) assms(2,3) run(2-4)] by (simp add: received_writes_outer)
qed

text \<open>It is soon over: two requests, and no more completions than requests.\<close>

lemma device_step_completed:
  "device_step w vt d s r s' \<Longrightarrow> length (completed_cmds (hist s')) \<le> Suc (length (completed_cmds (hist s)))"
  by (erule device_step.cases)
    (auto dest!: received_completed_cmds quiet_order flush_order write_order served_order completed_completed_cmds)

lemma process_commands_few:
  assumes "process_commands w vt s = Some (Returned, s')" "closes_after 1 w"
    and "get_count (hist s) = 0" "completed_cmds (hist s) = []"
  shows "length (completed_cmds (hist s')) \<le> 2"
  using assms(1)
proof (cases rule: process_commands_cases)
  case stopped
  with prologue_same(2) [OF stopped(1)] assms(4) show ?thesis by simp
next
  case (ran devices s1 start s2 r s3)
  let ?I = "\<lambda>t. get_count (hist t) \<le> 1 \<and> length (completed_cmds (hist t)) \<le> get_count (hist t)"
  have "?I s2"
    using wpD [OF process_prologue_outer ran(1)] clock_outer [OF ran(2)] assms(3,4)
    by (simp add: get_count_outer completed_cmds_outer)
  moreover have "if r = Next then ?I t' else length (completed_cmds (hist t')) \<le> 2"
    if "?I t" "device_step w vt d t r t'" for d t r t'
    using device_step_closes [OF _ assms(2)] device_step_count [OF that(2)] device_step_completed [OF that(2)] that
    by fastforce
  ultimately have "length (completed_cmds (hist s3)) \<le> 2"
    using command_loop_rule [OF ran(3), where I = ?I and F = "\<lambda>_ t. length (completed_cmds (hist t)) \<le> 2"] by blast
  then show ?thesis
    using after_loop_outer [of w devices s3] ran(5) by (auto simp: wp_snd completed_cmds_outer split: if_splits)
qed

lemma run_client_few:
  assumes "run_client w vt sk c nm h = Some (Exit 0, s')" "closes_after 1 w" "get_count h = 0" "completed_cmds h = []"
  shows "length (completed_cmds (hist s')) \<le> 2"
proof -
  obtain s1 t where run: "process_commands w vt s1 = Some (Returned, t)" "outer h (hist s1)" "outer (hist t) (hist s')"
    using run_client_ready [OF assms(1)] by metis
  then show ?thesis
    using process_commands_few [OF run(1) assms(2)] assms(3,4) by (simp add: get_count_outer completed_cmds_outer)
qed

end

definition one_chunk_world :: world where
  "one_chunk_world = calm_world\<lparr>LOGGING_LEVEL := 1, r_GetCommand := (\<lambda>h d t.
     if get_count h = 0 then (S_OK, Some demo_write) else (VD_E_CLOSE, None))\<rparr>"

lemma one_chunk_world_facts:
  "LOG_LEVEL_INFO \<le> LOGGING_LEVEL one_chunk_world" "opens_devices one_chunk_world" "serves_once one_chunk_world"
  "cooperative one_chunk_world" "closes_after 1 one_chunk_world"
  by (auto simp: one_chunk_world_def calm_world_def LOG_LEVEL_INFO_def opens_devices_def serves_once_def
      cooperative_def closes_after_def S_OK_def VD_E_defs hr_failed_def)

text \<open>The report of a run with one write of four bytes.\<close>

theorem main_report_witness:
  "\<exists>h' j. main one_chunk_world [] = Some (Exit 0, h') \<and> shows_report (console Stdout h') j \<and>
     number_at [''total_bytes''] j = Some 4 \<and> number_at [''chunk_count''] j = Some 1"
proof -
  let ?w = one_chunk_world and ?h0 = "[E_GetCurrentProcessId (r_GetCurrentProcessId one_chunk_world [])]"
  obtain s' where run: "run_client ?w null_vtbl () (parse_args [] default_cli)
      (virtual_device_name (r_GetCurrentProcessId ?w [])) ?h0 = Some (Exit 0, s')"
    using run_client_completes [OF null.sink_contract_axioms one_chunk_world_facts(4,5)] by blast
  then have main: "main ?w [] = Some (Exit 0, hist s')"
    by (simp add: main_def GetCurrentProcessId_def default_cli_def)
  have ws: "received_writes (hist s') = [demo_write]"
    by (rule null.run_client_once [OF run one_chunk_world_facts(3,2)]) simp_all
  then have "countable (received_writes (hist s'))" by (simp add: countable_def demo_write_def)
  moreover have "length (completed_cmds (hist s')) < 2 ^ 45"
    using null.run_client_few [OF run one_chunk_world_facts(5)] by simp
  ultimately obtain j
    where "shows_report (console Stdout (hist s')) j" "describes j [demo_write]"
    using main_report [OF main one_chunk_world_facts(1,2)] unfolding ws by blast
  with main show ?thesis by (auto simp: describes_def demo_write_def Let_def)
qed

theorem main_completes_witness:
  "\<exists>h'. main one_chunk_world [''--sink'', ''file''] = Some (Exit 0, h')"
  using main_completes [OF one_chunk_world_facts(4,5)] .

end
