(* ===== verification/Stage_Times.thy ===== *)
theory Stage_Times
  imports Loop_Order
begin

text \<open>
  The stage times of a session against its clock. With a steady clock that does not go back, the
  four stages of a command are disjoint intervals inside its turn of the loop, so the times
  recorded for all the commands add up to no more than the microseconds that passed.
\<close>

section \<open>The clock\<close>

fun last_tick :: "history \<Rightarrow> i64 option" where
  "last_tick [] = None"
| "last_tick (E_steady_clock t # h) = Some t"
| "last_tick (_ # h) = last_tick h"

text \<open>
  The promise of \<open>std::chrono::steady_clock\<close>: no reading is before the epoch or before an earlier
  one, and the distance fits its signed representation.
\<close>

definition steady :: "world \<Rightarrow> i64 \<Rightarrow> bool" where
  "steady w e \<longleftrightarrow> (\<forall>h. chrono_ok e (r_steady_clock w h) \<and>
     (\<forall>t. last_tick h = Some t \<longrightarrow> chrono_ok e t \<longrightarrow> sint t \<le> sint (r_steady_clock w h)))"

definition ticks_ok :: "i64 \<Rightarrow> history \<Rightarrow> bool" where
  "ticks_ok e h \<longleftrightarrow> (\<forall>t. last_tick h = Some t \<longrightarrow> chrono_ok e t)"

text \<open>The time of a history: its last reading, in microseconds since the epoch.\<close>

definition us_at :: "i64 \<Rightarrow> history \<Rightarrow> nat" where
  "us_at e h = (case last_tick h of None \<Rightarrow> 0 | Some t \<Rightarrow> unat (chrono_us e t))"

definition later :: "i64 \<Rightarrow> history \<Rightarrow> history \<Rightarrow> bool" where
  "later e h h' \<longleftrightarrow> (ticks_ok e h \<longrightarrow> ticks_ok e h' \<and> us_at e h \<le> us_at e h')"

lemma later_refl [simp]: "later e h h"
  by (simp add: later_def)

lemma later_trans: "later e h' h'' \<Longrightarrow> later e h h' \<Longrightarrow> later e h h''"
  by (auto simp: later_def)

lemma later_same: "last_tick h' = last_tick h \<Longrightarrow> later e h h'"
  by (simp add: later_def ticks_ok_def us_at_def)

lemma later_tick:
  assumes "steady w e"
  shows "later e h (E_steady_clock (r_steady_clock w h) # h)"
  unfolding later_def
proof
  assume ok: "ticks_ok e h"
  let ?now = "r_steady_clock w h"
  have now: "chrono_ok e ?now" using assms by (simp add: steady_def)
  have "us_at e h \<le> unat (chrono_us e ?now)"
  proof (cases "last_tick h")
    case (Some t)
    then have "chrono_ok e t" "sint t \<le> sint ?now" using ok assms by (auto simp: ticks_ok_def steady_def)
    then show ?thesis using chrono.monotone [OF _ now] Some by (simp add: us_at_def word_le_nat_alt)
  qed (simp add: us_at_def)
  with now show "ticks_ok e (E_steady_clock ?now # h) \<and> us_at e h \<le> us_at e (E_steady_clock ?now # h)"
    by (simp add: ticks_ok_def us_at_def)
qed

text \<open>The stretches of a history that do not read the clock.\<close>

lemma log_tick: "extends is_log h h' \<Longrightarrow> last_tick h' = last_tick h"
proof (rule extends_same [of is_log])
  show "is_log e \<Longrightarrow> last_tick (e # h) = last_tick h" for e h by (cases e) auto
qed

lemma sink_tick: "extends is_sink_event h h' \<Longrightarrow> last_tick h' = last_tick h"
proof (rule extends_same [of is_sink_event])
  show "is_sink_event e \<Longrightarrow> last_tick (e # h) = last_tick h" for e h by (cases e) auto
qed

lemmas later_log = log_tick [THEN later_same]
lemmas later_sink = sink_tick [THEN later_same]
lemmas later_back = later_trans later_log [THEN later_trans] later_sink [THEN later_trans]

lemma later_Cons: "last_tick (ev # h) = last_tick h \<Longrightarrow> later e h' h \<Longrightarrow> later e h' (ev # h)"
  by (rule later_trans [OF later_same])

lemma later_call [simp]:
  "later e (E_GetCommand d t hr c # h) h' = later e h h'"
  "later e (E_CompleteCommand d cmd code n pos hr # h) h' = later e h h'"
  by (simp_all add: later_def ticks_ok_def us_at_def)

section \<open>Reading it\<close>

lemma wp_steady_clock_later:
  "steady w e \<Longrightarrow> (\<And>t h'. later e h h' \<Longrightarrow> Q t h') \<Longrightarrow> wp (steady_clock_now w) Q h"
  unfolding steady_clock_now_def wp_def by (simp add: later_tick)

lemma wp_client_now_us_later:
  assumes "steady w e" "m_timer (m_metrics (cl s)) = ChronoTimer e"
    and "\<And>t h'. later e (hist s) h' \<Longrightarrow> unat t = us_at e h' \<Longrightarrow> Q t (s\<lparr>hist := h'\<rparr>)"
  shows "wp (client_now_us w) Q s"
proof -
  have "later e (hist s) (E_steady_clock (r_steady_clock w (hist s)) # hist s)" by (rule later_tick [OF assms(1)])
  then show ?thesis
    using assms(3) by (simp add: client_now_us_def metrics_now_us_def now_us_def assms(2) steady_clock_now_def wp_def
        do_io_def us_at_def)
qed

lemma wp_trace_begin_later:
  assumes "steady w e" "\<And>d h'. later e h h' \<Longrightarrow> Q d h'"
  shows "wp (trace_begin w) Q h"
  unfolding trace_begin_def GetCurrentThreadId_def
  by (intro wp_if wp_bind wp_steady_clock_later [OF assms(1)] wp_call wp_return assms(2) later_Cons) simp_all

lemma wp_trace_end_later:
  assumes "steady w e" "\<And>h'. later e h h' \<Longrightarrow> Q () h'"
  shows "wp (trace_end w nm d) Q h"
  unfolding trace_end_def
  by (intro wp_if wp_bind wp_steady_clock_later [OF assms(1)] wp_emit wp_return assms(2) later_Cons) simp_all

text \<open>The structural rules, without those that forget what the clock said.\<close>

lemmas later_intros = wp_bind wp_return wp_gets wp_if wp_case_option wp_let wp_case_prod wp_do_io wp_upd wp_on_sink
  wp_set_state_to wp_upd_metrics wp_fault_hook wp_LOG_ERROR wp_LOG_WARN wp_LOG_INFO wp_LOG_DEBUG
  wp_validate_write_command wp_dispatch_command

section \<open>The stages\<close>

definition stage_sum :: "chunk_timing \<Rightarrow> nat" where
  "stage_sum tm = unat (getcommand_us tm) + unat (dispatch_us tm) + unat (sink_us tm) + unat (complete_us tm)"

definition spent :: "'s client \<Rightarrow> nat" where
  "spent c = sum_list (map stage_sum (m_timings (m_metrics c)))"

text \<open>The state in which the stages run; the total of every entry is the true sum.\<close>

definition clocked :: "i64 \<Rightarrow> 's sys \<Rightarrow> bool" where
  "clocked e s \<longleftrightarrow> m_timer (m_metrics (cl s)) = ChronoTimer e \<and> ticks_ok e (hist s) \<and>
     (\<forall>tm\<in>set (m_timings (m_metrics (cl s))). unat (total_us tm) = stage_sum tm)"

text \<open>\<open>recorded e b s s'\<close>: what was recorded since \<open>s\<close> fits between the time \<open>b\<close> and the one of \<open>s'\<close>.\<close>

definition recorded :: "i64 \<Rightarrow> nat \<Rightarrow> 's sys \<Rightarrow> 's sys \<Rightarrow> bool" where
  "recorded e b s s' \<longleftrightarrow> clocked e s' \<and> b \<le> us_at e (hist s') \<and>
     spent (cl s') + b \<le> spent (cl s) + us_at e (hist s')"

lemma clocked_timer: "clocked e s \<Longrightarrow> m_timer (m_metrics (cl s)) = ChronoTimer e"
  by (simp add: clocked_def)

lemma us_at_bound: "us_at e h < 2 ^ 64"
proof -
  have "unat x < 2 ^ 64" for x :: u64 using unsigned_less [of x] by simp
  then show ?thesis by (simp add: us_at_def split: option.splits)
qed

lemma recorded_same:
  assumes "clocked e s" "later e (hist s) (hist s')" "m_timer (m_metrics (cl s')) = m_timer (m_metrics (cl s))"
    "m_timings (m_metrics (cl s')) = m_timings (m_metrics (cl s))" "b \<le> us_at e (hist s)"
  shows "recorded e b s s'"
  using assms by (auto simp: recorded_def clocked_def later_def spent_def)

lemma unat_sum4:
  fixes a b c d :: u64
  assumes "unat a + unat b + unat c + unat d < 2 ^ 64"
  shows "unat (a + b + c + d) = unat a + unat b + unat c + unat d"
proof -
  have "a + b + c + d = word_of_nat (unat a + unat b + unat c + unat d)" by simp
  then show ?thesis using assms by (simp only: unat_of_nat) (simp add: take_bit_nat_eq_self)
qed

lemma recorded_entry:
  assumes "clocked e s" "later e (hist s) (hist s')" "m_timer (m_metrics (cl s')) = m_timer (m_metrics (cl s))"
    "m_timings (m_metrics (cl s')) = m_timings (m_metrics (cl s)) @ [tm]" "timing_of cmd tm"
    "stage_sum tm + b \<le> us_at e (hist s')"
  shows "recorded e b s s'"
proof -
  have "stage_sum tm < 2 ^ 64" using assms(6) us_at_bound [of e "hist s'"] by linarith
  then have "unat (total_us tm) = stage_sum tm"
    using assms(5) unat_sum4 [of "getcommand_us tm" "dispatch_us tm" "sink_us tm" "complete_us tm"]
    by (simp add: timing_of_def stage_sum_def)
  then show ?thesis using assms by (auto simp: recorded_def clocked_def later_def spent_def)
qed

text \<open>The difference of two readings, as the code takes it.\<close>

lemma interval:
  assumes "later e h h'" "ticks_ok e h" "unat t = us_at e h" "unat t' = us_at e h'"
  shows "unat (t' - t) + us_at e h = us_at e h'"
  using assms by (simp add: later_def word_le_nat_alt unat_sub)

lemma complete_stage_recorded:
  assumes w: "steady w e" and s: "clocked e s" and cmd: "\<And>cc. timing_of cmd (make_timing cmd gc dp sk cc ts)"
    and b: "unat gc + unat dp + unat sk + b \<le> us_at e (hist s)"
  shows "wp (complete_stage w d cmd (\<lambda>cc. make_timing cmd gc dp sk cc ts)) (\<lambda>r s'. recorded e b s s') s"
  unfolding complete_stage_def CompleteCommand_def
proof (intro later_intros wp_client_now_us_later [OF w] wp_call, goal_cases)
  case (3 t h' r t' h'' h3)
  then have "later e (hist s) h3" by (simp, meson later_trans later_log)
  then show ?case using s b by (intro recorded_same) simp_all
next
  case (4 t h' r t' h'' fired fi h3)
  then have "later e (hist s) h3" by (simp, meson later_trans later_log)
  then show ?case using s b by (intro recorded_same) simp_all
next
  case (5 t h' r t' h'' fired fi)
  then have later: "later e (hist s) h'" "later e h' h''" by simp_all
  then have ok: "ticks_ok e h'" "later e h' h''" "later e (hist s) h''" "us_at e (hist s) \<le> us_at e h'"
    using s by (auto simp: later_def clocked_def)
  have "unat (t' - t) + us_at e h' = us_at e h''"
    using interval [OF ok(2,1)] 5 by simp
  then show ?case using 5 s b cmd ok
    by (intro recorded_entry [where tm = "make_timing cmd gc dp sk (t' - t) ts"])
      (simp_all add: record_chunk_timing_def stage_sum_def make_timing_def)
qed (use s in \<open>simp_all add: clocked_def\<close>)

text \<open>\<open>stage_done e n s s'\<close>: a stage that took at least \<open>n\<close> has been gone through, and nothing recorded.\<close>

definition stage_done :: "i64 \<Rightarrow> nat \<Rightarrow> 's sys \<Rightarrow> 's sys \<Rightarrow> bool" where
  "stage_done e n s s' \<longleftrightarrow> later e (hist s) (hist s') \<and>
     m_timer (m_metrics (cl s')) = m_timer (m_metrics (cl s)) \<and>
     m_timings (m_metrics (cl s')) = m_timings (m_metrics (cl s)) \<and>
     (clocked e s \<longrightarrow> n + us_at e (hist s) \<le> us_at e (hist s'))"

lemma stage_done_zero:
  assumes "later e (hist s) (hist s')" "m_timer (m_metrics (cl s')) = m_timer (m_metrics (cl s))"
    "m_timings (m_metrics (cl s')) = m_timings (m_metrics (cl s))"
  shows "stage_done e 0 s s'"
  using assms by (simp add: stage_done_def clocked_def later_def)

lemma stage_done_interval:
  assumes "later e (hist s) h1" "later e h1 (hist s')" "unat t = us_at e h1" "unat t' = us_at e (hist s')"
    "m_timer (m_metrics (cl s')) = m_timer (m_metrics (cl s))"
    "m_timings (m_metrics (cl s')) = m_timings (m_metrics (cl s))"
  shows "stage_done e (unat (t' - t)) s s'"
proof -
  have "later e (hist s) (hist s')" by (rule later_trans [OF assms(2,1)])
  moreover have "unat (t' - t) + us_at e (hist s) \<le> us_at e (hist s')" if "clocked e s"
    using interval [OF assms(2) _ assms(3,4)] that assms(1) by (simp add: clocked_def later_def)
  ultimately show ?thesis using assms(5,6) by (simp add: stage_done_def)
qed

lemma two_intervals:
  assumes "later e h0 h1" "later e h1 h2" "later e h2 h3" "later e h3 h4" "ticks_ok e h0"
    "unat t1 = us_at e h1" "unat t2 = us_at e h2" "unat t3 = us_at e h3" "unat t4 = us_at e h4"
  shows "unat (t2 - t1) + unat (t4 - t3) + us_at e h0 \<le> us_at e h4 \<and> ticks_ok e h4"
proof -
  have "ticks_ok e h1" "ticks_ok e h3" "us_at e h0 \<le> us_at e h1" "us_at e h2 \<le> us_at e h3" "ticks_ok e h4"
    using assms(1-5) by (auto simp: later_def)
  then show ?thesis
    using interval [OF assms(2) _ assms(6,7)] interval [OF assms(4) _ assms(8,9)] by simp
qed

context sink_contract
begin

lemma write_later: "run_state (vt_write vt data n) (sk, h) = (ok, sk', h') \<Longrightarrow> later e h h'"
  by (drule wpD [OF write_frame]) (auto intro: later_sink)

lemma flush_later: "run_state (vt_flush vt) (sk, h) = (u, sk', h') \<Longrightarrow> later e h h'"
  by (drule wpD [OF flush_frame]) (auto intro: later_sink)

lemma write_stage_done:
  assumes w: "steady w e" and s: "m_timer (m_metrics (cl s)) = ChronoTimer e"
  shows "wp (write_stage w vt cmd)
    (\<lambda>x s'. stage_done e (case x of Inl ctl \<Rightarrow> 0 | Inr sk_us \<Rightarrow> unat sk_us) s s') s"
  unfolding write_stage_def sink_write_def
proof (intro later_intros wp_client_now_us_later [OF w] wp_trace_begin_later [OF w] wp_trace_end_later [OF w],
    simp_all add: s, goal_cases)
  case (1 h' h2)
  then have "later e (hist s) h2" by (meson later_trans later_log)
  then show ?case by (intro stage_done_zero) simp_all
next
  case (2 h')
  then show ?case by (intro stage_done_zero) (simp_all add: later_log)
next
  case (3 h' sk h2)
  then have "later e (hist s) h2" by (meson later_trans later_log)
  then show ?case by (intro stage_done_zero) simp_all
next
  case (4 h' sk t h1 h2 ok sk' h3 h4 h5)
  then have "later e h2 h3" by (intro write_later)
  with 4 have "later e (hist s) h5" by (meson later_trans later_log)
  then show ?case by (intro stage_done_zero) simp_all
next
  case (5 h' sk t h1 h2 ok sk' h3 h4 t' h5)
  then have "later e h2 h3" by (intro write_later)
  with 5 have "later e (hist s) h1" "later e h1 h5" by (meson later_trans later_log)+
  with 5 show ?case by (intro stage_done_interval [where ?h1.0 = h1]) simp_all
qed

lemma get_command_failed_done: "wp (get_command_failed w vt hr now) (\<lambda>r s'. stage_done e 0 s s') s"
proof -
  have stall: "wp (check_stall now) (\<lambda>_ s'. later e (hist s) (hist s') \<and> m_metrics (cl s') = m_metrics (cl s)) s"
    for s :: "'s sys"
    unfolding check_stall_def by (intro later_intros) (auto intro: later_log)
  have flush: "wp (flush_sink vt m) (\<lambda>_ s'. later e (hist s) (hist s') \<and> m_metrics (cl s') = m_metrics (cl s)) s"
    if "wp m (\<lambda>_ h'. later e (hist s) h') (hist s)" for m and s :: "'s sys"
    unfolding flush_sink_def
    by (intro later_intros wp_mono [OF that]) (auto dest!: flush_later intro: later_trans)
  show ?thesis
    unfolding get_command_failed_def
    by (intro later_intros wp_mono [OF stall] wp_mono [OF flush])
      (auto intro!: stage_done_zero intro: later_log later_trans [OF _ later_log])
qed

lemma complete_recorded_from:
  assumes "steady w e" "clocked e s1" "spent (cl s1) = spent (cl s)"
    and "\<And>cc. timing_of cmd (make_timing cmd gc dp sk cc ts)" "unat gc + unat dp + unat sk + b \<le> us_at e (hist s1)"
  shows "wp (complete_stage w d cmd (\<lambda>cc. make_timing cmd gc dp sk cc ts)) (\<lambda>r s'. recorded e b s s') s1"
  by (rule wp_mono [OF complete_stage_recorded [OF assms(1,2,4,5)]]) (use assms(3) in \<open>simp add: recorded_def\<close>)

lemma stage_3_recorded:
  assumes w: "steady w e" and s1: "clocked e s1" "spent (cl s1) = spent (cl s)" and cmd: "commandCode cmd = VDC_Write"
    and stage: "stage_done e (case x of Inl ctl \<Rightarrow> 0 | Inr sk_us \<Rightarrow> unat sk_us) s1 s2"
    and b: "unat gc + unat dp + b \<le> us_at e (hist s1)"
  shows "wp (case x of Inl ctl \<Rightarrow> State_Monad.return ctl
      | Inr sk_us \<Rightarrow> complete_stage w d cmd (\<lambda>cc. make_timing cmd gc dp sk_us cc ts)) (\<lambda>r s'. recorded e b s s') s2"
proof (cases x)
  case (Inl ctl)
  then show ?thesis
    using stage s1 b by (auto intro!: wp_return simp: recorded_def stage_done_def clocked_def later_def spent_def)
next
  case (Inr sk)
  then have "clocked e s2" "spent (cl s2) = spent (cl s)" "unat gc + unat dp + unat sk + b \<le> us_at e (hist s2)"
    using stage s1 b by (auto simp: stage_done_def clocked_def later_def spent_def)
  from complete_recorded_from [OF w this(1,2) _ this(3)] show ?thesis
    using Inr cmd by (simp add: timing_of_def make_timing_def)
qed

lemma process_device_recorded:
  assumes w: "steady w e" and s: "clocked e s"
  shows "wp (process_device w vt start d) (\<lambda>r s'. recorded e (us_at e (hist s)) s s') s"
  unfolding process_device_def
proof (intro later_intros wp_client_now_us_later [OF w] wp_GetCommand wp_mono [OF get_command_failed_done [where e = e]]
    wp_mono [OF write_stage_done [OF w]], simp_all add: clocked_timer [OF s], goal_cases)
  case (1 t h1 hr c hr' t' h2 s')
  then have "later e (hist s) h2" by (meson later_trans)
  with 1 show ?case using s by (intro recorded_same) (auto simp: stage_done_def intro: later_trans)
next
  case (2 t h1 hr c c' t' h2 h3)
  then have "later e (hist s) h3" by (meson later_trans later_log)
  then show ?case using s by (intro recorded_same) simp_all
next
  case (3 t h1 hr c c' t2 h2 cmd h3 t4 h4 h5 code res t6 h6 h7)
  then have "later e (hist s) h7" by (meson later_trans later_log)
  then show ?case using s by (intro recorded_same) simp_all
next
  case (4 t h1 hr c c' t2 h2 cmd h3 t4 h4 h5 code res t6 h6)
  then have "later e (hist s) h6" by (meson later_trans later_log)
  then show ?case using s by (intro recorded_same) simp_all
next
  case (5 t h1 hr c c' t2 h2 cmd h3 t4 h4 h5 code res t6 h6 x s')
  let ?s1 = "s\<lparr>cl := (cl s)\<lparr>m_last_command_us := t2\<rparr>, hist := h6\<rparr>"
  have "later e h2 h4" "later e h4 h6" using 5 by (meson later_trans later_log)+
  then have "unat (t2 - t) + unat (t6 - t4) + us_at e (hist s) \<le> us_at e h6 \<and> ticks_ok e h6"
    using 5 s by (intro two_intervals [where ?h1.0 = h1 and ?h2.0 = h2 and ?h3.0 = h4]) (simp_all add: clocked_def)
  then show ?case
    using 5 s by (intro stage_3_recorded [OF w, where ?s1.0 = ?s1]) (simp_all add: clocked_def spent_def dispatch_result_def)
next
  case (6 t h1 hr c c' t2 h2 cmd h3 t4 h4 h5 code res t6 h6)
  have "later e h2 h4" "later e h4 h6" using 6 by (meson later_trans later_log)+
  then have "unat (t2 - t) + unat (t6 - t4) + us_at e (hist s) \<le> us_at e h6 \<and> ticks_ok e h6"
    using 6 s by (intro two_intervals [where ?h1.0 = h1 and ?h2.0 = h2 and ?h3.0 = h4]) (simp_all add: clocked_def)
  then show ?case
    using 6 s by (intro complete_recorded_from [OF w])
      (simp_all add: clocked_def spent_def dispatch_result_def timing_of_def make_timing_def)
qed

section \<open>The session\<close>

lemma recorded_refl: "clocked e s \<Longrightarrow> recorded e (us_at e (hist s)) s s"
  by (simp add: recorded_def)

lemma recorded_trans:
  "recorded e (us_at e (hist s1)) s1 s2 \<Longrightarrow> recorded e (us_at e (hist s)) s s1 \<Longrightarrow> recorded e (us_at e (hist s)) s s2"
  by (auto simp: recorded_def)

lemma device_round_recorded:
  "steady w e \<Longrightarrow> clocked e s \<Longrightarrow> wp (device_round w vt start ds) (\<lambda>r s'. recorded e (us_at e (hist s)) s s') s"
proof (induction ds arbitrary: s)
  case (Cons d ds)
  have more: "wp (device_round w vt start ds) (\<lambda>r s'. recorded e (us_at e (hist s)) s s') s1"
    if "recorded e (us_at e (hist s)) s s1" for s1
    by (rule wp_mono [OF Cons.IH [OF Cons.prems(1)]])
      (use that in \<open>auto simp: recorded_def [of e "us_at e (hist s)" s s1] intro: recorded_trans\<close>)
  show ?case
    unfolding device_round.simps
    by (intro wp_bind wp_mono [OF process_device_recorded [OF Cons.prems]] wp_if wp_return more)
qed (auto intro: wp_return recorded_refl)

lemma command_loop_recorded:
  assumes "command_loop w vt start ds s = Some (r, s')" "steady w e"
  shows "clocked e s \<longrightarrow> recorded e (us_at e (hist s)) s s'"
  using assms(1)
proof (induction rule: command_loop_induct)
  case (last s r s1)
  then show ?case using wpD [OF device_round_recorded [OF assms(2)]] by blast
next
  case (more s s1 s')
  then show ?case
    using wpD [OF device_round_recorded [OF assms(2)] more(1)] by (auto simp: recorded_def)
qed

lemma prologue_later:
  fixes s :: "'s sys"
  shows "wp (process_prologue w) (\<lambda>_ s'. later e (hist s) (hist s') \<and> m_metrics (cl s') = m_metrics (cl s)) s"
proof -
  have op: "wp (open_all_devices w ds i n devs) (\<lambda>_ s'. later e (hist s) (hist s') \<and> m_metrics (cl s') = m_metrics (cl s)) s"
    for ds i n devs and s :: "'s sys"
  proof (induction n arbitrary: i devs s)
    case (Suc n)
    show ?case
      unfolding open_all_devices.simps OpenDevice_def
      by (intro later_intros wp_call wp_mono [OF Suc]; simp) (erule conjE later_back | rule later_Cons | simp)+
  qed (auto intro: wp_return)
  show ?thesis
    unfolding process_prologue_def
    by (intro later_intros wp_mono [OF op]; simp) (erule conjE later_back | rule later_Cons | simp)+
qed

lemma after_loop_later:
  assumes w: "steady w e"
  shows "wp (after_loop w vt devices) (\<lambda>_ s'. later e (hist s) (hist s') \<and>
    m_timer (m_metrics (cl s')) = m_timer (m_metrics (cl s)) \<and>
    m_timings (m_metrics (cl s')) = m_timings (m_metrics (cl s))) s"
proof -
  have rel: "wp (release_all ds) (\<lambda>_ h'. later e h h') h" for ds h
  proof (induction ds arbitrary: h)
    case (Cons d ds)
    show ?case
      unfolding release_all.simps DeviceRelease_def
      by (intro later_intros wp_emit wp_mono [OF Cons]) (erule conjE later_back | rule later_Cons | simp)+
  qed (auto intro: wp_return)
  have close: "wp (close w vt) (\<lambda>_ s'. later e (hist s) (hist s') \<and> m_metrics (cl s') = m_metrics (cl s)) s"
    for s :: "'s sys"
    unfolding close_def flush_before_close_def close_device_set_def SetClose_def SetRelease_def
    by (intro later_intros wp_emit wp_call; simp) (drule flush_later | erule conjE later_back | rule later_Cons | simp)+
  have rep: "wp (report w) (\<lambda>_ s'. later e (hist s) (hist s') \<and> cl s' = cl s) s" for s :: "'s sys"
    unfolding report_def print_summary_def to_json_def GetProcessTimes_def
    by (intro later_intros wp_emit wp_call wp_steady_clock_later [OF w]; simp)
      (erule conjE later_back | rule later_Cons | simp)+
  show ?thesis
    unfolding after_loop_def
    by (intro later_intros wp_mono [OF rel] wp_mono [OF close] wp_mono [OF rep]; simp)
      (erule conjE later_back | rule later_Cons | simp)+
qed

lemma process_commands_recorded:
  assumes "process_commands w vt s = Some (out, s')" "steady w e" "clocked e s"
  shows "recorded e (us_at e (hist s)) s s'"
  using assms(1)
proof (cases rule: process_commands_cases)
  case stopped
  with wpD [OF prologue_later [where e = e] stopped(1)] assms(3) show ?thesis by (intro recorded_same) auto
next
  case (ran devices s1 start s2 r s3)
  have "wp (start_session_clock w) (\<lambda>_ s'. later e (hist s1) (hist s') \<and> m_metrics (cl s') = m_metrics (cl s1)) s1"
    unfolding start_session_clock_def
    by (intro later_intros wp_client_now_us_later [OF assms(2)])
      (use wpD [OF prologue_later [where e = e] ran(1)] assms(3) in \<open>simp_all add: clocked_def\<close>)
  from wpD [OF this ran(2)] wpD [OF prologue_later [where e = e] ran(1)]
  have s2: "later e (hist s) (hist s2)" "m_metrics (cl s2) = m_metrics (cl s)" by (auto intro: later_trans)
  then have "clocked e s2" using assms(3) by (simp add: clocked_def later_def)
  with command_loop_recorded [OF ran(3) assms(2)] s2 assms(3) have s3: "recorded e (us_at e (hist s)) s s3"
    by (auto simp: recorded_def later_def clocked_def spent_def)
  show ?thesis
  proof (cases "r = Crash")
    case False
    then have "s' = snd (run_state (after_loop w vt devices) s3)" using ran(5) by simp
    with s3 after_loop_later [OF assms(2), of devices s3] show ?thesis
      by (auto simp: wp_snd recorded_def later_def clocked_def spent_def)
  qed (use s3 ran(5) in simp)
qed

end

section \<open>The property\<close>

text \<open>
  C18. The stage times are disjoint parts of the session. On a client with the chrono timer, whose clock
  keeps the promise of a steady clock: after process_commands the total of every entry of the timings
  is the exact sum of its four stages, without wrap-around, and what was recorded during the call
  adds up to no more than the microseconds the clock advanced, however many devices, timeouts and
  commands there were.
\<close>

theorem stage_times_within_session:
  assumes "sink_contract vt" "process_commands w vt s = Some (out, s')"
    and "m_timer (m_metrics (cl s)) = ChronoTimer e" "steady w e" "ticks_ok e (hist s)" "m_timings (m_metrics (cl s)) = []"
  shows "(\<forall>tm\<in>set (m_timings (m_metrics (cl s'))). unat (total_us tm) = stage_sum tm) \<and>
    sum_list (map stage_sum (m_timings (m_metrics (cl s')))) + us_at e (hist s) \<le> us_at e (hist s')"
  using sink_contract.process_commands_recorded [OF assms(1,2,4)] assms(3,5,6)
  by (auto simp: clocked_def recorded_def spent_def)

text \<open>A clock that advances by a millisecond at every reading, and one write.\<close>

definition ticking_world :: world where
  "ticking_world = (one_write_world True)\<lparr>r_steady_clock := (\<lambda>h. case last_tick h of None \<Rightarrow> 0
     | Some t \<Rightarrow> if chrono_ok 0 t then (if sint t < 2 ^ 62 then t + 1000000 else t) else 0)\<rparr>"

lemma ticking_steady: "steady ticking_world 0"
proof -
  have step: "sint (t + 1000000) = sint t + 1000000" if "0 \<le> sint t" "sint t < 2 ^ 62" for t :: i64
    using that by (simp add: sint_word_ariths signed_take_bit_int_eq_self)
  show ?thesis
    by (auto simp: steady_def ticking_world_def chrono_ok_def step split: option.splits)
qed

theorem stage_times_within_session_witness:
  "\<exists>s'. process_commands ticking_world (file_vtbl ticking_world) demo_file_session = Some (Returned, s') \<and>
     sum_list (map stage_sum (m_timings (m_metrics (cl s')))) \<le> us_at 0 (hist s')"
proof -
  have "closes_after 1 ticking_world"
    by (auto simp: closes_after_def ticking_world_def ow VD_E_CLOSE_def VD_E_TIMEOUT_def hr_failed_def)
  then obtain s' where s': "process_commands ticking_world (file_vtbl ticking_world) demo_file_session = Some (Returned, s')"
    using process_commands_returns [OF file_frame.sink_contract_axioms] by (fastforce simp: demo_file_session_def)
  have "m_timer (m_metrics (cl demo_file_session)) = ChronoTimer 0" "ticks_ok 0 (hist demo_file_session)"
    "m_timings (m_metrics (cl demo_file_session)) = []"
    by (simp_all add: demo_file_session_def empty_metrics_def ticks_ok_def)
  from stage_times_within_session [OF file_frame.sink_contract_axioms s' this(1) ticking_steady this(2,3)] s'
  show ?thesis by auto
qed

end
