(* ===== verification/Environment.thy ===== *)
theory Environment
  imports World Json Metrics_Report
begin

text \<open>
  \<open>include/environment.h\<close> and \<open>src/environment.cpp\<close>: the description of the machine a benchmark ran
  on, read from the registry and two system calls on the Windows branch, and its JSON text. A
  registry value is read into a buffer of UTF-16 units and converted to UTF-8 in two calls, one
  for the length. Every step is best effort: what fails leaves its field as it is.
\<close>

record environment_info =
  os_name :: string
  os_version :: string
  cpu_model :: string
  cpu_core_count :: u32
  ram_bytes :: u64
  sql_version :: string

text \<open>\<open>EnvironmentInfo info = {}\<close>.\<close>

definition no_environment :: environment_info where
  "no_environment = \<lparr>os_name = [], os_version = [], cpu_model = [], cpu_core_count = 0, ram_bytes = 0,
     sql_version = []\<rparr>"

section \<open>Reading the registry\<close>

definition registry_path :: "string list \<Rightarrow> string" where
  "registry_path parts = concat (map (\<lambda>p. p @ [CHR 0x5C]) (butlast parts)) @ last parts"

text \<open>The value is stored at the start of the buffer; the text in it ends at its first zero.\<close>

definition store_value :: "u16 list \<Rightarrow> u16 list \<Rightarrow> u16 list" where
  "store_value data buf = take (length buf) (data @ drop (length data) buf)"

definition wide_text :: "u16 list \<Rightarrow> u16 list" where
  "wide_text buf = takeWhile (\<lambda>c. c \<noteq> 0) buf"

text \<open>
  The two conversion calls: the field is resized to the length less the terminator and then
  written. None when the first call fails.
\<close>

definition to_utf8 :: "world \<Rightarrow> u16 list \<Rightarrow> string option io" where
  "to_utf8 w buf = do {
     (len, _) \<leftarrow> WideCharToMultiByte w (wide_text buf) 0;
     if 0 < sint len
     then do {
       (_, out) \<leftarrow> WideCharToMultiByte w (wide_text buf) len;
       let n = nat (sint len) - 1;
       State_Monad.return (Some (take n (out @ replicate n (CHR 0x00)))) }
     else State_Monad.return None }"

text \<open>One value of an open key: the field's new text, if any, and the buffer for the next value.\<close>

definition read_value_text :: "world \<Rightarrow> string \<Rightarrow> u16 list \<Rightarrow> (string option \<times> u16 list) io" where
  "read_value_text w nm buf = do {
     d \<leftarrow> RegQueryValueExW w nm;
     (case d of
        None \<Rightarrow> State_Monad.return (None, buf)
      | Some data \<Rightarrow> do {
          let buf = store_value data buf;
          t \<leftarrow> to_utf8 w buf;
          State_Monad.return (t, buf) }) }"

definition set_field :: "string option \<Rightarrow> (string \<Rightarrow> environment_info \<Rightarrow> environment_info) \<Rightarrow>
    environment_info \<Rightarrow> environment_info" where
  "set_field t upd info = (case t of None \<Rightarrow> info | Some s \<Rightarrow> upd s info)"

definition capture_os :: "world \<Rightarrow> environment_info \<Rightarrow> environment_info io" where
  "capture_os w info = do {
     ok \<leftarrow> RegOpenKeyExW w (registry_path [''SOFTWARE'', ''Microsoft'', ''Windows NT'', ''CurrentVersion'']);
     if ok
     then do {
       (name, buf) \<leftarrow> read_value_text w ''ProductName'' (replicate 256 0);
       let info = set_field name (\<lambda>t i. i\<lparr>os_name := t\<rparr>) info;
       (version, _) \<leftarrow> read_value_text w ''CurrentVersion'' buf;
       let info = set_field version (\<lambda>t i. i\<lparr>os_version := t\<rparr>) info;
       RegCloseKey;
       State_Monad.return info }
     else State_Monad.return info }"

definition capture_cpu :: "world \<Rightarrow> environment_info \<Rightarrow> environment_info io" where
  "capture_cpu w info = do {
     ok \<leftarrow> RegOpenKeyExW w (registry_path
       [''HARDWARE'', ''DESCRIPTION'', ''System'', ''CentralProcessor'', ''0'']);
     if ok
     then do {
       (name, _) \<leftarrow> read_value_text w ''ProcessorNameString'' (replicate 256 0);
       RegCloseKey;
       State_Monad.return (set_field name (\<lambda>t i. i\<lparr>cpu_model := t\<rparr>) info) }
     else State_Monad.return info }"

definition capture_sql :: "world \<Rightarrow> environment_info \<Rightarrow> environment_info io" where
  "capture_sql w info = do {
     ok \<leftarrow> RegOpenKeyExW w (registry_path
       [''SOFTWARE'', ''Microsoft'', ''Microsoft SQL Server'', ''MSSQL16.MSSQLSERVER'', ''Setup'']);
     if ok
     then do {
       (name, _) \<leftarrow> read_value_text w ''PatchLevel'' (replicate 128 0);
       RegCloseKey;
       State_Monad.return (set_field name (\<lambda>t i. i\<lparr>sql_version := t\<rparr>) info) }
     else State_Monad.return info }"

definition capture_environment :: "world \<Rightarrow> environment_info io" where
  "capture_environment w = do {
     info \<leftarrow> capture_os w no_environment;
     info \<leftarrow> capture_cpu w info;
     cores \<leftarrow> GetSystemInfo w;
     let info = info\<lparr>cpu_core_count := cores\<rparr>;
     mem \<leftarrow> GlobalMemoryStatusEx w;
     let info = (case mem of None \<Rightarrow> info | Some n \<Rightarrow> info\<lparr>ram_bytes := n\<rparr>);
     capture_sql w info }"

section \<open>The JSON text\<close>

definition environment_to_json :: "environment_info \<Rightarrow> string" where
  "environment_to_json env =
     ''  '' @ dq @ ''environment'' @ dq @ '': {'' @ nl @
     ''    '' @ dq @ ''os_name'' @ dq @ '': '' @ dq @ os_name env @ dq @ '','' @ nl @
     ''    '' @ dq @ ''os_version'' @ dq @ '': '' @ dq @ os_version env @ dq @ '','' @ nl @
     ''    '' @ dq @ ''cpu_model'' @ dq @ '': '' @ dq @ cpu_model env @ dq @ '','' @ nl @
     ''    '' @ dq @ ''cpu_core_count'' @ dq @ '': '' @ decimal (unat (cpu_core_count env)) @ '','' @ nl @
     ''    '' @ dq @ ''ram_bytes'' @ dq @ '': '' @ show_u64 (ram_bytes env) @ '','' @ nl @
     ''    '' @ dq @ ''sql_version'' @ dq @ '': '' @ dq @ sql_version env @ dq @ '','' @ nl @
     ''    '' @ dq @ ''tool_version'' @ dq @ '': '' @ dq @ VDI_WRAPPER_VERSION_STRING @ dq @ nl @
     ''  }''"

text \<open>What a reader of the text should see.\<close>

definition environment_members :: "environment_info \<Rightarrow> (string \<times> json) list" where
  "environment_members env = [(''environment'', JObj
     [(''os_name'', JStr (os_name env)), (''os_version'', JStr (os_version env)),
      (''cpu_model'', JStr (cpu_model env)), (''cpu_core_count'', JNum (decimal (unat (cpu_core_count env)))),
      (''ram_bytes'', JNum (decimal (unat (ram_bytes env)))), (''sql_version'', JStr (sql_version env)),
      (''tool_version'', JStr ''0.1.0'')])]"

lemma environment_to_json_layout: "environment_to_json env @ nl = render_members 2 (environment_members env)"
  by (simp add: environment_to_json_def environment_members_def json_key_def show_u64_def
      VDI_WRAPPER_VERSION_STRING_def numeral_eq_Suc)

section \<open>Registry keys\<close>

fun open_keys :: "history \<Rightarrow> int" where
  "open_keys [] = 0"
| "open_keys (E_RegOpenKeyExW _ ok # h) = (if ok then open_keys h + 1 else open_keys h)"
| "open_keys (E_RegCloseKey # h) = open_keys h - 1"
| "open_keys (_ # h) = open_keys h"

lemma wp_WideCharToMultiByte:
  "(\<And>n out h'. open_keys h' = open_keys h \<Longrightarrow> Q (n, out) h') \<Longrightarrow> wp (WideCharToMultiByte w s k) Q h"
  by (cases "r_WideCharToMultiByte w h s k") (simp add: WideCharToMultiByte_def wp_def)

lemma wp_read_value_text:
  "(\<And>r h'. open_keys h' = open_keys h \<Longrightarrow> Q r h') \<Longrightarrow> wp (read_value_text w nm buf) Q h"
  unfolding read_value_text_def to_utf8_def RegQueryValueExW_def Let_def
  by (intro wp_intros wp_WideCharToMultiByte) auto

lemmas capture_intros = wp_intros wp_read_value_text
lemmas capture_defs = capture_os_def capture_cpu_def capture_sql_def RegOpenKeyExW_def RegCloseKey_def
  GetSystemInfo_def GlobalMemoryStatusEx_def

text \<open>
  C39. Capturing the environment leaves no registry key open: whatever exists in the registry, and
  whichever query or conversion fails, every key that was opened has been closed once.
\<close>

theorem capture_environment_closes_keys:
  "open_keys (snd (run_state (capture_environment w) h)) = open_keys h"
proof -
  have "wp (capture_environment w) (\<lambda>_ h'. open_keys h' = open_keys h) h"
    unfolding capture_environment_def capture_defs Let_def by (intro capture_intros) simp_all
  then show ?thesis by (simp add: wp_snd)
qed

text \<open>
  The buffer is not cleared between two values. A second value stored without its terminator,
  which the registry allows, is read with the end of the first one.
\<close>

lemma unterminated_value:
  assumes "length d < length t" "length t < n" "0 \<notin> set d" "0 \<notin> set t"
  shows "wide_text (store_value d (store_value (t @ [0]) (replicate n 0))) = d @ drop (length d) t"
proof -
  have "n = length t + Suc (n - length t - 1)" using assms(2) by simp
  then obtain k where n: "n = length t + Suc k" by blast
  have "store_value (t @ [0]) (replicate n 0) = t @ 0 # replicate k 0"
    by (simp add: store_value_def n)
  then have "store_value d (store_value (t @ [0]) (replicate n 0)) = d @ drop (length d) t @ 0 # replicate k 0"
    using assms(1) by (simp add: store_value_def)
  moreover have "takeWhile (\<lambda>c. c \<noteq> 0) (u @ 0 # v) = u" if "0 \<notin> set u" for u v :: "u16 list"
    using that by (induction u) auto
  ultimately show ?thesis
    using assms(3,4) by (simp add: wide_text_def) (metis append.assoc in_set_dropD set_append Un_iff)
qed

section \<open>Reading the text back\<close>

definition json_document :: "string \<Rightarrow> string" where
  "json_document members = ''{'' @ nl @ members @ nl @ ''}''"

definition plain_environment :: "environment_info \<Rightarrow> bool" where
  "plain_environment env \<longleftrightarrow> plain (os_name env) \<and> plain (os_version env) \<and> plain (cpu_model env)
     \<and> plain (sql_version env)"

text \<open>
  C38. The JSON text of an environment whose texts need no escape is a valid member of a document,
  and a reader gets every field back exactly.
\<close>

theorem environment_json_roundtrip:
  assumes "plain_environment env"
  shows "read_json (json_document (environment_to_json env)) = Some (JObj
    [(''environment'', JObj
     [(''os_name'', JStr (os_name env)), (''os_version'', JStr (os_version env)),
      (''cpu_model'', JStr (cpu_model env)), (''cpu_core_count'', JNum (decimal (unat (cpu_core_count env)))),
      (''ram_bytes'', JNum (decimal (unat (ram_bytes env)))), (''sql_version'', JStr (sql_version env)),
      (''tool_version'', JStr ''0.1.0'')])])"
proof -
  have "well_formed (JObj (environment_members env))"
    using assms by (simp add: environment_members_def plain_environment_def) (simp add: plain_char_def)
  moreover have "json_document (environment_to_json env) = render 0 (JObj (environment_members env))"
    using environment_to_json_layout [of env] by (simp add: json_document_def numeral_2_eq_2)
  ultimately show ?thesis using read_json_render by (simp only: environment_members_def)
qed

definition demo_environment :: environment_info where
  "demo_environment = \<lparr>os_name = ''Windows'', os_version = ''6.3'', cpu_model = ''EPYC'',
     cpu_core_count = 64, ram_bytes = 1024, sql_version = []\<rparr>"

theorem environment_json_roundtrip_witness:
  "\<exists>ms. read_json (json_document (environment_to_json demo_environment)) = Some (JObj [(''environment'', JObj ms)])
     \<and> map_of ms ''cpu_core_count'' = Some (JNum ''64'')"
proof -
  have "plain_environment demo_environment"
    by (simp add: demo_environment_def plain_environment_def plain_char_def)
  moreover have "decimal 64 = ''64''" by code_simp
  ultimately show ?thesis
    using environment_json_roundtrip [of demo_environment] by (simp add: demo_environment_def)
qed

text \<open>
  The texts are not escaped. A processor name with a quote makes the document unreadable, and
  two different environments can have the same text.
\<close>

lemma environment_json_unescaped:
  "read_json (json_document (environment_to_json (demo_environment\<lparr>cpu_model := ''A '' @ dq @ ''B'' @ dq\<rparr>))) = None
   \<and> (\<exists>e e'. e \<noteq> e' \<and> environment_to_json e = environment_to_json e')"
proof
  show "read_json (json_document (environment_to_json (demo_environment\<lparr>cpu_model := ''A '' @ dq @ ''B'' @ dq\<rparr>))) = None"
    by code_simp
  define sep where "sep = dq @ '','' @ nl @ ''    '' @ dq @ ''cpu_model'' @ dq @ '': '' @ dq"
  let ?e = "demo_environment\<lparr>os_version := ''6.3'' @ sep @ ''C'', cpu_model := ''D''\<rparr>"
  let ?e' = "demo_environment\<lparr>os_version := ''6.3'', cpu_model := ''C'' @ sep @ ''D''\<rparr>"
  have "cpu_model ?e \<noteq> cpu_model ?e'" by simp
  then have "?e \<noteq> ?e'" by metis
  moreover have "environment_to_json ?e = environment_to_json ?e'"
    by (simp add: environment_to_json_def sep_def demo_environment_def)
  ultimately show "\<exists>e e'. e \<noteq> e' \<and> environment_to_json e = environment_to_json e'" by blast
qed

end
