(* ===== verification/Vdi_Header.thy ===== *)
theory Vdi_Header
  imports Sqlvdi
begin

text \<open>
  \<open>include/vdi_real.h\<close>, the header the MIDL compiler generated from Microsoft's interface
  definition. Nothing includes it; it is kept as the reference that the hand-written \<open>include/sqlvdi.h\<close>
  has to agree with. Its declarations are transcribed as data: the interfaces in the C++ style, the
  same interfaces as C structures of function pointers, the macros that call through those, and the
  prototypes of the RPC proxies and stubs. Theory \<open>Com_Abi\<close> compares them.
\<close>

section \<open>Declarations as data\<close>

text \<open>The C types the two headers use. \<open>Interface\<close> is a COM interface by its name.\<close>

datatype c_type =
    DWORD | DWORDLONG | ULONG | UNSIGNED_LONG | HRESULT | BYTE | VOID | LPCWSTR | REFIID
  | VDConfig_t | VDC_Command_t | VDS_Command_t
  | IRpcStubBuffer_t | IRpcChannelBuffer_t | PRPC_MESSAGE
  | Interface string
  | Ptr c_type

text \<open>A method or function: its result type, its name, and the types and names of its parameters.\<close>

datatype vmethod = Method c_type string "(c_type \<times> string) list"

fun method_name :: "vmethod \<Rightarrow> string" where
  "method_name (Method r n ps) = n"

abbreviation this :: "string \<Rightarrow> c_type \<times> string" where
  "this i \<equiv> (Ptr (Interface i), ''This'')"

text \<open>An interface: its identifier, the interface it derives from, and the methods it adds.\<close>

record com_interface =
  uuid :: string
  base :: string
  methods :: "vmethod list"

text \<open>A macro: its name and parameters, and the slot of the table it calls with which arguments.\<close>

datatype c_macro = Macro string "string list" string "string list"

text \<open>The four parameters of every RPC stub.\<close>

definition stub_params :: "(c_type \<times> string) list" where
  "stub_params = [(Ptr IRpcStubBuffer_t, ''This''), (Ptr IRpcChannelBuffer_t, ''_pRpcChannelBuffer''),
     (PRPC_MESSAGE, ''_pRpcMessage''), (Ptr DWORD, ''_pdwStubPhase'')]"

text \<open>The slots every interface starts with, as the C structures of the header repeat them.\<close>

definition iunknown_slots :: "vmethod list" where
  "iunknown_slots = [
     Method HRESULT ''QueryInterface'' [(REFIID, ''riid''), (Ptr (Ptr VOID), ''ppvObject'')],
     Method ULONG ''AddRef'' [],
     Method ULONG ''Release'' []]"

section \<open>Structures and constants\<close>

definition midl_VDConfig :: "(c_type \<times> string) list" where
  "midl_VDConfig = map (Pair UNSIGNED_LONG) [''deviceCount'', ''features'', ''prefixZoneSize'', ''alignment'',
     ''softFileMarkBlockSize'', ''EOMWarningSize'', ''serverTimeOut'', ''blockSize'', ''maxIODepth'',
     ''maxTransferSize'', ''bufferAreaSize'']"

definition midl_VDC_Command :: "(c_type \<times> string) list" where
  "midl_VDC_Command = [(DWORD, ''commandCode''), (DWORD, ''size''), (DWORDLONG, ''position''),
     (Ptr BYTE, ''buffer'')]"

text \<open>The initialiser of an enumeration constant or a macro.\<close>

datatype c_expr = Lit u32 | Name string | Or c_expr c_expr | Plus_1 c_expr

definition midl_VDFeatures :: "(string \<times> c_expr) list" where
  "midl_VDFeatures = [
     (''VDF_Removable'', Lit 0x1), (''VDF_Rewind'', Lit 0x2), (''VDF_Position'', Lit 0x10),
     (''VDF_SkipBlocks'', Lit 0x20), (''VDF_ReversePosition'', Lit 0x40), (''VDF_Discard'', Lit 0x80),
     (''VDF_FileMarks'', Lit 0x100), (''VDF_RandomAccess'', Lit 0x200), (''VDF_SnapshotPrepare'', Lit 0x400),
     (''VDF_EnumFrozenFiles'', Lit 0x800), (''VDF_VSSWriter'', Lit 0x1000), (''VDF_WriteMedia'', Lit 0x10000),
     (''VDF_ReadMedia'', Lit 0x20000), (''VDF_LatchStats'', Lit 0x80000000), (''VDF_LikePipe'', Lit 0),
     (''VDF_LikeTape'', Or (Or (Or (Or (Or (Name ''VDF_FileMarks'') (Name ''VDF_Removable''))
        (Name ''VDF_Rewind'')) (Name ''VDF_Position'')) (Name ''VDF_SkipBlocks'')) (Name ''VDF_ReversePosition'')),
     (''VDF_LikeDisk'', Name ''VDF_RandomAccess'')]"

definition midl_VDCommands :: "(string \<times> c_expr) list" where
  "midl_VDCommands = [
     (''VDC_Read'', Lit 1), (''VDC_Write'', Plus_1 (Name ''VDC_Read'')),
     (''VDC_ClearError'', Plus_1 (Name ''VDC_Write'')), (''VDC_Rewind'', Plus_1 (Name ''VDC_ClearError'')),
     (''VDC_WriteMark'', Plus_1 (Name ''VDC_Rewind'')), (''VDC_SkipMarks'', Plus_1 (Name ''VDC_WriteMark'')),
     (''VDC_SkipBlocks'', Plus_1 (Name ''VDC_SkipMarks'')), (''VDC_Load'', Plus_1 (Name ''VDC_SkipBlocks'')),
     (''VDC_GetPosition'', Plus_1 (Name ''VDC_Load'')), (''VDC_SetPosition'', Plus_1 (Name ''VDC_GetPosition'')),
     (''VDC_Discard'', Plus_1 (Name ''VDC_SetPosition'')), (''VDC_Flush'', Plus_1 (Name ''VDC_Discard'')),
     (''VDC_Snapshot'', Plus_1 (Name ''VDC_Flush'')), (''VDC_MountSnapshot'', Plus_1 (Name ''VDC_Snapshot'')),
     (''VDC_PrepareToFreeze'', Plus_1 (Name ''VDC_MountSnapshot'')),
     (''VDC_FileInfoBegin'', Plus_1 (Name ''VDC_PrepareToFreeze'')),
     (''VDC_FileInfoEnd'', Plus_1 (Name ''VDC_FileInfoBegin''))]"

definition midl_VDWhence :: "(string \<times> c_expr) list" where
  "midl_VDWhence = [
     (''VDC_Beginning'', Lit 0), (''VDC_Current'', Plus_1 (Name ''VDC_Beginning'')),
     (''VDC_End'', Plus_1 (Name ''VDC_Current''))]"

text \<open>An identifier: a 32-bit, two 16-bit and eight 8-bit numbers.\<close>

datatype guid = Guid u32 u16 u16 "u8 list"

text \<open>The classes: two identifiers of their own, and two that are the identifier of an interface.\<close>

definition midl_WINFS_class_ids :: "(string \<times> guid) list" where
  "midl_WINFS_class_ids = [
     (''CLSID_WINFS_ClientVirtualDeviceSet'',
       Guid 0x50b99b13 0x7b84 0x44d3 [0x9c, 0x98, 0x26, 0x52, 0xbf, 0x14, 0x4d, 0x96]),
     (''CLSID_WINFS_ServerVirtualDeviceSet'',
       Guid 0x92e6b26b 0x57da 0x47ed [0x81, 0x53, 0xdf, 0xf1, 0x87, 0xa7, 0x6d, 0xde])]"

definition midl_CLSID_MSSQL_ClientVirtualDeviceSet :: string where
  "midl_CLSID_MSSQL_ClientVirtualDeviceSet = ''IClientVirtualDeviceSet''"

definition midl_CLSID_MSSQL_ServerVirtualDeviceSet :: string where
  "midl_CLSID_MSSQL_ServerVirtualDeviceSet = ''IServerVirtualDeviceSet''"

text \<open>The interfaces in the order of their forward declarations.\<close>

definition midl_forward_declarations :: "string list" where
  "midl_forward_declarations = [''IClientVirtualDevice'', ''IClientVirtualDeviceSet'', ''IClientVirtualDeviceSet2'',
     ''IServerVirtualDevice'', ''IServerVirtualDeviceSet'', ''IServerVirtualDeviceSet2'']"

section \<open>IClientVirtualDevice\<close>

definition midl_IClientVirtualDevice :: com_interface where
  "midl_IClientVirtualDevice = \<lparr>uuid = ''40700424-0080-11d2-851f-00c04fc21759'', base = ''IUnknown'', methods = [
     Method HRESULT ''GetCommand'' [(DWORD, ''dwTimeOut''), (Ptr (Ptr VDC_Command_t), ''ppCmd'')],
     Method HRESULT ''CompleteCommand'' [(Ptr VDC_Command_t, ''pCmd''), (DWORD, ''dwCompletionCode''),
       (DWORD, ''dwBytesTransferred''), (DWORDLONG, ''dwlPosition'')]]\<rparr>"

definition midl_IClientVirtualDeviceVtbl :: "vmethod list" where
  "midl_IClientVirtualDeviceVtbl = [
     Method HRESULT ''QueryInterface'' [this ''IClientVirtualDevice'', (REFIID, ''riid''),
       (Ptr (Ptr VOID), ''ppvObject'')],
     Method ULONG ''AddRef'' [this ''IClientVirtualDevice''],
     Method ULONG ''Release'' [this ''IClientVirtualDevice''],
     Method HRESULT ''GetCommand'' [this ''IClientVirtualDevice'', (DWORD, ''dwTimeOut''),
       (Ptr (Ptr VDC_Command_t), ''ppCmd'')],
     Method HRESULT ''CompleteCommand'' [this ''IClientVirtualDevice'', (Ptr VDC_Command_t, ''pCmd''),
       (DWORD, ''dwCompletionCode''), (DWORD, ''dwBytesTransferred''), (DWORDLONG, ''dwlPosition'')]]"

definition midl_IClientVirtualDevice_macros :: "c_macro list" where
  "midl_IClientVirtualDevice_macros = [
     Macro ''IClientVirtualDevice_QueryInterface'' [''This'', ''riid'', ''ppvObject'']
       ''QueryInterface'' [''This'', ''riid'', ''ppvObject''],
     Macro ''IClientVirtualDevice_AddRef'' [''This''] ''AddRef'' [''This''],
     Macro ''IClientVirtualDevice_Release'' [''This''] ''Release'' [''This''],
     Macro ''IClientVirtualDevice_GetCommand'' [''This'', ''dwTimeOut'', ''ppCmd'']
       ''GetCommand'' [''This'', ''dwTimeOut'', ''ppCmd''],
     Macro ''IClientVirtualDevice_CompleteCommand'' [''This'', ''pCmd'', ''dwCompletionCode'',
       ''dwBytesTransferred'', ''dwlPosition''] ''CompleteCommand'' [''This'', ''pCmd'',
       ''dwCompletionCode'', ''dwBytesTransferred'', ''dwlPosition'']]"

definition midl_IClientVirtualDevice_prototypes :: "vmethod list" where
  "midl_IClientVirtualDevice_prototypes = [
     Method HRESULT ''IClientVirtualDevice_GetCommand_Proxy'' [this ''IClientVirtualDevice'', (DWORD,
       ''dwTimeOut''), (Ptr (Ptr VDC_Command_t), ''ppCmd'')],
     Method VOID ''IClientVirtualDevice_GetCommand_Stub'' stub_params,
     Method HRESULT ''IClientVirtualDevice_CompleteCommand_Proxy'' [this ''IClientVirtualDevice'',
       (Ptr VDC_Command_t, ''pCmd''), (DWORD, ''dwCompletionCode''), (DWORD, ''dwBytesTransferred''),
       (DWORDLONG, ''dwlPosition'')],
     Method VOID ''IClientVirtualDevice_CompleteCommand_Stub'' stub_params]"

section \<open>IClientVirtualDeviceSet\<close>

definition midl_IClientVirtualDeviceSet :: com_interface where
  "midl_IClientVirtualDeviceSet = \<lparr>uuid = ''40700425-0080-11d2-851f-00c04fc21759'', base = ''IUnknown'', methods = [
     Method HRESULT ''Create'' [(LPCWSTR, ''lpName''), (Ptr VDConfig_t, ''pCfg'')],
     Method HRESULT ''GetConfiguration'' [(DWORD, ''dwTimeOut''), (Ptr VDConfig_t, ''pCfg'')],
     Method HRESULT ''OpenDevice'' [(LPCWSTR, ''lpName''),
       (Ptr (Ptr (Interface ''IClientVirtualDevice'')), ''ppVirtualDevice'')],
     Method HRESULT ''Close'' [],
     Method HRESULT ''SignalAbort'' [],
     Method HRESULT ''OpenInSecondary'' [(LPCWSTR, ''lpSetName'')],
     Method HRESULT ''GetBufferHandle'' [(Ptr BYTE, ''pBuffer''), (Ptr DWORD, ''pBufferHandle'')],
     Method HRESULT ''MapBufferHandle'' [(DWORD, ''dwBuffer''), (Ptr (Ptr BYTE), ''ppBuffer'')]]\<rparr>"

definition midl_IClientVirtualDeviceSetVtbl :: "vmethod list" where
  "midl_IClientVirtualDeviceSetVtbl = [
     Method HRESULT ''QueryInterface'' [this ''IClientVirtualDeviceSet'', (REFIID, ''riid''),
       (Ptr (Ptr VOID), ''ppvObject'')],
     Method ULONG ''AddRef'' [this ''IClientVirtualDeviceSet''],
     Method ULONG ''Release'' [this ''IClientVirtualDeviceSet''],
     Method HRESULT ''Create'' [this ''IClientVirtualDeviceSet'', (LPCWSTR, ''lpName''), (Ptr VDConfig_t,
       ''pCfg'')],
     Method HRESULT ''GetConfiguration'' [this ''IClientVirtualDeviceSet'', (DWORD, ''dwTimeOut''),
       (Ptr VDConfig_t, ''pCfg'')],
     Method HRESULT ''OpenDevice'' [this ''IClientVirtualDeviceSet'', (LPCWSTR, ''lpName''),
       (Ptr (Ptr (Interface ''IClientVirtualDevice'')), ''ppVirtualDevice'')],
     Method HRESULT ''Close'' [this ''IClientVirtualDeviceSet''],
     Method HRESULT ''SignalAbort'' [this ''IClientVirtualDeviceSet''],
     Method HRESULT ''OpenInSecondary'' [this ''IClientVirtualDeviceSet'', (LPCWSTR, ''lpSetName'')],
     Method HRESULT ''GetBufferHandle'' [this ''IClientVirtualDeviceSet'', (Ptr BYTE, ''pBuffer''),
       (Ptr DWORD, ''pBufferHandle'')],
     Method HRESULT ''MapBufferHandle'' [this ''IClientVirtualDeviceSet'', (DWORD, ''dwBuffer''),
       (Ptr (Ptr BYTE), ''ppBuffer'')]]"

definition midl_IClientVirtualDeviceSet_macros :: "c_macro list" where
  "midl_IClientVirtualDeviceSet_macros = [
     Macro ''IClientVirtualDeviceSet_QueryInterface'' [''This'', ''riid'', ''ppvObject'']
       ''QueryInterface'' [''This'', ''riid'', ''ppvObject''],
     Macro ''IClientVirtualDeviceSet_AddRef'' [''This''] ''AddRef'' [''This''],
     Macro ''IClientVirtualDeviceSet_Release'' [''This''] ''Release'' [''This''],
     Macro ''IClientVirtualDeviceSet_Create'' [''This'', ''lpName'', ''pCfg''] ''Create'' [''This'',
       ''lpName'', ''pCfg''],
     Macro ''IClientVirtualDeviceSet_GetConfiguration'' [''This'', ''dwTimeOut'', ''pCfg'']
       ''GetConfiguration'' [''This'', ''dwTimeOut'', ''pCfg''],
     Macro ''IClientVirtualDeviceSet_OpenDevice'' [''This'', ''lpName'', ''ppVirtualDevice'']
       ''OpenDevice'' [''This'', ''lpName'', ''ppVirtualDevice''],
     Macro ''IClientVirtualDeviceSet_Close'' [''This''] ''Close'' [''This''],
     Macro ''IClientVirtualDeviceSet_SignalAbort'' [''This''] ''SignalAbort'' [''This''],
     Macro ''IClientVirtualDeviceSet_OpenInSecondary'' [''This'', ''lpSetName'']
       ''OpenInSecondary'' [''This'', ''lpSetName''],
     Macro ''IClientVirtualDeviceSet_GetBufferHandle'' [''This'', ''pBuffer'', ''pBufferHandle'']
       ''GetBufferHandle'' [''This'', ''pBuffer'', ''pBufferHandle''],
     Macro ''IClientVirtualDeviceSet_MapBufferHandle'' [''This'', ''dwBuffer'', ''ppBuffer'']
       ''MapBufferHandle'' [''This'', ''dwBuffer'', ''ppBuffer'']]"

definition midl_IClientVirtualDeviceSet_prototypes :: "vmethod list" where
  "midl_IClientVirtualDeviceSet_prototypes = [
     Method HRESULT ''IClientVirtualDeviceSet_Create_Proxy'' [this ''IClientVirtualDeviceSet'', (LPCWSTR,
       ''lpName''), (Ptr VDConfig_t, ''pCfg'')],
     Method VOID ''IClientVirtualDeviceSet_Create_Stub'' stub_params,
     Method HRESULT ''IClientVirtualDeviceSet_GetConfiguration_Proxy'' [this ''IClientVirtualDeviceSet'',
       (DWORD, ''dwTimeOut''), (Ptr VDConfig_t, ''pCfg'')],
     Method VOID ''IClientVirtualDeviceSet_GetConfiguration_Stub'' stub_params,
     Method HRESULT ''IClientVirtualDeviceSet_OpenDevice_Proxy'' [this ''IClientVirtualDeviceSet'',
       (LPCWSTR, ''lpName''), (Ptr (Ptr (Interface ''IClientVirtualDevice'')), ''ppVirtualDevice'')],
     Method VOID ''IClientVirtualDeviceSet_OpenDevice_Stub'' stub_params,
     Method HRESULT ''IClientVirtualDeviceSet_Close_Proxy'' [this ''IClientVirtualDeviceSet''],
     Method VOID ''IClientVirtualDeviceSet_Close_Stub'' stub_params,
     Method HRESULT ''IClientVirtualDeviceSet_SignalAbort_Proxy'' [this ''IClientVirtualDeviceSet''],
     Method VOID ''IClientVirtualDeviceSet_SignalAbort_Stub'' stub_params,
     Method HRESULT ''IClientVirtualDeviceSet_OpenInSecondary_Proxy'' [this ''IClientVirtualDeviceSet'',
       (LPCWSTR, ''lpSetName'')],
     Method VOID ''IClientVirtualDeviceSet_OpenInSecondary_Stub'' stub_params,
     Method HRESULT ''IClientVirtualDeviceSet_GetBufferHandle_Proxy'' [this ''IClientVirtualDeviceSet'',
       (Ptr BYTE, ''pBuffer''), (Ptr DWORD, ''pBufferHandle'')],
     Method VOID ''IClientVirtualDeviceSet_GetBufferHandle_Stub'' stub_params,
     Method HRESULT ''IClientVirtualDeviceSet_MapBufferHandle_Proxy'' [this ''IClientVirtualDeviceSet'',
       (DWORD, ''dwBuffer''), (Ptr (Ptr BYTE), ''ppBuffer'')],
     Method VOID ''IClientVirtualDeviceSet_MapBufferHandle_Stub'' stub_params]"

section \<open>IClientVirtualDeviceSet2\<close>

definition midl_IClientVirtualDeviceSet2 :: com_interface where
  "midl_IClientVirtualDeviceSet2 = \<lparr>uuid = ''d0e6eb07-7a62-11d2-8573-00c04fc21759'', base = ''IClientVirtualDeviceSet'', methods = [
     Method HRESULT ''CreateEx'' [(LPCWSTR, ''lpInstanceName''), (LPCWSTR, ''lpName''), (Ptr VDConfig_t,
       ''pCfg'')],
     Method HRESULT ''OpenInSecondaryEx'' [(LPCWSTR, ''lpInstanceName''), (LPCWSTR, ''lpSetName'')]]\<rparr>"

definition midl_IClientVirtualDeviceSet2Vtbl :: "vmethod list" where
  "midl_IClientVirtualDeviceSet2Vtbl = [
     Method HRESULT ''QueryInterface'' [this ''IClientVirtualDeviceSet2'', (REFIID, ''riid''),
       (Ptr (Ptr VOID), ''ppvObject'')],
     Method ULONG ''AddRef'' [this ''IClientVirtualDeviceSet2''],
     Method ULONG ''Release'' [this ''IClientVirtualDeviceSet2''],
     Method HRESULT ''Create'' [this ''IClientVirtualDeviceSet2'', (LPCWSTR, ''lpName''),
       (Ptr VDConfig_t, ''pCfg'')],
     Method HRESULT ''GetConfiguration'' [this ''IClientVirtualDeviceSet2'', (DWORD, ''dwTimeOut''),
       (Ptr VDConfig_t, ''pCfg'')],
     Method HRESULT ''OpenDevice'' [this ''IClientVirtualDeviceSet2'', (LPCWSTR, ''lpName''),
       (Ptr (Ptr (Interface ''IClientVirtualDevice'')), ''ppVirtualDevice'')],
     Method HRESULT ''Close'' [this ''IClientVirtualDeviceSet2''],
     Method HRESULT ''SignalAbort'' [this ''IClientVirtualDeviceSet2''],
     Method HRESULT ''OpenInSecondary'' [this ''IClientVirtualDeviceSet2'', (LPCWSTR, ''lpSetName'')],
     Method HRESULT ''GetBufferHandle'' [this ''IClientVirtualDeviceSet2'', (Ptr BYTE, ''pBuffer''),
       (Ptr DWORD, ''pBufferHandle'')],
     Method HRESULT ''MapBufferHandle'' [this ''IClientVirtualDeviceSet2'', (DWORD, ''dwBuffer''),
       (Ptr (Ptr BYTE), ''ppBuffer'')],
     Method HRESULT ''CreateEx'' [this ''IClientVirtualDeviceSet2'', (LPCWSTR, ''lpInstanceName''),
       (LPCWSTR, ''lpName''), (Ptr VDConfig_t, ''pCfg'')],
     Method HRESULT ''OpenInSecondaryEx'' [this ''IClientVirtualDeviceSet2'', (LPCWSTR,
       ''lpInstanceName''), (LPCWSTR, ''lpSetName'')]]"

definition midl_IClientVirtualDeviceSet2_macros :: "c_macro list" where
  "midl_IClientVirtualDeviceSet2_macros = [
     Macro ''IClientVirtualDeviceSet2_QueryInterface'' [''This'', ''riid'', ''ppvObject'']
       ''QueryInterface'' [''This'', ''riid'', ''ppvObject''],
     Macro ''IClientVirtualDeviceSet2_AddRef'' [''This''] ''AddRef'' [''This''],
     Macro ''IClientVirtualDeviceSet2_Release'' [''This''] ''Release'' [''This''],
     Macro ''IClientVirtualDeviceSet2_Create'' [''This'', ''lpName'', ''pCfg''] ''Create'' [''This'',
       ''lpName'', ''pCfg''],
     Macro ''IClientVirtualDeviceSet2_GetConfiguration'' [''This'', ''dwTimeOut'', ''pCfg'']
       ''GetConfiguration'' [''This'', ''dwTimeOut'', ''pCfg''],
     Macro ''IClientVirtualDeviceSet2_OpenDevice'' [''This'', ''lpName'', ''ppVirtualDevice'']
       ''OpenDevice'' [''This'', ''lpName'', ''ppVirtualDevice''],
     Macro ''IClientVirtualDeviceSet2_Close'' [''This''] ''Close'' [''This''],
     Macro ''IClientVirtualDeviceSet2_SignalAbort'' [''This''] ''SignalAbort'' [''This''],
     Macro ''IClientVirtualDeviceSet2_OpenInSecondary'' [''This'', ''lpSetName'']
       ''OpenInSecondary'' [''This'', ''lpSetName''],
     Macro ''IClientVirtualDeviceSet2_GetBufferHandle'' [''This'', ''pBuffer'', ''pBufferHandle'']
       ''GetBufferHandle'' [''This'', ''pBuffer'', ''pBufferHandle''],
     Macro ''IClientVirtualDeviceSet2_MapBufferHandle'' [''This'', ''dwBuffer'', ''ppBuffer'']
       ''MapBufferHandle'' [''This'', ''dwBuffer'', ''ppBuffer''],
     Macro ''IClientVirtualDeviceSet2_CreateEx'' [''This'', ''lpInstanceName'', ''lpName'', ''pCfg'']
       ''CreateEx'' [''This'', ''lpInstanceName'', ''lpName'', ''pCfg''],
     Macro ''IClientVirtualDeviceSet2_OpenInSecondaryEx'' [''This'', ''lpInstanceName'', ''lpSetName'']
       ''OpenInSecondaryEx'' [''This'', ''lpInstanceName'', ''lpSetName'']]"

definition midl_IClientVirtualDeviceSet2_prototypes :: "vmethod list" where
  "midl_IClientVirtualDeviceSet2_prototypes = [
     Method HRESULT ''IClientVirtualDeviceSet2_CreateEx_Proxy'' [this ''IClientVirtualDeviceSet2'',
       (LPCWSTR, ''lpInstanceName''), (LPCWSTR, ''lpName''), (Ptr VDConfig_t, ''pCfg'')],
     Method VOID ''IClientVirtualDeviceSet2_CreateEx_Stub'' stub_params,
     Method HRESULT ''IClientVirtualDeviceSet2_OpenInSecondaryEx_Proxy'' [this ''IClientVirtualDeviceSet2'',
       (LPCWSTR, ''lpInstanceName''), (LPCWSTR, ''lpSetName'')],
     Method VOID ''IClientVirtualDeviceSet2_OpenInSecondaryEx_Stub'' stub_params]"

text \<open>The command of the server side: a structure of its own, declared between the two halves.\<close>

definition midl_VDS_Command :: "(c_type \<times> string) list" where
  "midl_VDS_Command = [(DWORD, ''commandCode''), (DWORD, ''size''), (DWORDLONG, ''inPosition''),
     (DWORDLONG, ''outPosition''), (Ptr BYTE, ''buffer''), (Ptr BYTE, ''completionRoutine''),
     (Ptr BYTE, ''completionContext''), (DWORD, ''completionCode''), (DWORD, ''bytesTransferred'')]"

section \<open>IServerVirtualDevice\<close>

definition midl_IServerVirtualDevice :: com_interface where
  "midl_IServerVirtualDevice = \<lparr>uuid = ''b5e7a131-a7bd-11d1-84c2-00c04fc21759'', base = ''IUnknown'', methods = [
     Method HRESULT ''SendCommand'' [(Ptr VDS_Command_t, ''pCmd'')],
     Method HRESULT ''CloseDevice'' []]\<rparr>"

definition midl_IServerVirtualDeviceVtbl :: "vmethod list" where
  "midl_IServerVirtualDeviceVtbl = [
     Method HRESULT ''QueryInterface'' [this ''IServerVirtualDevice'', (REFIID, ''riid''),
       (Ptr (Ptr VOID), ''ppvObject'')],
     Method ULONG ''AddRef'' [this ''IServerVirtualDevice''],
     Method ULONG ''Release'' [this ''IServerVirtualDevice''],
     Method HRESULT ''SendCommand'' [this ''IServerVirtualDevice'', (Ptr VDS_Command_t, ''pCmd'')],
     Method HRESULT ''CloseDevice'' [this ''IServerVirtualDevice'']]"

definition midl_IServerVirtualDevice_macros :: "c_macro list" where
  "midl_IServerVirtualDevice_macros = [
     Macro ''IServerVirtualDevice_QueryInterface'' [''This'', ''riid'', ''ppvObject'']
       ''QueryInterface'' [''This'', ''riid'', ''ppvObject''],
     Macro ''IServerVirtualDevice_AddRef'' [''This''] ''AddRef'' [''This''],
     Macro ''IServerVirtualDevice_Release'' [''This''] ''Release'' [''This''],
     Macro ''IServerVirtualDevice_SendCommand'' [''This'', ''pCmd''] ''SendCommand'' [''This'', ''pCmd''],
     Macro ''IServerVirtualDevice_CloseDevice'' [''This''] ''CloseDevice'' [''This'']]"

definition midl_IServerVirtualDevice_prototypes :: "vmethod list" where
  "midl_IServerVirtualDevice_prototypes = [
     Method HRESULT ''IServerVirtualDevice_SendCommand_Proxy'' [this ''IServerVirtualDevice'',
       (Ptr VDS_Command_t, ''pCmd'')],
     Method VOID ''IServerVirtualDevice_SendCommand_Stub'' stub_params,
     Method HRESULT ''IServerVirtualDevice_CloseDevice_Proxy'' [this ''IServerVirtualDevice''],
     Method VOID ''IServerVirtualDevice_CloseDevice_Stub'' stub_params]"

section \<open>IServerVirtualDeviceSet\<close>

definition midl_IServerVirtualDeviceSet :: com_interface where
  "midl_IServerVirtualDeviceSet = \<lparr>uuid = ''b5e7a132-a7bd-11d1-84c2-00c04fc21759'', base = ''IUnknown'', methods = [
     Method HRESULT ''Open'' [(LPCWSTR, ''lpName'')],
     Method HRESULT ''GetConfiguration'' [(Ptr VDConfig_t, ''pCfg'')],
     Method HRESULT ''SetConfiguration'' [(Ptr VDConfig_t, ''pCfg'')],
     Method HRESULT ''ExecuteCompletionAgent'' [],
     Method HRESULT ''OpenDevice'' [(LPCWSTR, ''lpName''),
       (Ptr (Ptr (Interface ''IServerVirtualDevice'')), ''ppVirtualDevice'')],
     Method HRESULT ''AllocateBuffer'' [(Ptr (Ptr BYTE), ''ppBuffer''), (DWORD, ''dwSize''), (DWORD,
       ''dwAlignment'')],
     Method HRESULT ''FreeBuffer'' [(Ptr BYTE, ''pBuffer''), (DWORD, ''dwSize'')],
     Method HRESULT ''IsSharedBuffer'' [(Ptr BYTE, ''pBuffer'')],
     Method HRESULT ''SignalAbort'' [],
     Method HRESULT ''Close'' []]\<rparr>"

definition midl_IServerVirtualDeviceSetVtbl :: "vmethod list" where
  "midl_IServerVirtualDeviceSetVtbl = [
     Method HRESULT ''QueryInterface'' [this ''IServerVirtualDeviceSet'', (REFIID, ''riid''),
       (Ptr (Ptr VOID), ''ppvObject'')],
     Method ULONG ''AddRef'' [this ''IServerVirtualDeviceSet''],
     Method ULONG ''Release'' [this ''IServerVirtualDeviceSet''],
     Method HRESULT ''Open'' [this ''IServerVirtualDeviceSet'', (LPCWSTR, ''lpName'')],
     Method HRESULT ''GetConfiguration'' [this ''IServerVirtualDeviceSet'', (Ptr VDConfig_t, ''pCfg'')],
     Method HRESULT ''SetConfiguration'' [this ''IServerVirtualDeviceSet'', (Ptr VDConfig_t, ''pCfg'')],
     Method HRESULT ''ExecuteCompletionAgent'' [this ''IServerVirtualDeviceSet''],
     Method HRESULT ''OpenDevice'' [this ''IServerVirtualDeviceSet'', (LPCWSTR, ''lpName''),
       (Ptr (Ptr (Interface ''IServerVirtualDevice'')), ''ppVirtualDevice'')],
     Method HRESULT ''AllocateBuffer'' [this ''IServerVirtualDeviceSet'', (Ptr (Ptr BYTE), ''ppBuffer''),
       (DWORD, ''dwSize''), (DWORD, ''dwAlignment'')],
     Method HRESULT ''FreeBuffer'' [this ''IServerVirtualDeviceSet'', (Ptr BYTE, ''pBuffer''), (DWORD,
       ''dwSize'')],
     Method HRESULT ''IsSharedBuffer'' [this ''IServerVirtualDeviceSet'', (Ptr BYTE, ''pBuffer'')],
     Method HRESULT ''SignalAbort'' [this ''IServerVirtualDeviceSet''],
     Method HRESULT ''Close'' [this ''IServerVirtualDeviceSet'']]"

definition midl_IServerVirtualDeviceSet_macros :: "c_macro list" where
  "midl_IServerVirtualDeviceSet_macros = [
     Macro ''IServerVirtualDeviceSet_QueryInterface'' [''This'', ''riid'', ''ppvObject'']
       ''QueryInterface'' [''This'', ''riid'', ''ppvObject''],
     Macro ''IServerVirtualDeviceSet_AddRef'' [''This''] ''AddRef'' [''This''],
     Macro ''IServerVirtualDeviceSet_Release'' [''This''] ''Release'' [''This''],
     Macro ''IServerVirtualDeviceSet_Open'' [''This'', ''lpName''] ''Open'' [''This'', ''lpName''],
     Macro ''IServerVirtualDeviceSet_GetConfiguration'' [''This'', ''pCfg'']
       ''GetConfiguration'' [''This'', ''pCfg''],
     Macro ''IServerVirtualDeviceSet_SetConfiguration'' [''This'', ''pCfg'']
       ''SetConfiguration'' [''This'', ''pCfg''],
     Macro ''IServerVirtualDeviceSet_ExecuteCompletionAgent'' [''This'']
       ''ExecuteCompletionAgent'' [''This''],
     Macro ''IServerVirtualDeviceSet_OpenDevice'' [''This'', ''lpName'', ''ppVirtualDevice'']
       ''OpenDevice'' [''This'', ''lpName'', ''ppVirtualDevice''],
     Macro ''IServerVirtualDeviceSet_AllocateBuffer'' [''This'', ''ppBuffer'', ''dwSize'',
       ''dwAlignment''] ''AllocateBuffer'' [''This'', ''ppBuffer'', ''dwSize'', ''dwAlignment''],
     Macro ''IServerVirtualDeviceSet_FreeBuffer'' [''This'', ''pBuffer'', ''dwSize'']
       ''FreeBuffer'' [''This'', ''pBuffer'', ''dwSize''],
     Macro ''IServerVirtualDeviceSet_IsSharedBuffer'' [''This'', ''pBuffer'']
       ''IsSharedBuffer'' [''This'', ''pBuffer''],
     Macro ''IServerVirtualDeviceSet_SignalAbort'' [''This''] ''SignalAbort'' [''This''],
     Macro ''IServerVirtualDeviceSet_Close'' [''This''] ''Close'' [''This'']]"

definition midl_IServerVirtualDeviceSet_prototypes :: "vmethod list" where
  "midl_IServerVirtualDeviceSet_prototypes = [
     Method HRESULT ''IServerVirtualDeviceSet_Open_Proxy'' [this ''IServerVirtualDeviceSet'', (LPCWSTR,
       ''lpName'')],
     Method VOID ''IServerVirtualDeviceSet_Open_Stub'' stub_params,
     Method HRESULT ''IServerVirtualDeviceSet_GetConfiguration_Proxy'' [this ''IServerVirtualDeviceSet'',
       (Ptr VDConfig_t, ''pCfg'')],
     Method VOID ''IServerVirtualDeviceSet_GetConfiguration_Stub'' stub_params,
     Method HRESULT ''IServerVirtualDeviceSet_SetConfiguration_Proxy'' [this ''IServerVirtualDeviceSet'',
       (Ptr VDConfig_t, ''pCfg'')],
     Method VOID ''IServerVirtualDeviceSet_SetConfiguration_Stub'' stub_params,
     Method HRESULT ''IServerVirtualDeviceSet_ExecuteCompletionAgent_Proxy'' [this ''IServerVirtualDeviceSet''],
     Method VOID ''IServerVirtualDeviceSet_ExecuteCompletionAgent_Stub'' stub_params,
     Method HRESULT ''IServerVirtualDeviceSet_OpenDevice_Proxy'' [this ''IServerVirtualDeviceSet'',
       (LPCWSTR, ''lpName''), (Ptr (Ptr (Interface ''IServerVirtualDevice'')), ''ppVirtualDevice'')],
     Method VOID ''IServerVirtualDeviceSet_OpenDevice_Stub'' stub_params,
     Method HRESULT ''IServerVirtualDeviceSet_AllocateBuffer_Proxy'' [this ''IServerVirtualDeviceSet'',
       (Ptr (Ptr BYTE), ''ppBuffer''), (DWORD, ''dwSize''), (DWORD, ''dwAlignment'')],
     Method VOID ''IServerVirtualDeviceSet_AllocateBuffer_Stub'' stub_params,
     Method HRESULT ''IServerVirtualDeviceSet_FreeBuffer_Proxy'' [this ''IServerVirtualDeviceSet'',
       (Ptr BYTE, ''pBuffer''), (DWORD, ''dwSize'')],
     Method VOID ''IServerVirtualDeviceSet_FreeBuffer_Stub'' stub_params,
     Method HRESULT ''IServerVirtualDeviceSet_IsSharedBuffer_Proxy'' [this ''IServerVirtualDeviceSet'',
       (Ptr BYTE, ''pBuffer'')],
     Method VOID ''IServerVirtualDeviceSet_IsSharedBuffer_Stub'' stub_params,
     Method HRESULT ''IServerVirtualDeviceSet_SignalAbort_Proxy'' [this ''IServerVirtualDeviceSet''],
     Method VOID ''IServerVirtualDeviceSet_SignalAbort_Stub'' stub_params,
     Method HRESULT ''IServerVirtualDeviceSet_Close_Proxy'' [this ''IServerVirtualDeviceSet''],
     Method VOID ''IServerVirtualDeviceSet_Close_Stub'' stub_params]"

section \<open>IServerVirtualDeviceSet2\<close>

definition midl_IServerVirtualDeviceSet2 :: com_interface where
  "midl_IServerVirtualDeviceSet2 = \<lparr>uuid = ''AECBD0D6-24C6-11d3-85B7-00C04FC21759'', base = ''IUnknown'', methods = [
     Method HRESULT ''Open'' [(LPCWSTR, ''lpInstanceName''), (LPCWSTR, ''lpSetName'')],
     Method HRESULT ''GetConfiguration'' [(Ptr VDConfig_t, ''pCfg'')],
     Method HRESULT ''BeginConfiguration'' [(DWORD, ''dwFeatures''), (DWORD, ''dwBlockSize''), (DWORD,
       ''dwAlignment''), (DWORD, ''dwMaxTransferSize''), (DWORD, ''dwTimeout'')],
     Method HRESULT ''EndConfiguration'' [],
     Method HRESULT ''RequestBuffers'' [(DWORD, ''dwSize''), (DWORD, ''dwAlignment''), (DWORD,
       ''dwCount'')],
     Method HRESULT ''QueryAvailableBuffers'' [(DWORD, ''dwSize''), (DWORD, ''dwAlignment''), (Ptr DWORD,
       ''pCount'')],
     Method HRESULT ''ExecuteCompletionAgent'' [],
     Method HRESULT ''OpenDevice'' [(LPCWSTR, ''lpName''),
       (Ptr (Ptr (Interface ''IServerVirtualDevice'')), ''ppVirtualDevice'')],
     Method HRESULT ''AllocateBuffer'' [(Ptr (Ptr BYTE), ''ppBuffer''), (DWORD, ''dwSize''), (DWORD,
       ''dwAlignment'')],
     Method HRESULT ''FreeBuffer'' [(Ptr BYTE, ''pBuffer''), (DWORD, ''dwSize'')],
     Method HRESULT ''IsSharedBuffer'' [(Ptr BYTE, ''pBuffer'')],
     Method HRESULT ''SignalAbort'' [],
     Method HRESULT ''Close'' []]\<rparr>"

definition midl_IServerVirtualDeviceSet2Vtbl :: "vmethod list" where
  "midl_IServerVirtualDeviceSet2Vtbl = [
     Method HRESULT ''QueryInterface'' [this ''IServerVirtualDeviceSet2'', (REFIID, ''riid''),
       (Ptr (Ptr VOID), ''ppvObject'')],
     Method ULONG ''AddRef'' [this ''IServerVirtualDeviceSet2''],
     Method ULONG ''Release'' [this ''IServerVirtualDeviceSet2''],
     Method HRESULT ''Open'' [this ''IServerVirtualDeviceSet2'', (LPCWSTR, ''lpInstanceName''), (LPCWSTR,
       ''lpSetName'')],
     Method HRESULT ''GetConfiguration'' [this ''IServerVirtualDeviceSet2'', (Ptr VDConfig_t, ''pCfg'')],
     Method HRESULT ''BeginConfiguration'' [this ''IServerVirtualDeviceSet2'', (DWORD, ''dwFeatures''),
       (DWORD, ''dwBlockSize''), (DWORD, ''dwAlignment''), (DWORD, ''dwMaxTransferSize''), (DWORD,
       ''dwTimeout'')],
     Method HRESULT ''EndConfiguration'' [this ''IServerVirtualDeviceSet2''],
     Method HRESULT ''RequestBuffers'' [this ''IServerVirtualDeviceSet2'', (DWORD, ''dwSize''), (DWORD,
       ''dwAlignment''), (DWORD, ''dwCount'')],
     Method HRESULT ''QueryAvailableBuffers'' [this ''IServerVirtualDeviceSet2'', (DWORD, ''dwSize''),
       (DWORD, ''dwAlignment''), (Ptr DWORD, ''pCount'')],
     Method HRESULT ''ExecuteCompletionAgent'' [this ''IServerVirtualDeviceSet2''],
     Method HRESULT ''OpenDevice'' [this ''IServerVirtualDeviceSet2'', (LPCWSTR, ''lpName''),
       (Ptr (Ptr (Interface ''IServerVirtualDevice'')), ''ppVirtualDevice'')],
     Method HRESULT ''AllocateBuffer'' [this ''IServerVirtualDeviceSet2'', (Ptr (Ptr BYTE),
       ''ppBuffer''), (DWORD, ''dwSize''), (DWORD, ''dwAlignment'')],
     Method HRESULT ''FreeBuffer'' [this ''IServerVirtualDeviceSet2'', (Ptr BYTE, ''pBuffer''), (DWORD,
       ''dwSize'')],
     Method HRESULT ''IsSharedBuffer'' [this ''IServerVirtualDeviceSet2'', (Ptr BYTE, ''pBuffer'')],
     Method HRESULT ''SignalAbort'' [this ''IServerVirtualDeviceSet2''],
     Method HRESULT ''Close'' [this ''IServerVirtualDeviceSet2'']]"

definition midl_IServerVirtualDeviceSet2_macros :: "c_macro list" where
  "midl_IServerVirtualDeviceSet2_macros = [
     Macro ''IServerVirtualDeviceSet2_QueryInterface'' [''This'', ''riid'', ''ppvObject'']
       ''QueryInterface'' [''This'', ''riid'', ''ppvObject''],
     Macro ''IServerVirtualDeviceSet2_AddRef'' [''This''] ''AddRef'' [''This''],
     Macro ''IServerVirtualDeviceSet2_Release'' [''This''] ''Release'' [''This''],
     Macro ''IServerVirtualDeviceSet2_Open'' [''This'', ''lpInstanceName'', ''lpSetName'']
       ''Open'' [''This'', ''lpInstanceName'', ''lpSetName''],
     Macro ''IServerVirtualDeviceSet2_GetConfiguration'' [''This'', ''pCfg'']
       ''GetConfiguration'' [''This'', ''pCfg''],
     Macro ''IServerVirtualDeviceSet2_BeginConfiguration'' [''This'', ''dwFeatures'', ''dwBlockSize'',
       ''dwAlignment'', ''dwMaxTransferSize'', ''dwTimeout''] ''BeginConfiguration'' [''This'',
       ''dwFeatures'', ''dwBlockSize'', ''dwAlignment'', ''dwMaxTransferSize'', ''dwTimeout''],
     Macro ''IServerVirtualDeviceSet2_EndConfiguration'' [''This''] ''EndConfiguration'' [''This''],
     Macro ''IServerVirtualDeviceSet2_RequestBuffers'' [''This'', ''dwSize'', ''dwAlignment'',
       ''dwCount''] ''RequestBuffers'' [''This'', ''dwSize'', ''dwAlignment'', ''dwCount''],
     Macro ''IServerVirtualDeviceSet2_QueryAvailableBuffers'' [''This'', ''dwSize'', ''dwAlignment'',
       ''pCount''] ''QueryAvailableBuffers'' [''This'', ''dwSize'', ''dwAlignment'', ''pCount''],
     Macro ''IServerVirtualDeviceSet2_ExecuteCompletionAgent'' [''This'']
       ''ExecuteCompletionAgent'' [''This''],
     Macro ''IServerVirtualDeviceSet2_OpenDevice'' [''This'', ''lpName'', ''ppVirtualDevice'']
       ''OpenDevice'' [''This'', ''lpName'', ''ppVirtualDevice''],
     Macro ''IServerVirtualDeviceSet2_AllocateBuffer'' [''This'', ''ppBuffer'', ''dwSize'',
       ''dwAlignment''] ''AllocateBuffer'' [''This'', ''ppBuffer'', ''dwSize'', ''dwAlignment''],
     Macro ''IServerVirtualDeviceSet2_FreeBuffer'' [''This'', ''pBuffer'', ''dwSize'']
       ''FreeBuffer'' [''This'', ''pBuffer'', ''dwSize''],
     Macro ''IServerVirtualDeviceSet2_IsSharedBuffer'' [''This'', ''pBuffer'']
       ''IsSharedBuffer'' [''This'', ''pBuffer''],
     Macro ''IServerVirtualDeviceSet2_SignalAbort'' [''This''] ''SignalAbort'' [''This''],
     Macro ''IServerVirtualDeviceSet2_Close'' [''This''] ''Close'' [''This'']]"

definition midl_IServerVirtualDeviceSet2_prototypes_1 :: "vmethod list" where
  "midl_IServerVirtualDeviceSet2_prototypes_1 = [
     Method HRESULT ''IServerVirtualDeviceSet2_Open_Proxy'' [this ''IServerVirtualDeviceSet2'', (LPCWSTR,
       ''lpInstanceName''), (LPCWSTR, ''lpSetName'')],
     Method VOID ''IServerVirtualDeviceSet2_Open_Stub'' stub_params,
     Method HRESULT ''IServerVirtualDeviceSet2_GetConfiguration_Proxy'' [this ''IServerVirtualDeviceSet2'',
       (Ptr VDConfig_t, ''pCfg'')],
     Method VOID ''IServerVirtualDeviceSet2_GetConfiguration_Stub'' stub_params,
     Method HRESULT ''IServerVirtualDeviceSet2_BeginConfiguration_Proxy'' [this ''IServerVirtualDeviceSet2'',
       (DWORD, ''dwFeatures''), (DWORD, ''dwBlockSize''), (DWORD, ''dwAlignment''), (DWORD,
       ''dwMaxTransferSize''), (DWORD, ''dwTimeout'')],
     Method VOID ''IServerVirtualDeviceSet2_BeginConfiguration_Stub'' stub_params,
     Method HRESULT ''IServerVirtualDeviceSet2_EndConfiguration_Proxy'' [this ''IServerVirtualDeviceSet2''],
     Method VOID ''IServerVirtualDeviceSet2_EndConfiguration_Stub'' stub_params,
     Method HRESULT ''IServerVirtualDeviceSet2_RequestBuffers_Proxy'' [this ''IServerVirtualDeviceSet2'',
       (DWORD, ''dwSize''), (DWORD, ''dwAlignment''), (DWORD, ''dwCount'')],
     Method VOID ''IServerVirtualDeviceSet2_RequestBuffers_Stub'' stub_params,
     Method HRESULT ''IServerVirtualDeviceSet2_QueryAvailableBuffers_Proxy'' [this ''IServerVirtualDeviceSet2'',
       (DWORD, ''dwSize''), (DWORD, ''dwAlignment''), (Ptr DWORD, ''pCount'')],
     Method VOID ''IServerVirtualDeviceSet2_QueryAvailableBuffers_Stub'' stub_params,
     Method HRESULT ''IServerVirtualDeviceSet2_ExecuteCompletionAgent_Proxy'' [this ''IServerVirtualDeviceSet2''],
     Method VOID ''IServerVirtualDeviceSet2_ExecuteCompletionAgent_Stub'' stub_params,
     Method HRESULT ''IServerVirtualDeviceSet2_OpenDevice_Proxy'' [this ''IServerVirtualDeviceSet2'',
       (LPCWSTR, ''lpName''), (Ptr (Ptr (Interface ''IServerVirtualDevice'')), ''ppVirtualDevice'')],
     Method VOID ''IServerVirtualDeviceSet2_OpenDevice_Stub'' stub_params,
     Method HRESULT ''IServerVirtualDeviceSet2_AllocateBuffer_Proxy'' [this ''IServerVirtualDeviceSet2'',
       (Ptr (Ptr BYTE), ''ppBuffer''), (DWORD, ''dwSize''), (DWORD, ''dwAlignment'')],
     Method VOID ''IServerVirtualDeviceSet2_AllocateBuffer_Stub'' stub_params,
     Method HRESULT ''IServerVirtualDeviceSet2_FreeBuffer_Proxy'' [this ''IServerVirtualDeviceSet2'',
       (Ptr BYTE, ''pBuffer''), (DWORD, ''dwSize'')],
     Method VOID ''IServerVirtualDeviceSet2_FreeBuffer_Stub'' stub_params,
     Method HRESULT ''IServerVirtualDeviceSet2_IsSharedBuffer_Proxy'' [this ''IServerVirtualDeviceSet2'',
       (Ptr BYTE, ''pBuffer'')],
     Method VOID ''IServerVirtualDeviceSet2_IsSharedBuffer_Stub'' stub_params]"

definition midl_IServerVirtualDeviceSet2_prototypes_2 :: "vmethod list" where
  "midl_IServerVirtualDeviceSet2_prototypes_2 = [
     Method HRESULT ''IServerVirtualDeviceSet2_SignalAbort_Proxy'' [this ''IServerVirtualDeviceSet2''],
     Method VOID ''IServerVirtualDeviceSet2_SignalAbort_Stub'' stub_params,
     Method HRESULT ''IServerVirtualDeviceSet2_Close_Proxy'' [this ''IServerVirtualDeviceSet2''],
     Method VOID ''IServerVirtualDeviceSet2_Close_Stub'' stub_params]"

end
