(* ===== verification/Com_Abi.thy ===== *)
theory Com_Abi
  imports Vdi_Header
begin

text \<open>
  The interface declarations of \<open>include/sqlvdi.h\<close>, the class and interface identifiers of
  \<open>src/sqlvdi_guids.cpp\<close>, and what they mean in memory: a COM call goes through a slot of the
  object's table, a structure is read at offsets, a constant is a number. The objects are built
  by SQL Server from Microsoft's interface definition, so all of this has to be as in the header
  MIDL generated from it (theory \<open>Vdi_Header\<close>).
\<close>

section \<open>The declarations of sqlvdi.h\<close>

definition sqlvdi_IClientVirtualDevice :: com_interface where
  "sqlvdi_IClientVirtualDevice = \<lparr>uuid = ''40700424-0080-11d2-851f-00c04fc21759'', base = ''IUnknown'', methods = [
     Method HRESULT ''GetCommand'' [(DWORD, ''dwTimeOut''), (Ptr (Ptr VDC_Command_t), ''ppCmd'')],
     Method HRESULT ''CompleteCommand'' [(Ptr VDC_Command_t, ''pCmd''), (DWORD, ''dwCompletionCode''),
       (DWORD, ''dwBytesTransferred''), (DWORDLONG, ''dwlPosition'')]]\<rparr>"

definition sqlvdi_IClientVirtualDeviceSet :: com_interface where
  "sqlvdi_IClientVirtualDeviceSet = \<lparr>uuid = ''40700425-0080-11d2-851f-00c04fc21759'', base = ''IUnknown'', methods = [
     Method HRESULT ''Create'' [(LPCWSTR, ''lpName''), (Ptr VDConfig_t, ''pCfg'')],
     Method HRESULT ''GetConfiguration'' [(DWORD, ''dwTimeOut''), (Ptr VDConfig_t, ''pCfg'')],
     Method HRESULT ''OpenDevice'' [(LPCWSTR, ''lpName''),
       (Ptr (Ptr (Interface ''IClientVirtualDevice'')), ''ppVirtualDevice'')],
     Method HRESULT ''Close'' [],
     Method HRESULT ''SignalAbort'' [],
     Method HRESULT ''OpenInSecondary'' [(LPCWSTR, ''lpSetName'')],
     Method HRESULT ''GetBufferHandle'' [(Ptr BYTE, ''pBuffer''), (Ptr DWORD, ''pBufferHandle'')],
     Method HRESULT ''MapBufferHandle'' [(DWORD, ''dwBuffer''), (Ptr (Ptr BYTE), ''ppBuffer'')]]\<rparr>"

definition sqlvdi_IClientVirtualDeviceSet2 :: com_interface where
  "sqlvdi_IClientVirtualDeviceSet2 = \<lparr>uuid = ''d0e6eb07-7a62-11d2-8573-00c04fc21759'', base = ''IClientVirtualDeviceSet'', methods = [
     Method HRESULT ''CreateEx'' [(LPCWSTR, ''lpInstanceName''), (LPCWSTR, ''lpName''), (Ptr VDConfig_t,
       ''pCfg'')],
     Method HRESULT ''OpenInSecondaryEx'' [(LPCWSTR, ''lpInstanceName''), (LPCWSTR, ''lpSetName'')]]\<rparr>"

definition sqlvdi_VDConfig :: "(c_type \<times> string) list" where
  "sqlvdi_VDConfig = map (Pair DWORD) [''deviceCount'', ''features'', ''prefixZoneSize'', ''alignment'',
     ''softFileMarkBlockSize'', ''EOMWarningSize'', ''serverTimeOut'', ''blockSize'', ''maxIODepth'',
     ''maxTransferSize'', ''bufferAreaSize'']"

definition sqlvdi_VDC_Command :: "(c_type \<times> string) list" where
  "sqlvdi_VDC_Command = [(DWORD, ''commandCode''), (DWORD, ''size''), (DWORDLONG, ''position''),
     (Ptr BYTE, ''buffer'')]"

definition sqlvdi_features :: "(string \<times> c_expr) list" where
  "sqlvdi_features = [
     (''VDF_Removable'', Lit 0x1), (''VDF_Rewind'', Lit 0x2), (''VDF_Position'', Lit 0x10),
     (''VDF_SkipBlocks'', Lit 0x20), (''VDF_ReversePosition'', Lit 0x40), (''VDF_Discard'', Lit 0x80),
     (''VDF_FileMarks'', Lit 0x100), (''VDF_RandomAccess'', Lit 0x200), (''VDF_SnapshotPrepare'', Lit 0x400),
     (''VDF_EnumFrozenFiles'', Lit 0x800), (''VDF_VSSWriter'', Lit 0x1000), (''VDF_WriteMedia'', Lit 0x10000),
     (''VDF_ReadMedia'', Lit 0x20000), (''VDF_LatchStats'', Lit 0x80000000), (''VDF_LikePipe'', Lit 0),
     (''VDF_LikeTape'', Or (Or (Or (Or (Or (Name ''VDF_FileMarks'') (Name ''VDF_Removable''))
        (Name ''VDF_Rewind'')) (Name ''VDF_Position'')) (Name ''VDF_SkipBlocks'')) (Name ''VDF_ReversePosition'')),
     (''VDF_LikeDisk'', Name ''VDF_RandomAccess'')]"

definition sqlvdi_commands :: "(string \<times> c_expr) list" where
  "sqlvdi_commands = [
     (''VDC_Read'', Lit 1), (''VDC_Write'', Lit 2), (''VDC_ClearError'', Lit 3), (''VDC_Rewind'', Lit 4),
     (''VDC_WriteMark'', Lit 5), (''VDC_SkipMarks'', Lit 6), (''VDC_SkipBlocks'', Lit 7), (''VDC_Load'', Lit 8),
     (''VDC_GetPosition'', Lit 9), (''VDC_SetPosition'', Lit 10), (''VDC_Discard'', Lit 11), (''VDC_Flush'', Lit 12),
     (''VDC_Snapshot'', Lit 13), (''VDC_MountSnapshot'', Lit 14), (''VDC_PrepareToFreeze'', Lit 15),
     (''VDC_FileInfoBegin'', Lit 16), (''VDC_FileInfoEnd'', Lit 17)]"

text \<open>The identifiers \<open>DEFINE_GUID\<close> gives.\<close>

definition CLSID_MSSQL_ClientVirtualDeviceSet :: guid where
  "CLSID_MSSQL_ClientVirtualDeviceSet =
     Guid 0x40700425 0x0080 0x11d2 [0x85, 0x1f, 0x00, 0xc0, 0x4f, 0xc2, 0x17, 0x59]"

definition IID_IClientVirtualDeviceSet2 :: guid where
  "IID_IClientVirtualDeviceSet2 =
     Guid 0xd0e6eb07 0x7a62 0x11d2 [0x85, 0x73, 0x00, 0xc0, 0x4f, 0xc2, 0x17, 0x59]"

section \<open>The table of an interface\<close>

text \<open>The slots of the base interface come first; the fuel bounds the chain of bases.\<close>

fun slots :: "nat \<Rightarrow> (string \<times> com_interface) list \<Rightarrow> string \<Rightarrow> vmethod list" where
  "slots 0 env i = []"
| "slots (Suc n) env i =
     (if i = ''IUnknown'' then iunknown_slots
      else case map_of env i of None \<Rightarrow> [] | Some c \<Rightarrow> slots n env (base c) @ methods c)"

definition sqlvdi_interfaces :: "(string \<times> com_interface) list" where
  "sqlvdi_interfaces = [(''IClientVirtualDevice'', sqlvdi_IClientVirtualDevice),
     (''IClientVirtualDeviceSet'', sqlvdi_IClientVirtualDeviceSet),
     (''IClientVirtualDeviceSet2'', sqlvdi_IClientVirtualDeviceSet2)]"

definition midl_interfaces :: "(string \<times> com_interface) list" where
  "midl_interfaces = [(''IClientVirtualDevice'', midl_IClientVirtualDevice),
     (''IClientVirtualDeviceSet'', midl_IClientVirtualDeviceSet),
     (''IClientVirtualDeviceSet2'', midl_IClientVirtualDeviceSet2),
     (''IServerVirtualDevice'', midl_IServerVirtualDevice),
     (''IServerVirtualDeviceSet'', midl_IServerVirtualDeviceSet),
     (''IServerVirtualDeviceSet2'', midl_IServerVirtualDeviceSet2)]"

definition midl_tables :: "(string \<times> vmethod list) list" where
  "midl_tables = [(''IClientVirtualDevice'', midl_IClientVirtualDeviceVtbl),
     (''IClientVirtualDeviceSet'', midl_IClientVirtualDeviceSetVtbl),
     (''IClientVirtualDeviceSet2'', midl_IClientVirtualDeviceSet2Vtbl),
     (''IServerVirtualDevice'', midl_IServerVirtualDeviceVtbl),
     (''IServerVirtualDeviceSet'', midl_IServerVirtualDeviceSetVtbl),
     (''IServerVirtualDeviceSet2'', midl_IServerVirtualDeviceSet2Vtbl)]"

definition midl_macros :: "(string \<times> c_macro list) list" where
  "midl_macros = [(''IClientVirtualDevice'', midl_IClientVirtualDevice_macros),
     (''IClientVirtualDeviceSet'', midl_IClientVirtualDeviceSet_macros),
     (''IClientVirtualDeviceSet2'', midl_IClientVirtualDeviceSet2_macros),
     (''IServerVirtualDevice'', midl_IServerVirtualDevice_macros),
     (''IServerVirtualDeviceSet'', midl_IServerVirtualDeviceSet_macros),
     (''IServerVirtualDeviceSet2'', midl_IServerVirtualDeviceSet2_macros)]"

definition midl_prototypes :: "(string \<times> vmethod list) list" where
  "midl_prototypes = [(''IClientVirtualDevice'', midl_IClientVirtualDevice_prototypes),
     (''IClientVirtualDeviceSet'', midl_IClientVirtualDeviceSet_prototypes),
     (''IClientVirtualDeviceSet2'', midl_IClientVirtualDeviceSet2_prototypes),
     (''IServerVirtualDevice'', midl_IServerVirtualDevice_prototypes),
     (''IServerVirtualDeviceSet'', midl_IServerVirtualDeviceSet_prototypes),
     (''IServerVirtualDeviceSet2'',
        midl_IServerVirtualDeviceSet2_prototypes_1 @ midl_IServerVirtualDeviceSet2_prototypes_2)]"

text \<open>A slot as the C structure declares it: the object pointer is an explicit first parameter.\<close>

fun c_slot :: "string \<Rightarrow> vmethod \<Rightarrow> vmethod" where
  "c_slot i (Method r n ps) = Method r n (this i # ps)"

text \<open>The index of a method in a table.\<close>

fun slot_index :: "vmethod list \<Rightarrow> string \<Rightarrow> nat option" where
  "slot_index [] n = None"
| "slot_index (m # ms) n = (if method_name m = n then Some 0 else map_option Suc (slot_index ms n))"

text \<open>The calls of the client: on an interface, of a method.\<close>

definition client_calls :: "(string \<times> string) list" where
  "client_calls = [(''IClientVirtualDeviceSet2'', ''CreateEx''), (''IClientVirtualDeviceSet2'', ''GetConfiguration''),
     (''IClientVirtualDeviceSet2'', ''OpenDevice''), (''IClientVirtualDeviceSet2'', ''Close''),
     (''IClientVirtualDeviceSet2'', ''Release''), (''IClientVirtualDevice'', ''GetCommand''),
     (''IClientVirtualDevice'', ''CompleteCommand''), (''IClientVirtualDevice'', ''Release'')]"

section \<open>Structures in memory\<close>

text \<open>Sizes on x64; a field is aligned to its size, but to no more than the packing.\<close>

fun size_of :: "c_type \<Rightarrow> nat" where
  "size_of DWORD = 4" | "size_of ULONG = 4" | "size_of UNSIGNED_LONG = 4" | "size_of HRESULT = 4"
| "size_of DWORDLONG = 8" | "size_of BYTE = 1" | "size_of (Ptr _) = 8" | "size_of LPCWSTR = 8"
| "size_of REFIID = 8" | "size_of PRPC_MESSAGE = 8" | "size_of _ = 0"

definition align_up :: "nat \<Rightarrow> nat \<Rightarrow> nat" where
  "align_up n a = (n + a - 1) div a * a"

fun field_offsets :: "nat \<Rightarrow> nat \<Rightarrow> (c_type \<times> string) list \<Rightarrow> (string \<times> nat \<times> nat) list" where
  "field_offsets pack at [] = []"
| "field_offsets pack at ((t, n) # fs) =
     (let off = align_up at (min pack (size_of t)) in (n, off, size_of t) # field_offsets pack (off + size_of t) fs)"

lemma align_up_ge: "0 < a \<Longrightarrow> n \<le> align_up n a \<and> align_up n a mod a = 0"
proof -
  assume a: "0 < a"
  have "n + a - 1 = (n + a - 1) div a * a + (n + a - 1) mod a" by simp
  moreover have "(n + a - 1) mod a < a" using a by simp
  ultimately have "n \<le> (n + a - 1) div a * a" using a by linarith
  then show ?thesis by (simp add: align_up_def)
qed

text \<open>Any layout is sound: fields are aligned, and each ends before the next one starts.\<close>

lemma field_offsets_sound:
  assumes "0 < pack" "\<forall>(t, n)\<in>set fs. 0 < size_of t"
  shows "sorted_wrt (\<lambda>(_, o1, k1) (_, o2, _). o1 + k1 \<le> o2) (field_offsets pack at fs)
    \<and> (\<forall>(_, o1, k1)\<in>set (field_offsets pack at fs). at \<le> o1 \<and> o1 mod min pack k1 = 0)"
  using assms(2)
proof (induction fs arbitrary: at)
  case (Cons f fs)
  obtain t n where f: "f = (t, n)" by fastforce
  have "0 < min pack (size_of t)" using assms(1) Cons.prems f by simp
  note al = align_up_ge [OF this, of at]
  from Cons f have "sorted_wrt (\<lambda>(_, o1, k1) (_, o2, _). o1 + k1 \<le> o2) (field_offsets pack at' fs)
    \<and> (\<forall>(_, o1, k1)\<in>set (field_offsets pack at' fs). at' \<le> o1 \<and> o1 mod min pack k1 = 0)" for at'
    by simp
  from this [of "align_up at (min pack (size_of t)) + size_of t"] al show ?case
    by (fastforce simp: f Let_def)
qed simp

section \<open>Constants and identifiers\<close>

fun c_value :: "(string \<times> u32) list \<Rightarrow> c_expr \<Rightarrow> u32 option" where
  "c_value env (Lit n) = Some n"
| "c_value env (Name x) = map_of env x"
| "c_value env (Or a b) = (case (c_value env a, c_value env b) of (Some x, Some y) \<Rightarrow> Some (or x y) | _ \<Rightarrow> None)"
| "c_value env (Plus_1 a) = map_option (\<lambda>x. x + 1) (c_value env a)"

text \<open>The constants of a list of definitions, each in the scope of those before it.\<close>

fun c_constants :: "(string \<times> u32) list \<Rightarrow> (string \<times> c_expr) list \<Rightarrow> (string \<times> u32) list option" where
  "c_constants env [] = Some env"
| "c_constants env ((x, e) # ds) =
     (case c_value env e of None \<Rightarrow> None | Some v \<Rightarrow> c_constants (env @ [(x, v)]) ds)"

text \<open>Reading the text of an identifier, in either case of letters.\<close>

definition hex_value :: "char \<Rightarrow> nat" where
  "hex_value c = (let n = of_char c in if n < 58 then n - 48 else if n < 71 then n - 55 else n - 87)"

definition hex_number :: "string \<Rightarrow> nat" where
  "hex_number s = foldl (\<lambda>n c. 16 * n + hex_value c) 0 s"

fun hex_bytes :: "string \<Rightarrow> u8 list" where
  "hex_bytes (a # b # s) = word_of_nat (hex_number [a, b]) # hex_bytes s"
| "hex_bytes _ = []"

definition guid_of_text :: "string \<Rightarrow> guid" where
  "guid_of_text s = (let h = filter (\<lambda>c. c \<noteq> CHR ''-'') s in
     Guid (word_of_nat (hex_number (take 8 h))) (word_of_nat (hex_number (take 4 (drop 8 h))))
       (word_of_nat (hex_number (take 4 (drop 12 h)))) (hex_bytes (drop 16 h)))"

section \<open>Properties\<close>

lemmas midl_defs = midl_IClientVirtualDevice_def midl_IClientVirtualDeviceVtbl_def midl_IClientVirtualDevice_macros_def
  midl_IClientVirtualDevice_prototypes_def
  midl_IClientVirtualDeviceSet_def midl_IClientVirtualDeviceSetVtbl_def midl_IClientVirtualDeviceSet_macros_def
  midl_IClientVirtualDeviceSet_prototypes_def
  midl_IClientVirtualDeviceSet2_def midl_IClientVirtualDeviceSet2Vtbl_def midl_IClientVirtualDeviceSet2_macros_def
  midl_IClientVirtualDeviceSet2_prototypes_def
  midl_IServerVirtualDevice_def midl_IServerVirtualDeviceVtbl_def midl_IServerVirtualDevice_macros_def
  midl_IServerVirtualDevice_prototypes_def
  midl_IServerVirtualDeviceSet_def midl_IServerVirtualDeviceSetVtbl_def midl_IServerVirtualDeviceSet_macros_def
  midl_IServerVirtualDeviceSet_prototypes_def
  midl_IServerVirtualDeviceSet2_def midl_IServerVirtualDeviceSet2Vtbl_def midl_IServerVirtualDeviceSet2_macros_def
  midl_IServerVirtualDeviceSet2_prototypes_1_def midl_IServerVirtualDeviceSet2_prototypes_2_def
  iunknown_slots_def

lemmas sqlvdi_defs = sqlvdi_IClientVirtualDevice_def sqlvdi_IClientVirtualDeviceSet_def
  sqlvdi_IClientVirtualDeviceSet2_def
lemmas guid_text_defs = guid_of_text_def hex_number_def hex_value_def Let_def
lemmas abi_tables = sqlvdi_interfaces_def midl_interfaces_def midl_tables_def midl_macros_def midl_prototypes_def

text \<open>
  C36. Calls reach the method they name. For each interface the client uses, the table the C++ compiler
  lays out from the declarations of \<open>sqlvdi.h\<close> is, slot by slot, with its parameter types and result, the
  table the MIDL header declares for the objects SQL Server hands out; the eight calls of the client
  go through the slots shown.
\<close>

theorem client_calls_reach_slots:
  "list_all (\<lambda>i. Some (map (c_slot i) (slots 3 sqlvdi_interfaces i)) = map_of midl_tables i)
     [''IClientVirtualDevice'', ''IClientVirtualDeviceSet'', ''IClientVirtualDeviceSet2'']
   \<and> map (\<lambda>(i, n). slot_index (slots 3 sqlvdi_interfaces i) n) client_calls =
     map Some [11, 4, 5, 6, 2, 3, 4, 2]"
proof
  show "list_all (\<lambda>i. Some (map (c_slot i) (slots 3 sqlvdi_interfaces i)) = map_of midl_tables i)
     [''IClientVirtualDevice'', ''IClientVirtualDeviceSet'', ''IClientVirtualDeviceSet2'']"
    by (simp add: abi_tables midl_defs sqlvdi_defs numeral_3_eq_3)
  show "map (\<lambda>(i, n). slot_index (slots 3 sqlvdi_interfaces i) n) client_calls = map Some [11, 4, 5, 6, 2, 3, 4, 2]"
    by (simp add: abi_tables client_calls_def iunknown_slots_def sqlvdi_defs numeral_3_eq_3)
qed

text \<open>
  C37. Data means the same on both sides. The structures of \<open>sqlvdi.h\<close> have every field at the offset
  the MIDL header gives it, whether the compiler packs to 8 or 16; the feature flags and the command
  codes have the same values, among them the five codes the client tells apart; and the two
  identifiers passed to CoCreateInstance are those of the header.
\<close>

theorem client_data_matches_midl:
  "field_offsets 8 0 sqlvdi_VDConfig = field_offsets 8 0 midl_VDConfig
   \<and> list_all (\<lambda>pack. field_offsets pack 0 sqlvdi_VDC_Command = field_offsets 8 0 midl_VDC_Command) [8, 16]
   \<and> c_constants [] sqlvdi_features = c_constants [] midl_VDFeatures
   \<and> c_constants [] sqlvdi_commands = c_constants [] midl_VDCommands
   \<and> map_option (\<lambda>env. map (map_of env) [''VDC_Read'', ''VDC_Write'', ''VDC_ClearError'', ''VDC_Flush''])
       (c_constants [] midl_VDCommands) = Some (map Some [VDC_Read, VDC_Write, VDC_ClearError, VDC_Flush])
   \<and> map_of midl_interfaces midl_CLSID_MSSQL_ClientVirtualDeviceSet = Some midl_IClientVirtualDeviceSet
   \<and> CLSID_MSSQL_ClientVirtualDeviceSet = guid_of_text (uuid midl_IClientVirtualDeviceSet)
   \<and> IID_IClientVirtualDeviceSet2 = guid_of_text (uuid midl_IClientVirtualDeviceSet2)"
proof (intro conjI)
  show "field_offsets 8 0 sqlvdi_VDConfig = field_offsets 8 0 midl_VDConfig"
    by (simp add: sqlvdi_VDConfig_def midl_VDConfig_def)
  show "list_all (\<lambda>pack. field_offsets pack 0 sqlvdi_VDC_Command = field_offsets 8 0 midl_VDC_Command) [8, 16]"
    by (simp add: sqlvdi_VDC_Command_def midl_VDC_Command_def Let_def align_up_def)
  show "c_constants [] sqlvdi_features = c_constants [] midl_VDFeatures"
    by (simp only: sqlvdi_features_def midl_VDFeatures_def)
  show "c_constants [] sqlvdi_commands = c_constants [] midl_VDCommands"
    by (simp add: sqlvdi_commands_def midl_VDCommands_def)
  show "map_option (\<lambda>env. map (map_of env) [''VDC_Read'', ''VDC_Write'', ''VDC_ClearError'', ''VDC_Flush''])
       (c_constants [] midl_VDCommands) = Some (map Some [VDC_Read, VDC_Write, VDC_ClearError, VDC_Flush])"
    by (simp add: midl_VDCommands_def VDC_defs)
  show "map_of midl_interfaces midl_CLSID_MSSQL_ClientVirtualDeviceSet = Some midl_IClientVirtualDeviceSet"
    by (simp add: midl_interfaces_def midl_CLSID_MSSQL_ClientVirtualDeviceSet_def)
  show "CLSID_MSSQL_ClientVirtualDeviceSet = guid_of_text (uuid midl_IClientVirtualDeviceSet)"
    by (simp add: CLSID_MSSQL_ClientVirtualDeviceSet_def midl_IClientVirtualDeviceSet_def guid_text_defs)
  show "IID_IClientVirtualDeviceSet2 = guid_of_text (uuid midl_IClientVirtualDeviceSet2)"
    by (simp add: IID_IClientVirtualDeviceSet2_def midl_IClientVirtualDeviceSet2_def guid_text_defs)
qed

text \<open>What the header should say about a slot: the macro that calls it, and its remote procedures.\<close>

fun macro_for :: "string \<Rightarrow> vmethod \<Rightarrow> c_macro" where
  "macro_for i (Method r n ps) =
     Macro (i @ ''_'' @ n) (map snd (this i # ps)) n (map snd (this i # ps))"

fun rpc_for :: "string \<Rightarrow> vmethod \<Rightarrow> vmethod list" where
  "rpc_for i (Method r n ps) = [Method r (i @ ''_'' @ n @ ''_Proxy'') (this i # ps),
     Method VOID (i @ ''_'' @ n @ ''_Stub'') stub_params]"

lemma midl_tables_match:
  "list_all (\<lambda>(i, _). map_of midl_tables i = Some (map (c_slot i) (slots 3 midl_interfaces i))) midl_interfaces"
  by (simp add: abi_tables midl_defs numeral_3_eq_3)

lemma midl_macros_match:
  "list_all (\<lambda>(i, _). map_of midl_macros i = Some (map (macro_for i) (slots 3 midl_interfaces i))) midl_interfaces"
  by (simp add: abi_tables midl_defs numeral_3_eq_3)

lemma midl_prototypes_match:
  "list_all (\<lambda>(i, c). map_of midl_prototypes i = Some (concat (map (rpc_for i) (methods c)))) midl_interfaces"
  by (simp add: abi_tables midl_defs numeral_3_eq_3)

lemma midl_uuids_distinct:
  "distinct (map snd midl_WINFS_class_ids @ map (\<lambda>(_, c). guid_of_text (uuid c)) midl_interfaces)"
  by (simp add: midl_WINFS_class_ids_def midl_interfaces_def midl_defs guid_text_defs)

text \<open>
  A check of the transcription: in the header as it is written down in theory \<open>Vdi_Header\<close>, for each of its six interfaces the C structure is the table
  of the C++ declaration, every macro passes its arguments in order to the slot it is named after,
  and every method the interface adds has a proxy with its signature and a stub. The interfaces are
  those declared ahead, their identifiers and those of the two classes are eight different ones, the
  server class is an interface of the header, and the three values of VDWhence are 0, 1 and 2.
\<close>

lemma midl_header_consistent:
  "list_all (\<lambda>(i, c). let table = slots 3 midl_interfaces i in
      map_of midl_tables i = Some (map (c_slot i) table) \<and>
      map_of midl_macros i = Some (map (macro_for i) table) \<and>
      map_of midl_prototypes i = Some (concat (map (rpc_for i) (methods c)))) midl_interfaces
   \<and> midl_forward_declarations = map fst midl_interfaces
   \<and> distinct (map snd midl_WINFS_class_ids @ map (\<lambda>(_, c). guid_of_text (uuid c)) midl_interfaces)
   \<and> map_of midl_interfaces midl_CLSID_MSSQL_ServerVirtualDeviceSet = Some midl_IServerVirtualDeviceSet
   \<and> c_constants [] midl_VDWhence = Some [(''VDC_Beginning'', 0), (''VDC_Current'', 1), (''VDC_End'', 2)]"
proof (intro conjI midl_uuids_distinct)
  show "list_all (\<lambda>(i, c). let table = slots 3 midl_interfaces i in
      map_of midl_tables i = Some (map (c_slot i) table) \<and>
      map_of midl_macros i = Some (map (macro_for i) table) \<and>
      map_of midl_prototypes i = Some (concat (map (rpc_for i) (methods c)))) midl_interfaces"
    using midl_tables_match midl_macros_match midl_prototypes_match
    by (simp only: list_all_iff Let_def split_beta) blast
qed (simp_all add: midl_forward_declarations_def midl_interfaces_def midl_CLSID_MSSQL_ServerVirtualDeviceSet_def
  midl_VDWhence_def)

end
