(* ===== verification/Metrics_Threads.thy ===== *)
theory Metrics_Threads
  imports Metrics
begin

text \<open>
  The counters of \<open>Metrics\<close> are atomics, and \<open>record_chunk_size\<close> updates its two extrema with
  compare-and-exchange loops so that threads may record at the same time. Here the recording
  methods of \<open>src/metrics.cpp\<close> are cut into their atomic operations, any number of calls run
  interleaved, and the counters are compared with those of the calls made one after the other.
\<close>

section \<open>Calls and their atomic operations\<close>

datatype recording =
    Add_Bytes u64
  | Record_Chunk_Size u64
  | Record_Buffer_Acquire bool
  | Record_Buffer_Release

fun run_call :: "recording \<Rightarrow> metrics \<Rightarrow> metrics" where
  "run_call (Add_Bytes n) m = add_bytes n m"
| "run_call (Record_Chunk_Size n) m = record_chunk_size [] [] n m"
| "run_call (Record_Buffer_Acquire ok) m = record_buffer_acquire ok m"
| "run_call Record_Buffer_Release m = record_buffer_release m"

text \<open>Where a call stands: before which atomic operation, with its local variables.\<close>

datatype pc =
    Total_Add u64
  | Count_Increment
  | Min_Load u64
  | Min_While u64 u64 \<comment> \<open>\<open>size\<close> and \<open>cur_min\<close>\<close>
  | Max_Load u64
  | Max_While u64 u64 \<comment> \<open>\<open>size\<close> and \<open>cur_max\<close>\<close>
  | Sum_Add u64
  | Acquire_Increment bool
  | Hit_Increment
  | Miss_Increment
  | Release_Increment

fun entry :: "recording \<Rightarrow> pc" where
  "entry (Add_Bytes n) = Total_Add n"
| "entry (Record_Chunk_Size n) = Min_Load n"
| "entry (Record_Buffer_Acquire ok) = Acquire_Increment ok"
| "entry Record_Buffer_Release = Release_Increment"

text \<open>
  One operation; \<open>sp\<close> lets a compare-and-exchange fail spuriously. The result None ends the call.
\<close>

fun atomic_op :: "bool \<Rightarrow> pc \<Rightarrow> metrics \<Rightarrow> metrics \<times> pc option" where
  "atomic_op sp (Total_Add n) m = (m\<lparr>m_total_bytes := m_total_bytes m + n\<rparr>, Some Count_Increment)"
| "atomic_op sp Count_Increment m = (m\<lparr>m_chunk_count := m_chunk_count m + 1\<rparr>, None)"
| "atomic_op sp (Min_Load n) m = (m, Some (Min_While n (m_min_chunk_size m)))"
| "atomic_op sp (Min_While n cur) m =
     (if n < cur
      then (if m_min_chunk_size m = cur \<and> \<not> sp
            then (m\<lparr>m_min_chunk_size := n\<rparr>, Some (Max_Load n))
            else (m, Some (Min_While n (m_min_chunk_size m))))
      else (m, Some (Max_Load n)))"
| "atomic_op sp (Max_Load n) m = (m, Some (Max_While n (m_max_chunk_size m)))"
| "atomic_op sp (Max_While n cur) m =
     (if cur < n
      then (if m_max_chunk_size m = cur \<and> \<not> sp
            then (m\<lparr>m_max_chunk_size := n\<rparr>, Some (Sum_Add n))
            else (m, Some (Max_While n (m_max_chunk_size m))))
      else (m, Some (Sum_Add n)))"
| "atomic_op sp (Sum_Add n) m = (m\<lparr>m_sum_chunk_sizes := m_sum_chunk_sizes m + n\<rparr>, None)"
| "atomic_op sp (Acquire_Increment ok) m =
     (m\<lparr>m_buffer_acquire_count := m_buffer_acquire_count m + 1\<rparr>,
      Some (if ok then Hit_Increment else Miss_Increment))"
| "atomic_op sp Hit_Increment m = (m\<lparr>m_buffer_pool_hits := m_buffer_pool_hits m + 1\<rparr>, None)"
| "atomic_op sp Miss_Increment m = (m\<lparr>m_buffer_pool_misses := m_buffer_pool_misses m + 1\<rparr>, None)"
| "atomic_op sp Release_Increment m = (m\<lparr>m_buffer_release_count := m_buffer_release_count m + 1\<rparr>, None)"

section \<open>Interleavings\<close>

text \<open>
  A state: the object, the calls under way, and the calls made so far. A step makes a call or runs
  one operation of a call under way; which one is not determined.
\<close>

type_synonym threads = "metrics \<times> pc multiset \<times> recording multiset"

definition next_pc :: "pc option \<Rightarrow> pc multiset" where
  "next_pc r = (case r of None \<Rightarrow> {#} | Some pc \<Rightarrow> {#pc#})"

lemma next_pc_simps [simp]: "next_pc None = {#}" "next_pc (Some pc) = {#pc#}"
  by (simp_all add: next_pc_def)

inductive metrics_run :: "metrics \<Rightarrow> threads \<Rightarrow> bool" for m0 where
  start: "metrics_run m0 (m0, {#}, {#})"
| make: "metrics_run m0 (m, R, cs) \<Longrightarrow> metrics_run m0 (m, add_mset (entry c) R, add_mset c cs)"
| oper: "metrics_run m0 (m, add_mset pc R, cs) \<Longrightarrow> atomic_op sp pc m = (m', r) \<Longrightarrow>
    metrics_run m0 (m', next_pc r + R, cs)"

section \<open>Counters that add up\<close>

text \<open>
  A counter whose every call gives it a fixed amount: what the calls under way still have to add,
  and what it holds, is together what all the calls give.
\<close>

locale adding_counter =
  fixes cell :: "metrics \<Rightarrow> u64" and owed :: "pc \<Rightarrow> u64" and given :: "recording \<Rightarrow> u64"
  assumes owed_entry: "owed (entry c) = given c"
    and owed_op: "atomic_op sp pc m = (m', r) \<Longrightarrow> cell m' + (\<Sum>p\<in>#next_pc r. owed p) = cell m + owed pc"
    and given_run: "cell (run_call c m) = cell m + given c"
begin

lemma counter_invariant:
  "metrics_run m0 (m, R, cs) \<Longrightarrow> cell m + (\<Sum>p\<in>#R. owed p) = cell m0 + (\<Sum>c\<in>#cs. given c)"
proof (induction "(m, R, cs)" arbitrary: m R cs rule: metrics_run.induct)
  case (make m R cs c)
  then show ?case by (simp add: owed_entry algebra_simps)
next
  case (oper m pc R cs sp m' r)
  have "cell m' + (\<Sum>p\<in>#next_pc r + R. owed p) = (cell m + owed pc) + (\<Sum>p\<in>#R. owed p)"
    using owed_op [OF oper(3)] by (simp add: add.assoc [symmetric])
  with oper(2) show ?case by (simp add: algebra_simps)
qed simp

lemma counter_sequential: "cell (fold run_call cs m) = cell m + (\<Sum>c\<in>#mset cs. given c)"
  by (induction cs arbitrary: m) (simp_all add: given_run algebra_simps)

lemma counter_exact: "metrics_run m0 (m, {#}, mset cs) \<Longrightarrow> cell m = cell (fold run_call cs m0)"
  by (drule counter_invariant) (simp add: counter_sequential)

end

text \<open>The seven counters of the class, and the amounts their calls give and still owe.\<close>

datatype counter = Total_Bytes | Chunk_Count | Sum_Sizes | Acquires | Hits | Misses | Releases

fun counter_value :: "counter \<Rightarrow> metrics \<Rightarrow> u64" where
  "counter_value Total_Bytes m = m_total_bytes m"
| "counter_value Chunk_Count m = m_chunk_count m"
| "counter_value Sum_Sizes m = m_sum_chunk_sizes m"
| "counter_value Acquires m = m_buffer_acquire_count m"
| "counter_value Hits m = m_buffer_pool_hits m"
| "counter_value Misses m = m_buffer_pool_misses m"
| "counter_value Releases m = m_buffer_release_count m"

fun call_gives :: "counter \<Rightarrow> recording \<Rightarrow> u64" where
  "call_gives k (Add_Bytes n) = (if k = Total_Bytes then n else if k = Chunk_Count then 1 else 0)"
| "call_gives k (Record_Chunk_Size n) = (if k = Sum_Sizes then n else 0)"
| "call_gives k (Record_Buffer_Acquire ok) =
     (if k = Acquires then 1 else if k = (if ok then Hits else Misses) then 1 else 0)"
| "call_gives k Record_Buffer_Release = (if k = Releases then 1 else 0)"

fun pc_owes :: "counter \<Rightarrow> pc \<Rightarrow> u64" where
  "pc_owes k (Total_Add n) = (if k = Total_Bytes then n else if k = Chunk_Count then 1 else 0)"
| "pc_owes k Count_Increment = (if k = Chunk_Count then 1 else 0)"
| "pc_owes k (Min_Load n) = (if k = Sum_Sizes then n else 0)"
| "pc_owes k (Min_While n cur) = (if k = Sum_Sizes then n else 0)"
| "pc_owes k (Max_Load n) = (if k = Sum_Sizes then n else 0)"
| "pc_owes k (Max_While n cur) = (if k = Sum_Sizes then n else 0)"
| "pc_owes k (Sum_Add n) = (if k = Sum_Sizes then n else 0)"
| "pc_owes k (Acquire_Increment ok) =
     (if k = Acquires then 1 else if k = (if ok then Hits else Misses) then 1 else 0)"
| "pc_owes k Hit_Increment = (if k = Hits then 1 else 0)"
| "pc_owes k Miss_Increment = (if k = Misses then 1 else 0)"
| "pc_owes k Release_Increment = (if k = Releases then 1 else 0)"

lemmas call_defs = add_bytes_def record_chunk_size_eq record_buffer_acquire_def
  record_buffer_release_def Let_def

interpretation counts: adding_counter "counter_value k" "pc_owes k" "call_gives k" for k
proof
  show "pc_owes k (entry c) = call_gives k c" for c by (cases c) simp_all
  show "counter_value k (run_call c m) = counter_value k m + call_gives k c" for c m
    by (cases c; cases k) (simp_all add: call_defs)
  fix sp pc m m' r
  assume "atomic_op sp pc m = (m', r)"
  then show "counter_value k m' + (\<Sum>p\<in>#next_pc r. pc_owes k p) = counter_value k m + pc_owes k pc"
    by (cases pc; cases k) (auto split: if_splits)
qed

section \<open>The two extrema\<close>

text \<open>
  \<open>better x y\<close>: x is at least as extreme as y. A bound of the cell and of the sizes the calls under
  way may still store in it is a bound of all the sizes; a local copy of the cell is never more
  extreme than the cell is by then (\<open>current\<close>), so a loop that ends has nothing left to store.
\<close>

locale extremum_cell =
  fixes better :: "u64 \<Rightarrow> u64 \<Rightarrow> bool" and cell :: "metrics \<Rightarrow> u64"
    and pending :: "pc \<Rightarrow> u64 set" and given :: "recording \<Rightarrow> u64 set"
    and current :: "metrics \<Rightarrow> pc \<Rightarrow> bool"
  assumes better_refl: "better x x" and better_antisym: "better x y \<Longrightarrow> better y x \<Longrightarrow> x = y"
    and pending_entry: "pending (entry c) = given c" and current_entry: "current m (entry c)"
    and current_op: "atomic_op sp pc m = (m', r) \<Longrightarrow> current m pc \<Longrightarrow> p \<in># next_pc r \<Longrightarrow> current m' p"
    and current_keep: "atomic_op sp pc m = (m', r) \<Longrightarrow> current m pc \<Longrightarrow> current m p \<Longrightarrow> current m' p"
    and pending_op: "atomic_op sp pc m = (m', r) \<Longrightarrow> current m pc \<Longrightarrow>
      (better x (cell m') \<and> (\<forall>p\<in>#next_pc r. \<forall>y\<in>pending p. better x y)) \<longleftrightarrow>
      (better x (cell m) \<and> (\<forall>y\<in>pending pc. better x y))"
    and given_run: "better x (cell (run_call c m)) \<longleftrightarrow> better x (cell m) \<and> (\<forall>y\<in>given c. better x y)"
begin

lemma current_invariant: "metrics_run m0 (m, R, cs) \<Longrightarrow> p \<in># R \<Longrightarrow> current m p"
proof (induction "(m, R, cs)" arbitrary: m R cs p rule: metrics_run.induct)
  case (make m R cs c)
  then show ?case by (auto intro: current_entry)
next
  case (oper m pc R cs sp m' r)
  from oper(4) show ?case
    using oper(2) current_op [OF oper(3)] current_keep [OF oper(3)] by auto
qed simp

lemma extremum_invariant:
  "metrics_run m0 (m, R, cs) \<Longrightarrow>
     (better x (cell m) \<and> (\<forall>p\<in>#R. \<forall>y\<in>pending p. better x y)) \<longleftrightarrow>
     (better x (cell m0) \<and> (\<forall>c\<in>#cs. \<forall>y\<in>given c. better x y))"
proof (induction "(m, R, cs)" arbitrary: m R cs rule: metrics_run.induct)
  case (make m R cs c)
  then show ?case by (auto simp: pending_entry)
next
  case (oper m pc R cs sp m' r)
  have "current m pc" by (rule current_invariant [OF oper(1)]) simp
  from pending_op [OF oper(3) this, of x] oper(2) show ?case by auto
qed simp

lemma extremum_sequential:
  "better x (cell (fold run_call cs m)) \<longleftrightarrow> better x (cell m) \<and> (\<forall>c\<in>set cs. \<forall>y\<in>given c. better x y)"
  by (induction cs arbitrary: m) (auto simp: given_run)

lemma extremum_exact:
  assumes "metrics_run m0 (m, {#}, mset cs)"
  shows "cell m = cell (fold run_call cs m0)"
proof -
  have bound: "better x (cell m) \<longleftrightarrow> better x (cell (fold run_call cs m0))" for x
    using extremum_invariant [OF assms, of x] by (simp add: extremum_sequential)
  show ?thesis
    using bound [of "cell m"] bound [of "cell (fold run_call cs m0)"] by (simp add: better_refl better_antisym)
qed

end

fun sizes_given :: "recording \<Rightarrow> u64 set" where
  "sizes_given (Record_Chunk_Size n) = {n}"
| "sizes_given _ = {}"

fun min_pending :: "pc \<Rightarrow> u64 set" where
  "min_pending (Min_Load n) = {n}"
| "min_pending (Min_While n cur) = {n}"
| "min_pending _ = {}"

fun min_current :: "metrics \<Rightarrow> pc \<Rightarrow> bool" where
  "min_current m (Min_While n cur) \<longleftrightarrow> m_min_chunk_size m \<le> cur"
| "min_current m _ \<longleftrightarrow> True"

fun max_pending :: "pc \<Rightarrow> u64 set" where
  "max_pending (Min_Load n) = {n}"
| "max_pending (Min_While n cur) = {n}"
| "max_pending (Max_Load n) = {n}"
| "max_pending (Max_While n cur) = {n}"
| "max_pending _ = {}"

fun max_current :: "metrics \<Rightarrow> pc \<Rightarrow> bool" where
  "max_current m (Max_While n cur) \<longleftrightarrow> cur \<le> m_max_chunk_size m"
| "max_current m _ \<longleftrightarrow> True"

interpretation minimum: extremum_cell "(\<le>)" m_min_chunk_size min_pending sizes_given min_current
proof
  show "min_pending (entry c) = sizes_given c" "min_current m (entry c)" for c m by (cases c; simp)+
  show "x \<le> m_min_chunk_size (run_call c m) \<longleftrightarrow> x \<le> m_min_chunk_size m \<and> (\<forall>y\<in>sizes_given c. x \<le> y)"
    for x c m by (cases c) (auto simp: call_defs)
  fix sp pc m m' r p x
  assume op: "atomic_op sp pc m = (m', r)" "min_current m pc"
  show "p \<in># next_pc r \<Longrightarrow> min_current m' p" using op by (cases pc) (auto split: if_splits)
  show "min_current m p \<Longrightarrow> min_current m' p" using op by (cases pc; cases p) (auto split: if_splits)
  show "(x \<le> m_min_chunk_size m' \<and> (\<forall>p\<in>#next_pc r. \<forall>y\<in>min_pending p. x \<le> y)) \<longleftrightarrow>
      (x \<le> m_min_chunk_size m \<and> (\<forall>y\<in>min_pending pc. x \<le> y))"
    using op by (cases pc) (auto split: if_splits)
qed auto

interpretation maximum: extremum_cell "(\<ge>)" m_max_chunk_size max_pending sizes_given max_current
proof
  show "max_pending (entry c) = sizes_given c" "max_current m (entry c)" for c m by (cases c; simp)+
  show "m_max_chunk_size (run_call c m) \<le> x \<longleftrightarrow> m_max_chunk_size m \<le> x \<and> (\<forall>y\<in>sizes_given c. y \<le> x)"
    for x c m by (cases c) (auto simp: call_defs)
  fix sp pc m m' r p x
  assume op: "atomic_op sp pc m = (m', r)" "max_current m pc"
  show "p \<in># next_pc r \<Longrightarrow> max_current m' p" using op by (cases pc) (auto split: if_splits)
  show "max_current m p \<Longrightarrow> max_current m' p" using op by (cases pc; cases p) (auto split: if_splits)
  show "(m_max_chunk_size m' \<le> x \<and> (\<forall>p\<in>#next_pc r. \<forall>y\<in>max_pending p. y \<le> x)) \<longleftrightarrow>
      (m_max_chunk_size m \<le> x \<and> (\<forall>y\<in>max_pending pc. y \<le> x))"
    using op by (cases pc) (auto split: if_splits)
qed auto

section \<open>Any interleaving counts like the calls in sequence\<close>

text \<open>The parts of the object no recording call changes.\<close>

definition untouched_part :: "metrics \<Rightarrow> timer \<times> bool \<times> chunk_timing list \<times> i64" where
  "untouched_part m = (m_timer m, m_metrics_logging m, m_timings m, m_start_time m)"

lemma untouched_part_sequential: "untouched_part (fold run_call cs m) = untouched_part m"
proof (induction cs arbitrary: m)
  case (Cons c cs)
  then show ?case by (cases c) (simp_all add: untouched_part_def call_defs)
qed simp

lemma untouched_part_op: "atomic_op sp pc m = (m', r) \<Longrightarrow> untouched_part m' = untouched_part m"
  by (cases pc) (auto simp: untouched_part_def split: if_splits)

lemma untouched_part_run: "metrics_run m0 (m, R, cs) \<Longrightarrow> untouched_part m = untouched_part m0"
  by (induction "(m, R, cs)" arbitrary: m R cs rule: metrics_run.induct) (simp_all add: untouched_part_op)

lemma metrics_eqI:
  assumes "\<And>k. counter_value k m = counter_value k m'" "m_min_chunk_size m = m_min_chunk_size m'"
    "m_max_chunk_size m = m_max_chunk_size m'" "untouched_part m = untouched_part m'"
  shows "m = (m' :: metrics)"
  using assms(1) [of Total_Bytes] assms(1) [of Chunk_Count] assms(1) [of Sum_Sizes] assms(1) [of Acquires]
    assms(1) [of Hits] assms(1) [of Misses] assms(1) [of Releases] assms(2-4)
  by (simp add: untouched_part_def)

text \<open>
  C27. The recording methods may run in threads: however the atomic operations of any number of
  calls interleave, and whichever compare-and-exchanges fail spuriously or because another thread
  was faster, the object is, when all the calls have returned, the one the same calls make one
  after the other, in whatever order.
\<close>

theorem metrics_threads_exact:
  assumes "metrics_run m0 (m, {#}, mset calls)"
  shows "m = fold run_call calls m0"
  using assms counts.counter_exact minimum.extremum_exact maximum.extremum_exact
  by (auto intro!: metrics_eqI simp: untouched_part_run [OF assms] untouched_part_sequential)

text \<open>Running a schedule: whose operation is next, and whether it fails spuriously.\<close>

fun play :: "(nat \<times> bool) list \<Rightarrow> metrics \<times> pc list \<Rightarrow> metrics \<times> pc list" where
  "play [] s = s"
| "play ((i, sp) # sched) (m, ps) =
     (if i < length ps
      then (case atomic_op sp (ps ! i) m of
          (m', None) \<Rightarrow> play sched (m', take i ps @ drop (Suc i) ps)
        | (m', Some pc) \<Rightarrow> play sched (m', ps[i := pc]))
      else play sched (m, ps))"

lemma play_run: "metrics_run m0 (m, mset ps, cs) \<Longrightarrow> play sched (m, ps) = (m', ps') \<Longrightarrow> metrics_run m0 (m', mset ps', cs)"
proof (induction sched arbitrary: m ps)
  case (Cons x sched)
  obtain i sp where x: "x = (i, sp)" by fastforce
  show ?case
  proof (cases "i < length ps")
    case True
    let ?rest = "mset (take i ps @ drop (Suc i) ps)"
    have split: "mset ps = add_mset (ps ! i) ?rest"
      using id_take_nth_drop [OF True] by (metis mset.simps(2) mset_append union_mset_add_mset_right)
    obtain m1 r where op: "atomic_op sp (ps ! i) m = (m1, r)" by fastforce
    have run: "metrics_run m0 (m1, next_pc r + ?rest, cs)"
      using metrics_run.oper [OF Cons.prems(1) [unfolded split] op] .
    show ?thesis
    proof (cases r)
      case None
      with run have "metrics_run m0 (m1, ?rest, cs)" by simp
      then show ?thesis using None op True Cons.prems(2) x by (intro Cons.IH) simp_all
    next
      case (Some pc)
      then have "mset (ps[i := pc]) = next_pc r + ?rest"
        using True by (simp add: upd_conv_take_nth_drop)
      with run have "metrics_run m0 (m1, mset (ps[i := pc]), cs)" by (simp only:)
      then show ?thesis using Some op True Cons.prems(2) x by (intro Cons.IH) simp_all
    qed
  qed (use Cons x in simp)
qed simp

text \<open>
  Two threads record 5 and 3: both read the initial minimum, the first stores 5, the second finds
  its copy stale and tries again; later its exchange of the maximum fails spuriously once.
\<close>

theorem metrics_threads_exact_witness:
  "\<exists>m. metrics_run empty_metrics (m, {#}, mset [Record_Chunk_Size 5, Record_Chunk_Size 3])
     \<and> m_min_chunk_size m = 3 \<and> m_max_chunk_size m = 5 \<and> m_sum_chunk_sizes m = 8"
proof -
  let ?calls = "[Record_Chunk_Size 5, Record_Chunk_Size 3]"
  let ?sched = "[(0, False), (1, False), (0, False), (1, False), (1, False), (1, False), (1, True),
    (1, False), (0, False), (0, False), (0, False), (0, False)]"
  have made: "metrics_run empty_metrics (empty_metrics, mset (map entry ?calls), mset ?calls)"
    using metrics_run.make [OF metrics_run.make [OF metrics_run.start], of empty_metrics "Record_Chunk_Size 5" "Record_Chunk_Size 3"]
    by (simp add: add_mset_commute)
  obtain m ps where play: "play ?sched (empty_metrics, map entry ?calls) = (m, ps)" by fastforce
  then have "ps = []" by (simp add: empty_metrics_def UINT64_MAX_def)
  with play_run [OF made play] have run: "metrics_run empty_metrics (m, {#}, mset ?calls)" by simp
  from metrics_threads_exact [OF run] run show ?thesis
    by (intro exI [of _ m]) (simp add: record_chunk_size_eq empty_metrics_def UINT64_MAX_def)
qed

end
