(* ===== verification/Call_Order.thy ===== *)
theory Call_Order
  imports Exit_Status
begin

text \<open>
  The order of all the VDI calls of a run, as an automaton over the history: the device set is created,
  named, configured, its devices are opened, each one is asked for commands and given back, and only
  then the set is closed and released, on every way out. The automaton is the contract of the
  interface (\<open>vdi_next\<close> refuses a call made out of turn by answering None); \<open>vdi_rel\<close> relates its
  state to the client's between two public calls. Every public method is shown to simulate it,
  whatever the calls answer, and the program is shown to leave it in a final state.
\<close>

section \<open>The contract\<close>

datatype set_phase =
    No_Set
  | Made devset \<comment> \<open>created by COM, not yet by CreateEx\<close>
  | Rejected devset \<comment> \<open>CreateEx failed\<close>
  | Named devset string
  | Ready devset string \<comment> \<open>SQL Server is there: devices may be opened\<close>
  | Broken devset \<comment> \<open>an OpenDevice failed\<close>
  | Shut devset
  | Released_Set

text \<open>The device set, the devices open on it, oldest first, and the command in the client's hands.\<close>

record vdi_use =
  phase :: set_phase
  open_devs :: "device list"
  hand :: proto

definition unused :: vdi_use where
  "unused = \<lparr>phase = No_Set, open_devs = [], hand = Idle\<rparr>"

text \<open>
  A set may be closed when it has been named and no device is open on it; the one exception is a
  set on which an OpenDevice failed.
\<close>

fun may_close :: "devset \<Rightarrow> set_phase \<Rightarrow> device list \<Rightarrow> bool" where
  "may_close ds (Named x _) devs \<longleftrightarrow> x = ds \<and> devs = []"
| "may_close ds (Ready x _) devs \<longleftrightarrow> x = ds \<and> devs = []"
| "may_close ds (Broken x) devs \<longleftrightarrow> x = ds"
| "may_close ds _ devs \<longleftrightarrow> False"

fun is_ready :: "set_phase \<Rightarrow> bool" where
  "is_ready (Ready _ _) = True"
| "is_ready _ = False"

text \<open>Releasing a device gives up the command taken from it.\<close>

fun give_up :: "device \<Rightarrow> proto \<Rightarrow> proto" where
  "give_up d (Holding d' cmd) = (if d' = d then Idle else Holding d' cmd)"
| "give_up d p = p"

fun vdi_next :: "event \<Rightarrow> vdi_use \<Rightarrow> vdi_use option" where
  "vdi_next (E_CoCreateInstance hr ds) u =
     (if phase u = No_Set then Some (if hr_failed hr then u else u\<lparr>phase := Made ds\<rparr>) else None)"
| "vdi_next (E_CreateEx ds nm cfg hr) u =
     (if phase u = Made ds then Some (u\<lparr>phase := (if hr_failed hr then Rejected ds else Named ds nm)\<rparr>)
      else None)"
| "vdi_next (E_GetConfiguration ds t hr cfg) u =
     (case phase u of
        Named x nm \<Rightarrow> (if x = ds then Some (if hr_failed hr then u else u\<lparr>phase := Ready ds nm\<rparr>) else None)
      | _ \<Rightarrow> None)"
| "vdi_next (E_OpenDevice ds nm hr d) u =
     (if phase u = Ready ds nm \<and> hand u = Idle
      then Some (if hr_failed hr then u\<lparr>phase := Broken ds\<rparr> else u\<lparr>open_devs := open_devs u @ [d]\<rparr>)
      else None)"
| "vdi_next (E_GetCommand d t hr c) u =
     (if is_ready (phase u) \<and> d \<in> set (open_devs u) \<and> hand u = Idle
      then Some (u\<lparr>hand := proto_next (E_GetCommand d t hr c) Idle\<rparr>) else None)"
| "vdi_next (E_CompleteCommand d cmd code n pos hr) u =
     (if is_ready (phase u) \<and> d \<in> set (open_devs u) \<and>
         proto_next (E_CompleteCommand d cmd code n pos hr) (hand u) = Idle
      then Some (u\<lparr>hand := Idle\<rparr>) else None)"
| "vdi_next (E_DeviceRelease d) u =
     (case open_devs u of
        d' # devs \<Rightarrow> (if d' = d then Some (u\<lparr>open_devs := devs, hand := give_up d (hand u)\<rparr>) else None)
      | [] \<Rightarrow> None)"
| "vdi_next (E_SetClose ds) u =
     (if may_close ds (phase u) (open_devs u) then Some (u\<lparr>phase := Shut ds\<rparr>) else None)"
| "vdi_next (E_SetRelease ds) u =
     (if phase u = Rejected ds \<or> phase u = Shut ds then Some (u\<lparr>phase := Released_Set\<rparr>) else None)"
| "vdi_next _ u = Some u"

text \<open>The whole history, oldest event first; None once a call was out of turn.\<close>

fun vdi_run :: "history \<Rightarrow> vdi_use option" where
  "vdi_run [] = Some unused"
| "vdi_run (e # h) = Option.bind (vdi_run h) (vdi_next e)"

text \<open>A final state: whatever was acquired has been given back.\<close>

definition all_returned :: "vdi_use \<Rightarrow> bool" where
  "all_returned u \<longleftrightarrow> phase u \<in> {No_Set, Released_Set} \<and> open_devs u = [] \<and> hand u = Idle"

section \<open>Stretches without a VDI call\<close>

fun is_vdi_call :: "event \<Rightarrow> bool" where
  "is_vdi_call (E_CoCreateInstance _ _) = True"
| "is_vdi_call (E_CreateEx _ _ _ _) = True"
| "is_vdi_call (E_GetConfiguration _ _ _ _) = True"
| "is_vdi_call (E_OpenDevice _ _ _ _) = True"
| "is_vdi_call (E_GetCommand _ _ _ _) = True"
| "is_vdi_call (E_CompleteCommand _ _ _ _ _ _) = True"
| "is_vdi_call (E_DeviceRelease _) = True"
| "is_vdi_call (E_SetClose _) = True"
| "is_vdi_call (E_SetRelease _) = True"
| "is_vdi_call _ = False"

abbreviation apart :: "history \<Rightarrow> history \<Rightarrow> bool" where
  "apart \<equiv> extends (\<lambda>e. \<not> is_vdi_call e)"

lemma vdi_apart: "apart h h' \<Longrightarrow> vdi_run h' = vdi_run h"
proof (rule extends_same [of "\<lambda>e. \<not> is_vdi_call e"])
  show "\<not> is_vdi_call e \<Longrightarrow> vdi_run (e # h) = vdi_run h" for e h
    by (cases e; cases "vdi_run h") auto
qed

lemma apart_of:
  "quiet h h' \<Longrightarrow> apart h h'" "extends is_sink_event h h' \<Longrightarrow> apart h h'"
  "extends is_report h h' \<Longrightarrow> apart h h'" "extends is_log h h' \<Longrightarrow> apart h h'"
proof -
  have "is_quiet e \<Longrightarrow> \<not> is_vdi_call e" "is_sink_event e \<Longrightarrow> \<not> is_vdi_call e"
    "is_report e \<Longrightarrow> \<not> is_vdi_call e" "is_log e \<Longrightarrow> \<not> is_vdi_call e" for e
    by (cases e; simp)+
  then show "quiet h h' \<Longrightarrow> apart h h'" "extends is_sink_event h h' \<Longrightarrow> apart h h'"
    "extends is_report h h' \<Longrightarrow> apart h h'" "extends is_log h h' \<Longrightarrow> apart h h'"
    by (auto elim: extends_mono)
qed

lemmas vdi_same = apart_of [THEN vdi_apart]

lemma received_vdi:
  assumes "received w d s hr c c1 h" "vdi_run (hist s) = Some u"
    and "is_ready (phase u)" "d \<in> set (open_devs u)" "hand u = Idle"
  shows "vdi_run h = Some (u\<lparr>hand := (if hr_failed hr then Idle
           else case c of None \<Rightarrow> Idle | Some cmd \<Rightarrow> Holding d cmd)\<rparr>)"
  using assms by (auto simp: received_def dest!: vdi_same(1))

lemma completed_vdi:
  assumes "completed w d cmd h hr h'" "vdi_run h = Some u"
    and "is_ready (phase u)" "d \<in> set (open_devs u)" "hand u = Holding d cmd"
  shows "vdi_run h' = Some (u\<lparr>hand := Idle\<rparr>)"
  using assms by (auto simp: completed_def dest!: vdi_same(1))

section \<open>The client's side\<close>

text \<open>The device set the client holds, as the contract sees it.\<close>

definition set_rel :: "'s client \<Rightarrow> vdi_use \<Rightarrow> bool" where
  "set_rel c u \<longleftrightarrow> (case m_device_set c of
       None \<Rightarrow> phase u \<in> {No_Set, Released_Set}
     | Some ds \<Rightarrow> may_close ds (phase u) (open_devs u))"

text \<open>
  The relation between two public calls. A device is left open only by an OpenDevice that failed
  after others had succeeded.
\<close>

definition vdi_rel :: "'s client \<Rightarrow> vdi_use \<Rightarrow> bool" where
  "vdi_rel c u \<longleftrightarrow> set_rel c u \<and> hand u = Idle \<and> (m_devices_closed c \<longleftrightarrow> m_state c = CLOSED) \<and>
     (case m_state c of
        INIT \<Rightarrow> u = unused \<and> m_device_set c = None
      | CONNECTED \<Rightarrow> \<exists>ds. m_device_set c = Some ds \<and> phase u = Named ds (m_device_name c)
      | STREAMING \<Rightarrow> \<exists>ds. m_device_set c = Some ds \<and> phase u = Ready ds (m_device_name c)
      | FLUSHING \<Rightarrow> False
      | FAILED \<Rightarrow> True
      | CLOSED \<Rightarrow> m_device_set c = None)"

text \<open>\<open>leak\<close> says whether devices may have been left open.\<close>

definition in_order :: "bool \<Rightarrow> 's sys \<Rightarrow> bool" where
  "in_order leak s \<longleftrightarrow> (\<exists>u. vdi_run (hist s) = Some u \<and> vdi_rel (cl s) u \<and> (open_devs u = [] \<or> leak))"

lemmas in_order_defs = in_order_def vdi_rel_def set_rel_def

lemma in_order_apart:
  "in_order leak s \<Longrightarrow> apart (hist s) (hist s') \<Longrightarrow> (\<And>u. vdi_rel (cl s) u \<Longrightarrow> vdi_rel (cl s') u) \<Longrightarrow>
   in_order leak s'"
  by (auto simp: in_order_def vdi_apart)

lemma vdi_rel_timeout [simp]: "vdi_rel (c\<lparr>m_command_timeout_ms := t\<rparr>) u = vdi_rel c u"
  by (simp add: vdi_rel_def set_rel_def split: session_state.split)

lemma vdi_rel_sink [simp]: "vdi_rel (c\<lparr>m_sink := sk\<rparr>) u = vdi_rel c u"
  by (simp add: vdi_rel_def set_rel_def split: session_state.split)

lemma new_client_in_order:
  assumes "run_state (new_VdiClient w sink logging mode) h = (c, h')" "vdi_run h = Some unused"
  shows "in_order leak \<lparr>cl = c, hist = h'\<rparr>"
proof -
  have "wp (new_VdiClient w sink logging mode) (\<lambda>_ h'. quiet h h') h"
    unfolding new_VdiClient_def create_timer_def new_ChronoTimer_def new_QPCTimer_def new_Metrics_def
      steady_clock_now_def QueryPerformanceFrequency_def QueryPerformanceCounter_def
    by (cases mode) (auto intro!: wp_intros)
  from wpD [OF this assms(1)] wpD [OF new_VdiClient_spec assms(1)] assms(2) show ?thesis
    by (auto simp: in_order_defs unused_def vdi_same(1))
qed

section \<open>The methods before the loop\<close>

lemma new_ComRuntime_apart: "wp (new_ComRuntime w) (\<lambda>_ h'. apart h h') h"
  unfolding new_ComRuntime_def CoInitializeEx_def LOG_WARN_def LOG_ERROR_def
  by (intro wp_intros) simp_all

lemma ComRuntime_dtor_apart: "wp (ComRuntime_dtor com) (\<lambda>_ h'. apart h h') h"
  unfolding ComRuntime_dtor_def CoUninitialize_def by (intro wp_intros) simp_all

text \<open>What \<open>connect_device_set\<close> leaves: a named set, or none.\<close>

lemma connect_device_set_vdi:
  assumes "vdi_run (hist s) = Some unused" "m_device_set (cl s) = None"
    and "m_device_name (cl s) = nm" "\<not> m_devices_closed (cl s)"
  shows "wp (connect_device_set w nm n) (\<lambda>ok s'. in_order leak s' \<and> m_device_count (cl s') = m_device_count (cl s)) s"
  unfolding connect_device_set_def CreateEx_def SetRelease_def
  by (intro wp_intros wp_CoCreateInstance)
    (use assms in \<open>auto simp: in_order_defs unused_def dest!: vdi_same(4)\<close>)

lemma connect_in_order:
  assumes "in_order leak s"
  shows "wp (connect w nm n) (\<lambda>ok s'. in_order leak s' \<and>
    (ok \<longrightarrow> m_device_count (cl s') = n)) s"
  unfolding connect_def
  by (intro wp_intros wp_mono [OF new_ComRuntime_apart] wp_mono [OF connect_device_set_vdi]
      wp_mono [OF ComRuntime_dtor_apart])
    (use assms in \<open>auto simp: in_order_defs unused_def dest!: vdi_same(4) vdi_apart\<close>)

lemma open_devices_in_order:
  assumes "in_order leak s"
  shows "wp (open_devices w) (\<lambda>ok s'. in_order leak s' \<and> m_device_count (cl s') = m_device_count (cl s)) s"
  unfolding open_devices_def GetConfiguration_def log_server_config_def
  by (intro wp_intros)
    (use assms in \<open>auto simp: in_order_defs dest!: vdi_same(4) split: prod.splits\<close>)

section \<open>Opening, releasing, closing\<close>

text \<open>The devices opened are the ones handed to the loop; a failure may leave all but one of them open.\<close>

lemma open_all_devices_vdi:
  assumes "vdi_run (hist s) = Some u" "phase u = Ready ds (m_device_name (cl s))" "hand u = Idle"
  shows "wp (open_all_devices w ds i n devs) (\<lambda>r s'. \<exists>new.
      (case r of
         Some devices \<Rightarrow> cl s' = cl s \<and> devices = devs @ new \<and> vdi_run (hist s') = Some (u\<lparr>open_devs := open_devs u @ new\<rparr>)
       | None \<Rightarrow> cl s' = (cl s)\<lparr>m_state := FAILED\<rparr> \<and> length new < n \<and>
           vdi_run (hist s') = Some (u\<lparr>phase := Broken ds, open_devs := open_devs u @ new\<rparr>))) s"
  using assms
proof (induction n arbitrary: i devs s u)
  case 0
  then show ?case by (auto intro!: wp_intros exI [of _ "[]"])
next
  case (Suc n)
  have rest: "wp (open_all_devices w ds (Suc i) n (devs @ [d])) (\<lambda>r s'. \<exists>new.
      (case r of
         Some devices \<Rightarrow> cl s' = cl s \<and> devices = devs @ new \<and> vdi_run (hist s') = Some (u\<lparr>open_devs := open_devs u @ new\<rparr>)
       | None \<Rightarrow> cl s' = (cl s)\<lparr>m_state := FAILED\<rparr> \<and> length new < Suc n \<and>
           vdi_run (hist s') = Some (u\<lparr>phase := Broken ds, open_devs := open_devs u @ new\<rparr>))) (s\<lparr>hist := h'\<rparr>)"
    if "vdi_run h' = Some (u\<lparr>open_devs := open_devs u @ [d]\<rparr>)" for d h'
    by (rule wp_mono [OF Suc.IH [of "s\<lparr>hist := h'\<rparr>" "u\<lparr>open_devs := open_devs u @ [d]\<rparr>"]])
      (use that Suc.prems in \<open>auto split: option.splits intro: exI [of _ "d # _"]\<close>)
  show ?case
    unfolding open_all_devices.simps OpenDevice_def
    by (intro wp_intros; simp?)
      (use Suc.prems in \<open>auto dest!: vdi_same(4) intro: rest intro!: exI [of _ "[]"]\<close>)
qed

lemma process_prologue_vdi:
  assumes "in_order leak s" "leak \<or> device_total (cl s) = 1"
  shows "wp (process_prologue w) (\<lambda>r s'. case r of
      None \<Rightarrow> in_order leak s'
    | Some devices \<Rightarrow> m_state (cl s) = STREAMING \<and> cl s' = cl s \<and> (\<exists>u ds. vdi_run (hist s') = Some u \<and>
        m_device_set (cl s) = Some ds \<and> phase u = Ready ds (m_device_name (cl s)) \<and> open_devs u = devices \<and>
        hand u = Idle \<and> \<not> m_devices_closed (cl s))) s"
proof -
  obtain u where u: "vdi_run (hist s) = Some u" "vdi_rel (cl s) u" "open_devs u = [] \<or> leak"
    using assms(1) by (auto simp: in_order_def)
  show ?thesis
    unfolding process_prologue_def
    by (intro wp_intros wp_mono [OF open_all_devices_vdi [of _ u]])
      (use u assms(2) in \<open>auto simp: in_order_defs dest!: vdi_same(4) split: option.splits\<close>)
qed

lemma release_all_vdi:
  assumes "vdi_run h = Some u" "open_devs u = ds" "hand u \<noteq> Violated" "\<And>d cmd. hand u = Holding d cmd \<Longrightarrow> d \<in> set ds"
  shows "wp (release_all ds) (\<lambda>_ h'. vdi_run h' = Some (u\<lparr>open_devs := [], hand := Idle\<rparr>)) h"
  using assms
proof (induction ds arbitrary: h u)
  case Nil
  then have "hand u = Idle" by (cases "hand u") auto
  with Nil show ?case by (auto intro!: wp_intros)
next
  case (Cons d ds)
  have "wp (release_all ds) (\<lambda>_ h'. vdi_run h' = Some (u\<lparr>open_devs := [], hand := Idle\<rparr>)) (E_DeviceRelease d # h)"
    by (rule wp_mono [OF Cons.IH [of _ "u\<lparr>open_devs := ds, hand := give_up d (hand u)\<rparr>"]])
      (use Cons.prems in \<open>cases "hand u"; auto split: if_splits\<close>)+
  then show ?case
    unfolding release_all.simps DeviceRelease_def by (intro wp_intros)
qed

lemma report_in_order:
  assumes "in_order leak s"
  shows "wp (report w) (\<lambda>_ s'. in_order leak s') s"
proof -
  have "wp (report w) (\<lambda>_ s'. apart (hist s) (hist s')) s"
    unfolding report_def
    by (intro wp_intros wp_mono [OF wp_print_summary] wp_mono [OF wp_to_json]; simp)
      (drule apart_of(4) apart_of(3) | erule extends_trans [rotated] | rule extends_Cons | simp)+
  from wp_conj [OF report_spec this] show ?thesis
    by (rule wp_mono) (use assms in \<open>auto elim: in_order_apart\<close>)
qed

context sink_contract
begin

lemma flush_vdi: "run_state (vt_flush vt) (sk, h) = (x, sk', h') \<Longrightarrow> vdi_run h' = vdi_run h"
  by (drule wpD [OF flush_frame]) (simp add: vdi_same(2))

lemma write_vdi: "run_state (vt_write vt data n) (sk, h) = (ok, sk', h') \<Longrightarrow> vdi_run h' = vdi_run h"
  by (drule wpD [OF write_frame]) (simp add: vdi_same(2))

lemma dtor_vdi: "run_state (vt_dtor vt) (sk, h) = (x, sk', h') \<Longrightarrow> vdi_run h' = vdi_run h"
  by (drule wpD [OF dtor_frame]) (simp add: vdi_same(2))

lemma served_vdi: "served vt cmd c h c2 h2 \<Longrightarrow> vdi_run h2 = vdi_run h"
  by (erule served.cases) (auto dest!: vdi_same(1) write_vdi)

text \<open>\<open>close\<close> shuts and releases the set it holds, if any; a second call does nothing.\<close>

lemma close_vdi:
  assumes "vdi_run (hist s) = Some u" "set_rel (cl s) u"
  shows "wp (close w vt) (\<lambda>_ s'. if m_devices_closed (cl s) then cl s' = cl s \<and> vdi_run (hist s') = Some u
      else m_state (cl s') = CLOSED \<and> m_devices_closed (cl s') \<and> m_device_set (cl s') = None \<and>
        (\<exists>p \<in> {No_Set, Released_Set}. vdi_run (hist s') = Some (u\<lparr>phase := p\<rparr>))) s"
  unfolding close_def flush_before_close_def close_device_set_def SetClose_def SetRelease_def
  by (intro wp_intros) (use assms in \<open>auto simp: set_rel_def dest!: vdi_same(4) flush_vdi\<close>)

lemma close_in_order: 
  assumes "in_order leak s"
  shows "wp (close w vt) (\<lambda>_ s'. in_order leak s' \<and> m_state (cl s') = CLOSED) s"
proof -
  obtain u where u: "vdi_run (hist s) = Some u" "vdi_rel (cl s) u" "open_devs u = [] \<or> leak"
    using assms by (auto simp: in_order_def)
  then have "set_rel (cl s) u" by (simp add: vdi_rel_def)
  from close_vdi [OF u(1) this] show ?thesis
    by (rule wp_mono) (use u in \<open>auto simp: in_order_defs split: if_splits\<close>)
qed

end

section \<open>The command loop\<close>

text \<open>In the loop: the devices are open in the order of the rounds, and a step leaves at most one command in hand.\<close>

definition at_work :: "vdi_use \<Rightarrow> 's sys \<Rightarrow> bool" where
  "at_work u s \<longleftrightarrow> m_state (cl s) = STREAMING \<and> vdi_run (hist s) = Some u \<and> is_ready (phase u) \<and> hand u = Idle"

definition left_off :: "vdi_use \<Rightarrow> 's sys \<Rightarrow> bool" where
  "left_off u s \<longleftrightarrow> (\<exists>v. vdi_run (hist s) = Some v \<and> phase v = phase u \<and> open_devs v = open_devs u \<and>
     hand v \<noteq> Violated \<and> (\<forall>d cmd. hand v = Holding d cmd \<longrightarrow> d \<in> set (open_devs u)))"

lemma hand_Idle [simp]: "hand u = Idle \<Longrightarrow> u\<lparr>hand := Idle\<rparr> = u"
  by (cases u) simp

context sink_contract
begin

lemma device_step_left_off:
  assumes "device_step w vt d s r s'" "d \<in> set (open_devs u)" "at_work u s"
  shows "left_off u s' \<and> (r = Next \<longrightarrow> vdi_run (hist s') = Some u)"
proof -
  have u: "vdi_run (hist s) = Some u" "is_ready (phase u)" "hand u = Idle"
    using assms(3) by (simp_all add: at_work_def)
  note rec = received_vdi [OF _ u(1,2) assms(2) u(3)]
  show ?thesis
    using assms(1)
    by (rule device_step.cases)
      (use u assms(2) in \<open>auto simp: left_off_def dest!: rec vdi_same(1) flush_vdi write_vdi served_vdi completed_vdi\<close>)
qed

lemma command_loop_left_off:
  assumes "command_loop w vt start (open_devs u) s = Some (r, s')" "at_work u s"
  shows "left_off u s'"
proof -
  have "r \<noteq> Next \<and> left_off u s'"
    by (rule command_loop_rule [OF assms(1), where I = "at_work u"])
      (use assms(2) in \<open>auto simp: at_work_def dest: device_step_left_off device_step_state\<close>)
  then show ?thesis by simp
qed

lemma after_loop_in_order:
  assumes "left_off u s" "phase u = Ready ds (m_device_name (cl s))" "m_device_set (cl s) = Some ds"
    and "\<not> m_devices_closed (cl s)" "m_state (cl s) \<in> {STREAMING, FLUSHING, FAILED}"
  shows "wp (after_loop w vt (open_devs u)) (\<lambda>_ s'. in_order leak s') s"
proof -
  obtain v where v: "vdi_run (hist s) = Some v" "phase v = phase u" "open_devs v = open_devs u"
      "hand v \<noteq> Violated" "\<And>d cmd. hand v = Holding d cmd \<Longrightarrow> d \<in> set (open_devs u)"
    using assms(1) by (auto simp: left_off_def)
  show ?thesis
    unfolding after_loop_def
    by (intro wp_intros wp_mono [OF release_all_vdi [OF v(1,3,4)]] wp_mono [OF close_vdi [of _ "v\<lparr>open_devs := [], hand := Idle\<rparr>"]]
        wp_mono [OF report_in_order])
      (use assms v in \<open>auto simp: in_order_defs split: if_splits\<close>)
qed

lemma process_commands_in_order:
  assumes "process_commands w vt s = Some (Returned, s')" "in_order leak s" "leak \<or> device_total (cl s) = 1"
  shows "in_order leak s'"
  using assms(1)
proof (cases rule: process_commands_cases)
  case stopped
  with wpD [OF process_prologue_vdi [OF assms(2,3)] stopped(1)] show ?thesis by simp
next
  case (ran devices s1 start s2 r s3)
  then have out: "s' = snd (run_state (after_loop w vt devices) s3)" by (auto split: if_splits)
  from wpD [OF process_prologue_vdi [OF assms(2,3)] ran(1)]
  obtain u ds where u: "vdi_run (hist s1) = Some u" "m_device_set (cl s1) = Some ds"
      "phase u = Ready ds (m_device_name (cl s1))" "open_devs u = devices" "hand u = Idle"
      "\<not> m_devices_closed (cl s1)" "m_state (cl s1) = STREAMING"
    by auto
  from wpD [OF start_session_clock_spec ran(2)]
  have s2: "at_work u s2" "fixed_part (cl s2) = fixed_part (cl s1)" "m_state (cl s2) = STREAMING"
    using u by (auto simp: at_work_def fixed_part_def vdi_same(1))
  have "left_off u s3" by (rule command_loop_left_off [OF _ s2(1)]) (use ran(3) u(4) in simp)
  moreover have "fixed_part (cl s3) = fixed_part (cl s1)" "m_state (cl s3) \<in> {STREAMING, FLUSHING, FAILED}"
    using command_loop_spec [OF ran(3) s2(3)] s2(2) by (auto simp: same_resources_def)
  ultimately show ?thesis
    using after_loop_in_order [of u s3 ds w leak] u out by (auto simp: fixed_part_def wp_snd)
qed

lemma session_step_in_order:
  assumes "session_step w vt s op s'" "in_order True s"
  shows "in_order True s'"
  using assms(1)
proof cases
  case (call_connect nm n)
  have "wp (connect w nm n) (\<lambda>_. in_order True) s"
    by (rule wp_mono [OF connect_in_order [OF assms(2)]]) simp
  then show ?thesis using call_connect by (simp add: wp_snd)
next
  case call_open_devices
  have "wp (open_devices w) (\<lambda>_. in_order True) s"
    by (rule wp_mono [OF open_devices_in_order [OF assms(2)]]) simp
  then show ?thesis using call_open_devices by (simp add: wp_snd)
next
  case call_process_commands
  then show ?thesis using process_commands_in_order [OF _ assms(2)] by simp
next
  case call_close
  have "wp (close w vt) (\<lambda>_. in_order True) s"
    by (rule wp_mono [OF close_in_order [OF assms(2)]]) simp
  then show ?thesis using call_close by (simp add: wp_snd)
next
  case (call_set_timeout t)
  have "wp (set_command_timeout w t) (\<lambda>_. in_order True) s"
    by (rule wp_mono [OF set_command_timeout_spec])
      (use assms(2) in \<open>auto elim!: in_order_apart intro: apart_of\<close>)
  then show ?thesis using call_set_timeout by (simp add: wp_snd)
qed

lemma VdiClient_dtor_vdi:
  assumes "vdi_run (hist s) = Some u" "vdi_rel (cl s) u"
  shows "wp (VdiClient_dtor w vt) (\<lambda>_ s'. \<exists>p \<in> {No_Set, Released_Set}. vdi_run (hist s') = Some (u\<lparr>phase := p\<rparr>)) s"
proof -
  have rel: "set_rel (cl s) u" "hand u = Idle" using assms(2) by (simp_all add: vdi_rel_def)
  have sink: "wp (case m_sink (cl t) of None \<Rightarrow> State_Monad.return () | Some sk \<Rightarrow> on_sink sk (vt_dtor vt))
      (\<lambda>_ s'. vdi_run (hist s') = vdi_run (hist t)) t" for t :: "'s sys"
    by (intro wp_intros) (auto dest!: dtor_vdi)
  have phase: "u\<lparr>phase := phase u\<rparr> = u" by (cases u) simp
  show ?thesis
    unfolding VdiClient_dtor_def
    by (intro wp_bind wp_gets wp_if wp_do_io wp_LOG_WARN wp_return wp_mono [OF close_vdi [of _ u]] wp_mono [OF sink])
      (use assms rel phase in \<open>auto simp: in_order_defs dest!: vdi_same(4) split: if_splits session_state.splits\<close>)
qed

section \<open>The program\<close>

lemma start_backup_apart: "wp (start_backup w c nm) (\<lambda>_ h'. apart h h') h"
  unfolding start_backup_def launch_sqlcmd_def wsystem_def cin_get_def
  by (intro wp_intros) simp_all

lemma in_order_hist:
  "in_order leak s \<Longrightarrow> apart (hist s) h \<Longrightarrow> in_order leak (s\<lparr>hist := h\<rparr>)"
  by (erule in_order_apart) simp_all

lemma main_setup_in_order:
  assumes "in_order leak s"
  shows "wp (main_setup w vt c nm) (\<lambda>x s'. in_order leak s' \<and> (x = None \<longrightarrow> m_device_count (cl s') = 1)) s"
  unfolding main_setup_def
  by (intro wp_intros wp_mono [OF connect_in_order] wp_mono [OF start_backup_apart] wp_mono [OF open_devices_in_order]
      wp_mono [OF close_in_order])
    (use assms in \<open>auto intro!: in_order_hist intro: extends_trans\<close>)

lemma run_client_in_order:
  assumes "run_client w vt sink c nm h = Some (Exit n, s')" "vdi_run h = Some unused"
  shows "\<exists>u. vdi_run (hist s') = Some u \<and> all_returned u"
proof -
  have exit: "\<exists>v. vdi_run (hist (snd (run_state (VdiClient_dtor w vt) t))) = Some v \<and> all_returned v"
    if t: "in_order False t" for t :: "'s sys"
    using t VdiClient_dtor_vdi [of t _ w] by (fastforce simp: in_order_def all_returned_def vdi_rel_def wp_snd)
  have prep: "in_order False s1 \<and> (x = None \<longrightarrow> m_device_count (cl s1) = 1)"
    if "run_state (new_VdiClient w (Some sink) False Chrono) h = (client, h1)"
      "run_state (main_setup w vt c nm) \<lparr>cl = client, hist = h1\<rparr> = (x, s1)" for client h1 x s1
    using wpD [OF main_setup_in_order [OF new_client_in_order [OF that(1) assms(2)]] that(2)] .
  from assms(1) show ?thesis
  proof (cases rule: run_client_cases)
    case (early client h1 s1)
    with prep exit show ?thesis by blast
  next
    case (ran client h1 s1 t)
    from prep [OF ran(1,2)] have "in_order False t"
      by (intro process_commands_in_order [OF ran(3)]) (simp_all add: device_total_def)
    then have "in_order False (snd (run_state (close w vt) t))"
      using close_in_order [of False t w] by (simp add: wp_snd)
    with exit ran(5) show ?thesis by blast
  qed
qed

end

section \<open>What the contract rules out\<close>

text \<open>Once everything is given back, no VDI call is in its turn any more.\<close>

lemma nothing_after_release:
  "vdi_run h = Some u \<Longrightarrow> phase u = Released_Set \<Longrightarrow> open_devs u = [] \<Longrightarrow> is_vdi_call e \<Longrightarrow> vdi_run (e # h) = None"
  by (cases e) auto

text \<open>
  The state of the contract counts the interface pointers: in a history without a call out of turn, the
  device sets alive are the one of the phase, and the references to devices are the open ones. That
  the program releases what it creates (\<open>main_releases\<close>) is therefore a part of the contract.
\<close>

fun set_of :: "set_phase \<Rightarrow> devset list" where
  "set_of (Made ds) = [ds]"
| "set_of (Rejected ds) = [ds]"
| "set_of (Named ds _) = [ds]"
| "set_of (Ready ds _) = [ds]"
| "set_of (Broken ds) = [ds]"
| "set_of (Shut ds) = [ds]"
| "set_of _ = []"

lemma vdi_run_resources:
  "vdi_run h = Some u \<Longrightarrow>
   live_sets h = set_of (phase u) \<and> device_refs h = (\<lambda>d. int (count_list (open_devs u) d))"
proof (induction h arbitrary: u)
  case (Cons e h)
  then obtain v where v: "vdi_run h = Some v" "vdi_next e v = Some u" by (auto simp: bind_eq_Some_conv)
  from Cons.IH [OF v(1)] v(2) show ?case
    by (cases e; cases "phase v") (auto split: if_splits list.splits)
qed (simp add: unused_def)

section \<open>The properties\<close>

text \<open>
  C14. Whatever public methods a user of the client calls, in any order and however often, and whatever
  the calls to the virtual device interface answer: no VDI call is made out of turn. Every
  method simulates the contract, and the destructor ends with the device set released (or never
  created), having closed it first; only devices that a failed OpenDevice left open stay open.
\<close>

theorem session_call_order:
  assumes "sink_contract vt" "run_state (new_VdiClient w sink logging mode) h = (c, h0)" "vdi_run h = Some unused"
    and "(\<lambda>s s'. \<exists>op. session_step w vt s op s')\<^sup>*\<^sup>* \<lparr>cl = c, hist = h0\<rparr> s"
  shows "\<exists>u. vdi_run (hist s) = Some u \<and> vdi_rel (cl s) u \<and>
    (\<exists>p \<in> {No_Set, Released_Set}.
       vdi_run (hist (snd (run_state (VdiClient_dtor w vt) s))) = Some (u\<lparr>phase := p\<rparr>))"
proof -
  from assms(4) have "in_order True s"
  proof induction
    case base
    show ?case by (rule new_client_in_order [OF assms(2,3)])
  next
    case (step t s)
    then show ?case using sink_contract.session_step_in_order [OF assms(1)] by blast
  qed
  then obtain u where u: "vdi_run (hist s) = Some u" "vdi_rel (cl s) u" by (auto simp: in_order_def)
  with sink_contract.VdiClient_dtor_vdi [OF assms(1) u, of w] show ?thesis by (auto simp: wp_snd)
qed

theorem session_call_order_witness:
  "\<exists>u. vdi_run (hist demo_streaming) = Some u \<and> phase u = Ready 1 ''VDI''"
proof -
  obtain c h0 where new: "run_state (new_VdiClient calm_world (Some ()) False Chrono) [] = (c, h0)" by fastforce
  let ?R = "\<lambda>s s'. \<exists>op. session_step calm_world null_vtbl s op s'"
  have "?R demo_new demo_connected" "?R demo_connected demo_streaming"
    unfolding demo_connected_def demo_streaming_def by (blast intro: call_connect call_open_devices)+
  then have "?R\<^sup>*\<^sup>* demo_new demo_streaming" by (rule rtranclp.rtrancl_into_rtrancl [OF r_into_rtranclp])
  then have "?R\<^sup>*\<^sup>* \<lparr>cl = c, hist = h0\<rparr> demo_streaming" using new by (simp add: demo_new_def)
  moreover have "m_device_name (cl demo_streaming) = ''VDI''" by (simp add: demo_eqs)
  ultimately show ?thesis
    using session_call_order [OF null.sink_contract_axioms new, of demo_streaming] demo_states(3,4)
    by (auto simp: vdi_rel_def)
qed

text \<open>
  C7. The program calls the virtual device interface as its contract demands, from its first call to
  its last: at its exit, whatever its options, whatever SQL Server, COM and the disk answered, no call
  was made out of turn, and everything acquired has been given back: the device set closed and
  released, or never created, the device released before, and no command in hand.
\<close>

theorem main_call_order:
  assumes "main w args = Some (r, h')"
  shows "\<exists>u. vdi_run h' = Some u \<and> all_returned u"
proof -
  let ?h0 = "[E_GetCurrentProcessId (r_GetCurrentProcessId w [])]"
  obtain n where r: "r = Exit n" using main_exits [OF assms] by (cases "sql_connected h'") auto
  have h0: "vdi_run ?h0 = Some unused" by simp
  show ?thesis
  proof (cases "use_file_sink (parse_args args default_cli)")
    case True
    from assms [unfolded r] True show ?thesis
      by (rule main_file)
        (use h0 in \<open>auto dest!: vdi_same(2) intro: sink_contract.run_client_in_order [OF file_frame.sink_contract_axioms]\<close>)
  next
    case False
    with assms r h0 show ?thesis
      by (auto simp: main_def GetCurrentProcessId_def intro: sink_contract.run_client_in_order [OF null.sink_contract_axioms])
  qed
qed

theorem main_call_order_witness:
  "\<exists>r h' u. main (one_write_world True) [''--sink'', ''file''] = Some (r, h') \<and> vdi_run h' = Some u \<and> all_returned u"
proof -
  have "closes_after 1 (one_write_world True)" by (simp add: closes_after_def ow VD_E_defs hr_failed_def)
  then obtain n h' where "main (one_write_world True) [''--sink'', ''file''] = Some (Exit n, h')"
    using main_returns by blast
  with main_call_order [OF this] show ?thesis by blast
qed

end
