(* ===== verification/File_Order.thy ===== *)
theory File_Order
  imports Exit_Status "HOL-Library.Sublist"
begin

text \<open>
  What the file can hold at all, with no assumption on the disk: a WriteFile may fail, write a part of its
  block, or be answered differently from call to call. A sink keeps a relation to the data handed to
  it: what it stores is a subsequence (in the sense of \<open>subseq\<close>) of that data, and what is missing is, to
  the byte, what WriteFile was given and did not write. Both sinks support the interface
  \<open>sink_relation\<close> with it, so it holds of every run of the program.
\<close>

section \<open>What WriteFile did not write\<close>

fun unwritten :: "history \<Rightarrow> nat" where
  "unwritten [] = 0"
| "unwritten (E_WriteFile bs ok n # h) = unwritten h + (length bs - unat n)"
| "unwritten (_ # h) = unwritten h"

lemma unwritten_other: "\<not> is_sink_event e \<Longrightarrow> unwritten (e # h) = unwritten h"
  by (cases e) auto

lemma unwritten_os_ok: "os_ok h \<Longrightarrow> unwritten h = 0"
  by (induction h rule: os_ok.induct) auto

text \<open>All the bytes the file sink took: in the file, in the buffer, or lost by WriteFile.\<close>

definition taken :: "file_sink \<Rightarrow> history \<Rightarrow> nat" where
  "taken fs h = length (file_stored fs h) + unwritten h"

lemma file_stored_other: "\<not> is_sink_event e \<Longrightarrow> file_stored sk (e # h) = file_stored sk h"
  by (simp add: file_stored_def file_bytes_other)

lemma taken_other: "\<not> is_sink_event e \<Longrightarrow> taken fs (e # h) = taken fs h"
  by (simp add: taken_def file_stored_other unwritten_other)

lemma file_stored_0: "m_buffered_bytes fs = 0 \<Longrightarrow> file_stored fs h = file_bytes h"
  by (simp add: file_stored_def buffered_data_0)

lemma bytes_at_take: "m \<le> n \<Longrightarrow> bytes_at p m = take m (bytes_at p n)"
  by (simp add: bytes_at_def take_map)

lemma subseq_take: "subseq (take k xs) xs"
  by (rule prefix_imp_subseq) (rule take_is_prefix)

text \<open>Whatever WriteFile answers, the buffer is emptied, the file gets a prefix of it and the rest is lost.\<close>

lemma flush_buffer_order:
  assumes "file_inv fs"
  shows "wp (flush_buffer w) (\<lambda>_ s'. fst s' = fs\<lparr>m_buffered_bytes := 0\<rparr> \<and>
    subseq (file_bytes (snd s')) (file_stored fs h) \<and> taken (fst s') (snd s') = taken fs h) (fs, h)"
proof (cases "m_buffered_bytes fs = 0")
  case True
  then have "fs = fs\<lparr>m_buffered_bytes := 0\<rparr>" by (metis file_sink.surjective file_sink.update_convs(3))
  with True show ?thesis
    unfolding flush_buffer_def by (intro wp_intros) (auto simp: file_stored_def)
next
  case False
  then show ?thesis
    unfolding flush_buffer_def WriteFile_def taken_def file_stored_def buffer_block_eq [OF assms, symmetric]
    by (intro wp_intros) (auto simp: subseq_append' subseq_take buffered_data_0)
qed

lemma write_direct_order:
  assumes "m_buffered_bytes fs = 0" "unat n < 2 ^ 32"
  shows "wp (write_direct w data n) (\<lambda>ok s'. fst s' = fs \<and>
    subseq (file_bytes (snd s')) (file_bytes h @ bytes_at data (unat n)) \<and>
    taken fs (snd s') = taken fs h + unat n) (fs, h)"
  unfolding write_direct_def WriteFile_def
  by (intro wp_intros)
    (auto simp: taken_def file_stored_0 assms(1) subseq_append' subseq_take unat_ucast_down [OF assms(2)])

section \<open>The relation\<close>

text \<open>\<open>has_file\<close> says whether the sink could create its file and its buffer.\<close>

definition file_rel :: "bool \<Rightarrow> u8 list \<Rightarrow> file_sink \<Rightarrow> history \<Rightarrow> bool" where
  "file_rel has_file D fs h \<longleftrightarrow> file_inv fs \<and> subseq (file_stored fs h) D \<and>
     (has_file \<longrightarrow> file_ready fs \<and> taken fs h = length D)"

lemma file_ready_flushed [simp]: "file_ready (fs\<lparr>m_buffered_bytes := 0\<rparr>) = file_ready fs"
  by (simp add: file_ready_def)

lemma file_ready_append [simp]: "file_ready (append_to_buffer data n fs) = file_ready fs"
  by (simp add: file_ready_def append_to_buffer_def)

lemma file_write_rel:
  assumes "file_rel b D fs h" "unat n < 2 ^ 32"
  shows "wp (file_write w data n) (\<lambda>ok s'. file_rel b (D @ bytes_at data (unat n)) (fst s') (snd s')) (fs, h)"
proof -
  have fs: "file_inv fs" "subseq (file_stored fs h) D" "b \<Longrightarrow> file_ready fs \<and> taken fs h = length D"
    using assms(1) by (auto simp: file_rel_def)
  show ?thesis
  proof (rule wp_file_write [OF fs(1), where
        F = "\<lambda>h'. subseq (file_bytes h') D \<and> length (file_bytes h') + unwritten h' = taken fs h"], goal_cases)
    case 1
    then show ?case using fs by (auto simp: file_rel_def file_ready_def)
  next
    case 2
    show ?case
      by (rule wp_mono [OF flush_buffer_order [OF fs(1)]])
        (use fs(2) in \<open>auto simp: taken_def file_stored_0 intro: subseq_order.trans\<close>)
  next
    case 3
    then show ?case using fs(2) by (simp add: taken_def file_stored_0)
  next
    case (4 gs h')
    then have "file_ready gs" by (simp add: file_ready_def)
    with 4 fs(3) show ?case
      by (intro wp_mono [OF write_direct_order [OF 4(4) assms(2)]])
        (auto simp: file_rel_def file_stored_0 taken_def [of gs h'] intro: subseq_order.trans [OF _ list_emb_append_mono])
  next
    case (5 gs h')
    then have "file_ready gs" "subseq (file_stored gs h') D" "taken gs h' = taken fs h"
      using fs(2) by (auto simp: file_ready_def taken_def file_stored_0)
    with append_to_buffer_spec [OF 5(1-5), of data] fs(3) show ?case
      by (auto simp: file_rel_def taken_def file_stored_def
          intro: list_emb_append_mono [of _ "_ @ _" D, simplified append_assoc])
  qed
qed

lemma file_flush_rel:
  assumes "file_rel b D fs h"
  shows "wp (file_flush w) (\<lambda>_ s'. file_rel b D (fst s') (snd s')) (fs, h)"
proof -
  have fs: "file_inv fs" "subseq (file_stored fs h) D" "b \<Longrightarrow> file_ready fs \<and> taken fs h = length D"
    using assms(1) by (auto simp: file_rel_def)
  show ?thesis
    unfolding file_flush_def
    by (intro wp_intros wp_mono [OF flush_buffer_order [OF fs(1)]])
      (use fs in \<open>auto simp: file_rel_def file_stored_0 taken_def intro!: wp_intros intro: subseq_order.trans\<close>)
qed

text \<open>The destructor empties the buffer, so what is stored then is what is in the file.\<close>

lemma file_dtor_rel:
  assumes "file_rel b D fs h"
  shows "wp (file_dtor w) (\<lambda>_ s'. subseq (file_bytes (snd s')) D \<and>
    (b \<longrightarrow> length (file_bytes (snd s')) + unwritten (snd s') = length D)) (fs, h)"
proof -
  have fs: "file_inv fs" "subseq (file_stored fs h) D" "b \<Longrightarrow> file_ready fs \<and> taken fs h = length D"
    using assms(1) by (auto simp: file_rel_def)
  show ?thesis
    unfolding file_dtor_def
    by (intro wp_intros wp_mono [OF flush_buffer_order [OF fs(1)]])
      (use fs in \<open>auto simp: file_stored_0 taken_def intro!: wp_intros intro: subseq_order.trans\<close>)
qed

interpretation frel: sink_relation "file_vtbl w" "file_rel has_file" for w has_file
proof unfold_locales
  show "file_rel has_file D fs h \<Longrightarrow> \<not> is_sink_event e \<Longrightarrow> file_rel has_file D fs (e # h)" for D fs h e
    by (simp add: file_rel_def file_stored_other taken_other)
  show "file_rel has_file D fs h \<Longrightarrow> \<not> vt_is_open (file_vtbl w) fs \<Longrightarrow> file_rel has_file (D @ bs) fs h" for D fs h bs
    by (auto simp: file_rel_def file_is_open_def file_ready_def intro: subseq_rev_drop_many)
qed (simp_all add: file_write_rel file_flush_rel)

text \<open>A NullSink writes no file.\<close>

interpretation nrel: sink_relation null_vtbl "\<lambda>D _ h. file_bytes h = []"
  by unfold_locales (auto simp: null_vtbl_def file_bytes_other intro!: wp_intros)

section \<open>The file at the exit\<close>

text \<open>
  C4. Bytes can be missing from the file, but what is there is right, and it is known how much is missing.
  Whatever WriteFile, SQL Server and COM answer and whatever the command line says, the bytes in the
  file at the exit are a subsequence of the payloads of the acceptable write commands received: none
  is written twice, out of order, or made up. With a file sink that could create its file, the
  missing bytes are, in number, exactly those that WriteFile was given and did not write: the
  client and the buffer lose none.
\<close>

theorem main_file_subsequence:
  assumes "main w args = Some (r, h')"
  shows "let accepted = concat (map payload (filter write_acceptable (received_writes h'))) in
    subseq (file_bytes h') accepted \<and>
    (Sink_Name ''file'' \<in> set (tokens args) \<and> file_created w \<longrightarrow>
       length accepted = length (file_bytes h') + unwritten h')"
proof -
  let ?h0 = "[E_GetCurrentProcessId (r_GetCurrentProcessId w [])]"
  let ?P = "\<lambda>b D h. subseq (file_bytes h) D \<and> (b \<longrightarrow> length (file_bytes h) + unwritten h = length D)"
  obtain n where r: "r = Exit n" using main_exits [OF assms] by (cases "sql_connected h'") auto
  have "?P (use_file_sink (parse_args args default_cli) \<and> file_created w) (accepted_data h') h'"
  proof (cases "use_file_sink (parse_args args default_cli)")
    case True
    from assms [unfolded r] True show ?thesis
    proof (rule main_file)
      fix fs h nm and s' :: "file_sink sys"
      assume h: "extends is_sink_event ?h0 h" and
        fs: "file_inv fs" "m_buffered_bytes fs = 0" "file_bytes h = []" "os_ok h"
          "file_created w \<longrightarrow> file_ready fs" and
        run: "run_client w (file_vtbl w) fs (parse_args args default_cli) nm h = Some (Exit n, s')" "h' = hist s'"
      have "file_rel (file_created w) (accepted_data h) fs h"
        using fs accepted_data_sink [OF h]
        by (simp add: file_rel_def taken_def file_stored_0 unwritten_os_ok accepted_data_def)
      from frel.run_client_related [OF run(1) this, where P = "?P (file_created w)"] run(2) True
      show ?thesis using wpD [OF file_dtor_rel] by (fastforce simp: file_vtbl_def)
    qed
  next
    case False
    with assms r obtain nm s' where
      "run_client w null_vtbl () (parse_args args default_cli) nm ?h0 = Some (Exit n, s')" "h' = hist s'"
      by (auto simp: main_def GetCurrentProcessId_def Let_def)
    from nrel.run_client_related [OF this(1), where P = "\<lambda>D h. file_bytes h = []"] this(2) False
    show ?thesis by (simp add: null_vtbl_def)
  qed
  then show ?thesis by (auto simp: accepted_data_def parse_args_tokens Let_def)
qed

text \<open>A disk that writes half of what it is given, and reports it.\<close>

definition half_disk_world :: world where
  "half_disk_world = (one_write_world True)\<lparr>r_WriteFile := (\<lambda>h bs. (True, word_of_nat (length bs div 2)))\<rparr>"

theorem main_file_subsequence_witness:
  "\<exists>r h'. main half_disk_world [''--sink'', ''file''] = Some (r, h') \<and>
     subseq (file_bytes h') (concat (map payload (filter write_acceptable (received_writes h')))) \<and>
     length (concat (map payload (filter write_acceptable (received_writes h')))) =
       length (file_bytes h') + unwritten h'"
proof -
  have "closes_after 1 half_disk_world"
    by (simp add: half_disk_world_def closes_after_def ow VD_E_defs hr_failed_def)
  then obtain n h' where main: "main half_disk_world [''--sink'', ''file''] = Some (Exit n, h')"
    using main_returns by blast
  have "file_created half_disk_world"
    by (simp add: half_disk_world_def file_created_def one_write_world_def calm_world_def)
  with main_file_subsequence [OF main] main show ?thesis by (auto simp: Let_def)
qed

end
