(* ===== verification/Interrupted.thy ===== *)
theory Interrupted
  imports Call_Order File_Order Session_Report
begin

text \<open>
  The program while it runs. A session may go on for ever, and a process may be killed; what holds at the
  exit says nothing about that. \<open>client_running\<close> is a client anywhere in its command loop, reached by
  any number of steps, whether the loop ends or not. There the calls made so far are in order, no command is
  in hand, and the file is what it should be, up to what the buffer holds.
\<close>

definition client_running ::
    "world \<Rightarrow> 's sink_vtbl \<Rightarrow> 's \<Rightarrow> cli \<Rightarrow> string \<Rightarrow> history \<Rightarrow> 's sys \<Rightarrow> bool" where
  "client_running w vt sk c nm h s \<longleftrightarrow> (\<exists>client h1 s1 devices s2 start s3.
     run_state (new_VdiClient w (Some sk) False Chrono) h = (client, h1) \<and>
     run_state (main_setup w vt c nm) \<lparr>cl = client, hist = h1\<rparr> = (None, s1) \<and>
     run_state (process_prologue w) s1 = (Some devices, s2) \<and>
     run_state (start_session_clock w) s2 = (start, s3) \<and> loop_reach w vt devices s3 s)"

text \<open>The program, run with the file sink, is about to ask a device for a command.\<close>

definition main_running :: "world \<Rightarrow> string list \<Rightarrow> file_sink sys \<Rightarrow> bool" where
  "main_running w args s \<longleftrightarrow> (let c = parse_args args default_cli in
     case run_state (GetCurrentProcessId w) [] of (pid, h) \<Rightarrow>
     case run_state (new_FileSink w ''backup_stream.bin'') h of (fs, h) \<Rightarrow>
       use_file_sink c \<and> client_running w (file_vtbl w) fs c (virtual_device_name pid) h s)"

text \<open>A client gets there with a provider that cooperates.\<close>

lemma client_running_cooperative:
  assumes "cooperative w"
  shows "\<exists>s. client_running w vt sk c nm h s"
proof -
  obtain client h1 where new: "run_state (new_VdiClient w (Some sk) False Chrono) h = (client, h1)" by fastforce
  from wpD [OF new_VdiClient_spec new] wpD [OF new_client_fresh new]
  have client: "m_state client = INIT" "m_device_set client = None" "fresh client" by simp_all
  obtain x s1 where up: "run_state (main_setup w vt c nm) \<lparr>cl = client, hist = h1\<rparr> = (x, s1)" by fastforce
  have "x = None" using wpD [OF main_setup_cooperative [OF assms] up] client(1) by simp
  moreover from this have "m_state (cl s1) = STREAMING" "m_device_set (cl s1) \<noteq> None"
    using wpD [OF main_setup_ready up] client by simp_all
  moreover obtain y s2 where pro: "run_state (process_prologue w) s1 = (y, s2)" by fastforce
  moreover obtain start s3 where "run_state (start_session_clock w) s2 = (start, s3)" by fastforce
  moreover have "opens_devices w" using assms by (simp add: cooperative_def)
  ultimately show ?thesis
    using wpD [OF process_prologue_opens pro] new up unfolding client_running_def by (metis option.exhaust reach_start)
qed

section \<open>What is carried there\<close>

context sink_invariant
begin

lemma client_running_carries:
  assumes "client_running w vt sk c nm h s" "K (Some sk) h"
  shows "carried s"
proof -
  obtain client h1 s1 devices s2 start s3 where
    new: "run_state (new_VdiClient w (Some sk) False Chrono) h = (client, h1)" and
    run: "run_state (main_setup w vt c nm) \<lparr>cl = client, hist = h1\<rparr> = (None, s1)"
      "run_state (process_prologue w) s1 = (Some devices, s2)"
      "run_state (start_session_clock w) s2 = (start, s3)" "loop_reach w vt devices s3 s"
    using assms(1) by (auto simp: client_running_def)
  have "carried \<lparr>cl = client, hist = h1\<rparr>"
    using wpD [OF new_client_aside new] assms(2) by (auto intro: K_aside)
  from wpD [OF main_setup_carries [OF this] run(1)] show ?thesis
    by (rule loop_reach_carries [OF run(4) session_clock_carries [OF run(3) prologue_carries [OF run(2)]]])
qed

end

context sink_contract
begin

lemma at_work_next:
  "device_step w vt d s Next s' \<Longrightarrow> d \<in> set (open_devs u) \<Longrightarrow> at_work u s \<Longrightarrow> at_work u s'"
  using device_step_left_off [of w d s Next s' u] device_step_state [of w vt d s Next s'] by (simp add: at_work_def)

lemma client_running_at_work:
  assumes "client_running w vt sk c nm h s" "vdi_run h = Some unused"
  shows "\<exists>u. at_work u s"
proof -
  obtain client h1 s1 devices s2 start s3 where
    new: "run_state (new_VdiClient w (Some sk) False Chrono) h = (client, h1)" and
    run: "run_state (main_setup w vt c nm) \<lparr>cl = client, hist = h1\<rparr> = (None, s1)"
      "run_state (process_prologue w) s1 = (Some devices, s2)"
      "run_state (start_session_clock w) s2 = (start, s3)" "loop_reach w vt devices s3 s"
    using assms(1) by (auto simp: client_running_def)
  from wpD [OF main_setup_in_order [OF new_client_in_order [OF new assms(2)]] run(1)]
  have "in_order True s1" by simp
  from wpD [OF process_prologue_vdi [OF this] run(2)]
  obtain u where u: "vdi_run (hist s2) = Some u" "is_ready (phase u)" "hand u = Idle"
      "open_devs u = devices" "m_state (cl s2) = STREAMING" by auto
  then have "at_work u s3"
    using wpD [OF start_session_clock_spec run(3)] by (auto simp: at_work_def vdi_same(1))
  then have "at_work u s"
    using loop_reach_invariant [OF run(4), where I = "at_work u"] at_work_next u(4) by blast
  then show ?thesis ..
qed

end

section \<open>The property\<close>

lemma main_running_file:
  assumes "main_running w args s" "file_created w"
  obtains fs h c nm where "extends is_sink_event [E_GetCurrentProcessId (r_GetCurrentProcessId w [])] h"
    "client_running w (file_vtbl w) fs c nm h s" "file_inv fs" "os_ok h" "file_rel True (accepted_data h) fs h"
proof -
  let ?h0 = "[E_GetCurrentProcessId (r_GetCurrentProcessId w [])]"
  obtain fs h nm where sink: "run_state (new_FileSink w ''backup_stream.bin'') ?h0 = (fs, h)"
    and run: "client_running w (file_vtbl w) fs (parse_args args default_cli) nm h s"
    using assms(1) by (auto simp: main_running_def GetCurrentProcessId_def Let_def split: prod.splits)
  from wpD [OF new_FileSink_spec sink] assms(2)
  have h: "extends is_sink_event ?h0 h" "file_inv fs" "m_buffered_bytes fs = 0" "file_bytes h = []" "os_ok h" "file_ready fs"
    by (auto simp: file_created_def)
  then have "file_rel True (accepted_data h) fs h"
    using accepted_data_sink [OF h(1)]
    by (simp add: file_rel_def taken_def file_stored_0 unwritten_os_ok accepted_data_def)
  with h run that show thesis by blast
qed

text \<open>On a disk that works, every WriteFile so far has written what it was given.\<close>

lemma main_running_disk_ok:
  assumes "main_running w args s" "file_created w" "disk_ok w"
  shows "os_ok (hist s)"
  using assms(1,2)
proof (rule main_running_file)
  fix fs h c nm
  assume "client_running w (file_vtbl w) fs c nm h s" "file_inv fs" "os_ok h"
  then show ?thesis
    using sink_invariant.client_running_carries [OF fsink.reliable_well [OF disk_ok_reliable [OF assms(3)]]]
    by (fastforce simp: fsink.well_def)
qed

text \<open>
  C5. An interrupted backup is a beginning of the backup. Whenever the program, run with a file sink that has
  its file, is about to ask for a command, be it the first time or after years of timeouts, and whatever has
  been answered so far: no VDI call was made out of turn and no command is in the client's hands; the file
  is a subsequence of the data accepted so far and lacks, beyond what WriteFile did not write, at most
  the 1 MB of the buffer; and if WriteFile wrote all it was given, the file is a prefix of the data.
\<close>

theorem interrupted_backup_prefix:
  assumes "main_running w args s" "file_created w"
  shows "let accepted = concat (map payload (filter write_acceptable (received_writes (hist s)))) in
    (\<exists>u. vdi_run (hist s) = Some u \<and> is_ready (phase u) \<and> hand u = Idle) \<and>
    subseq (file_bytes (hist s)) accepted \<and>
    length accepted \<le> length (file_bytes (hist s)) + unwritten (hist s) + 1048576 \<and>
    (os_ok (hist s) \<longrightarrow> prefix (file_bytes (hist s)) accepted)"
  using assms
proof (rule main_running_file)
  fix fs h c nm
  assume h: "extends is_sink_event [E_GetCurrentProcessId (r_GetCurrentProcessId w [])] h"
    and run: "client_running w (file_vtbl w) fs c nm h s" and rel: "file_rel True (accepted_data h) fs h"
  from rel have "frel.related True (Some fs) h" by (simp add: frel.related_def)
  from frel.client_running_carries [OF run this] obtain gs where
    gs: "file_inv gs" "subseq (file_stored gs (hist s)) (accepted_data (hist s))"
      "length (file_stored gs (hist s)) + unwritten (hist s) = length (accepted_data (hist s))"
    by (auto simp: frel.related_def file_rel_def taken_def)
  have "length (buffered_data gs) \<le> 1048576"
    using file_inv_small [OF gs(1)] by (simp add: buffered_data_def split: option.splits)
  moreover have "prefix (file_bytes (hist s)) (accepted_data (hist s))" if "os_ok (hist s)"
    using subseq_same_length [OF gs(2)] gs(3) unwritten_os_ok [OF that]
    by (auto simp: file_stored_def intro: prefixI [OF sym])
  moreover have "subseq (file_bytes (hist s)) (accepted_data (hist s))"
    using gs(2) unfolding file_stored_def by (rule subseq_order.trans [OF prefix_imp_subseq, rotated]) simp
  moreover have "vdi_run h = Some unused" using vdi_same(2) [OF h] by simp
  from file_frame.client_running_at_work [OF run this]
  have "\<exists>u. vdi_run (hist s) = Some u \<and> is_ready (phase u) \<and> hand u = Idle" by (auto simp: at_work_def)
  ultimately show ?thesis
    using gs(3) by (simp add: accepted_data_def file_stored_def Let_def)
qed

theorem interrupted_backup_prefix_witness:
  "\<exists>s. main_running one_chunk_world [''--sink'', ''file''] s \<and>
     prefix (file_bytes (hist s)) (concat (map payload (filter write_acceptable (received_writes (hist s)))))"
proof -
  let ?w = one_chunk_world and ?args = "[''--sink'', ''file'']"
  obtain pid h0 where pid: "run_state (GetCurrentProcessId ?w) [] = (pid, h0)" by fastforce
  obtain fs h where new: "run_state (new_FileSink ?w ''backup_stream.bin'') h0 = (fs, h)" by fastforce
  obtain s where "client_running ?w (file_vtbl ?w) fs (parse_args ?args default_cli) (virtual_device_name pid) h s"
    using client_running_cooperative [OF one_chunk_world_facts(4), where vt = "file_vtbl ?w" and sk = fs and h = h]
    by blast
  with pid new have s: "main_running ?w ?args s" by (simp add: main_running_def default_cli_def)
  have created: "file_created ?w" "disk_ok ?w"
    by (simp_all add: one_chunk_world_def file_created_def disk_ok_def calm_world_def)
  from interrupted_backup_prefix [OF s created(1)] main_running_disk_ok [OF s created] s show ?thesis
    by (auto simp: Let_def)
qed

end
