(* ===== verification/Silent_Loss.thy ===== *)
theory Silent_Loss
  imports Interrupted
begin

text \<open>
  What SQL Server is told when the disk fails. The file sink answers true for a chunk it puts in its
  buffer, and the buffer is written by \<open>flush_buffer\<close>, which looks at no result. So a command of less
  than the buffer's size is completed with success on any disk. The fact is one more instance of
  \<open>sink_invariant\<close>, and so holds of every run of the program.
\<close>

section \<open>The writes SQL Server believes done\<close>

text \<open>The write commands completed with ERROR_SUCCESS and their full size, oldest first.\<close>

fun acknowledged :: "history \<Rightarrow> vdc_command list" where
  "acknowledged [] = []"
| "acknowledged (E_CompleteCommand d cmd code n pos hr # h) = acknowledged h @
     (if commandCode cmd = VDC_Write \<and> code = ERROR_SUCCESS \<and> n = cmd_size cmd then [cmd] else [])"
| "acknowledged (_ # h) = acknowledged h"

text \<open>The writes the sink takes into its buffer of 1 MB; larger ones it gives to WriteFile itself.\<close>

definition buffered_write :: "vdc_command \<Rightarrow> bool" where
  "buffered_write cmd \<longleftrightarrow> write_acceptable cmd \<and> unat (cmd_size cmd) < 1048576"

text \<open>A disk that refuses every WriteFile.\<close>

definition refusing :: "world \<Rightarrow> bool" where
  "refusing w \<longleftrightarrow> (\<forall>h bs. r_WriteFile w h bs = (False, 0))"

lemma acknowledged_outer: "outer h h' \<Longrightarrow> acknowledged h' = acknowledged h"
proof (rule extends_same [of is_outer])
  show "is_outer e \<Longrightarrow> acknowledged (e # h) = acknowledged h" for e h by (cases e) auto
qed

lemma received_acknowledged: "received w d s hr c c1 h \<Longrightarrow> acknowledged h = acknowledged (hist s)"
  by (auto simp: received_def dest!: outer_of(1) [THEN acknowledged_outer])

lemma completed_acknowledged:
  "completed w d cmd h hr h' \<Longrightarrow>
   acknowledged h' = acknowledged h @ (if commandCode cmd = VDC_Write then [cmd] else [])"
  by (auto simp: completed_def dest!: outer_of(1) [THEN acknowledged_outer])

section \<open>The file sink on a disk that fails\<close>

definition as_before :: "world \<Rightarrow> history \<Rightarrow> history \<Rightarrow> bool" where
  "as_before w h h' \<longleftrightarrow> (refusing w \<longrightarrow> file_bytes h' = file_bytes h)"

lemma wp_WriteFile:
  "(\<And>ok n. r_WriteFile w h bs = (ok, n) \<Longrightarrow> Q (ok, n) (E_WriteFile bs ok n # h)) \<Longrightarrow> wp (WriteFile w bs) Q h"
  by (cases "r_WriteFile w h bs") (simp add: WriteFile_def wp_def)

lemma flush_buffer_deaf:
  assumes "file_ready fs"
  shows "wp (flush_buffer w) (\<lambda>_ s'. file_ready (fst s') \<and> as_before w h (snd s')) (fs, h)"
  unfolding flush_buffer_def
  by (intro wp_intros wp_WriteFile) (use assms in \<open>auto simp: as_before_def refusing_def file_ready_def\<close>)

lemma write_direct_deaf:
  "wp (write_direct w data n) (\<lambda>_ s'. fst s' = fs \<and> as_before w h (snd s')) (fs, h)"
  unfolding write_direct_def by (intro wp_intros wp_WriteFile) (auto simp: as_before_def refusing_def)

text \<open>A chunk below the buffer's size is taken, whatever becomes of it.\<close>

lemma file_write_deaf:
  assumes "file_ready fs"
  shows "wp (file_write w data n)
    (\<lambda>ok s'. file_ready (fst s') \<and> (n < WRITE_BUFFER_SIZE \<longrightarrow> ok) \<and> as_before w h (snd s')) (fs, h)"
proof -
  have direct: "wp (write_direct w data n)
      (\<lambda>ok s'. file_ready (fst s') \<and> (n < WRITE_BUFFER_SIZE \<longrightarrow> ok) \<and> as_before w h (snd s')) s"
    if "file_ready (fst s)" "as_before w h (snd s)" "WRITE_BUFFER_SIZE \<le> n" for s
    by (cases s, simp only:) (rule wp_mono [OF write_direct_deaf], use that in \<open>auto simp: as_before_def\<close>)
  have flush: "wp (flush_buffer w) (\<lambda>_. Q) (fs, h)" if "\<And>s. file_ready (fst s) \<Longrightarrow> as_before w h (snd s) \<Longrightarrow> Q s" for Q
    by (rule wp_mono [OF flush_buffer_deaf [OF assms]]) (use that in auto)
  have append: "wp (State_Monad.bind (on_object (append_to_buffer data n)) (\<lambda>_. State_Monad.return True))
      (\<lambda>ok s'. file_ready (fst s') \<and> (n < WRITE_BUFFER_SIZE \<longrightarrow> ok) \<and> as_before w h (snd s')) s"
    if "file_ready (fst s)" "as_before w h (snd s)" for s
    using that by (cases s) (simp add: wp_def on_object_def)
  have start: "as_before w h h" by (simp add: as_before_def)
  show ?thesis
    unfolding file_write_def
  proof (intro wp_bind [of "gets fst"] wp_gets wp_if, simp_all only: fst_conv, goal_cases)
    case 1
    then show ?case using assms by (auto simp: file_ready_def)
  next
    case 2
    show ?case by (intro wp_bind wp_if flush direct wp_return) (simp_all add: assms start 2)
  next
    case 3
    show ?case by (rule wp_bind) (intro wp_if flush append wp_return, simp_all add: assms start)
  qed
qed

lemma file_flush_deaf:
  assumes "file_ready fs"
  shows "wp (file_flush w) (\<lambda>_ s'. file_ready (fst s') \<and> as_before w h (snd s')) (fs, h)"
  unfolding file_flush_def
  by (intro wp_intros wp_mono [OF flush_buffer_deaf [OF assms]]) (auto simp: as_before_def intro!: wp_intros)

lemma file_dtor_deaf:
  assumes "file_ready fs"
  shows "wp (file_dtor w) (\<lambda>_ s'. as_before w h (snd s')) (fs, h)"
  unfolding file_dtor_def
  by (intro wp_intros wp_mono [OF flush_buffer_deaf [OF assms]]) (auto simp: as_before_def intro!: wp_intros)

section \<open>Carried through a run\<close>

text \<open>
  The sink can write, and the buffered writes received have been acknowledged but for \<open>ws\<close>, which are
  in hand; if the disk refuses all, nothing is in the file.
\<close>

definition deaf :: "world \<Rightarrow> vdc_command list \<Rightarrow> file_sink option \<Rightarrow> history \<Rightarrow> bool" where
  "deaf w ws m h \<longleftrightarrow> (\<exists>fs. m = Some fs \<and> file_ready fs) \<and>
     filter buffered_write (acknowledged h @ ws) = filter buffered_write (received_writes h) \<and>
     (refusing w \<longrightarrow> file_bytes h = [])"

lemma deaf_aside: "deaf w ws m h \<Longrightarrow> aside h h' \<Longrightarrow> deaf w ws m h'"
  by (auto simp: deaf_def acknowledged_outer received_writes_outer file_bytes_nonsink dest!: aside_split)

lemma deaf_quiet: "quiet h h' \<Longrightarrow> deaf w ws m h \<Longrightarrow> deaf w ws m h'"
  by (blast intro: deaf_aside aside_of)

lemma deaf_sink:
  "deaf w ws (Some fs) h \<Longrightarrow> outer h h' \<Longrightarrow> file_ready fs' \<Longrightarrow> as_before w h h' \<Longrightarrow> deaf w ws (Some fs') h'"
  by (simp add: deaf_def acknowledged_outer received_writes_outer as_before_def)

lemma deaf_received:
  "received v d s hr c c1 h \<Longrightarrow> deaf w [] (m_sink (cl s)) (hist s) \<Longrightarrow>
   deaf w (if hr_failed hr then [] else writes_of c) (m_sink c1) h"
  using received_received_writes [of v d s hr c c1 h] received_nonsink [of v d s hr c c1 h]
  by (simp add: deaf_def received_acknowledged m_sink_received file_bytes_nonsink)

lemma deaf_completed:
  "completed v d cmd h hr h' \<Longrightarrow> deaf w (writes_of (Some cmd)) m h \<Longrightarrow> deaf w [] m h'"
  using completed_received_writes [of v d cmd h hr h'] completed_nonsink [of v d cmd h hr h']
  by (auto simp: deaf_def completed_acknowledged writes_of_def file_bytes_nonsink)

text \<open>What is in hand may be forgotten unless it is a buffered write.\<close>

lemma deaf_drop: "deaf w ws m h \<Longrightarrow> filter buffered_write ws = [] \<Longrightarrow> deaf w [] m h"
  by (simp add: deaf_def)

lemma deaf_idle:
  assumes "received v d s hr c c1 h" "deaf w [] (m_sink (cl s)) (hist s)"
    and "hr_failed hr \<or> filter buffered_write (writes_of c) = []"
  shows "deaf w [] (m_sink c1) h"
  using deaf_drop [OF deaf_received [OF assms(1,2)]] assms(3) by (auto split: if_splits)

lemma deaf_flush:
  assumes "deaf w ws (Some fs) h" "run_state (file_flush w) (fs, h) = (u, fs', h')"
  shows "deaf w ws (Some fs') h'"
proof -
  have "file_ready fs" using assms(1) by (simp add: deaf_def)
  from wpD [OF file_flush_deaf [OF this] assms(2)] file_frame.flush_outer [of w fs h u fs' h'] assms(2)
  show ?thesis by (auto intro!: deaf_sink [OF assms(1)])
qed

lemma deaf_write:
  assumes "deaf w ws (Some fs) h" "run_state (file_write w data n) (fs, h) = (ok, fs', h')"
  shows "deaf w ws (Some fs') h' \<and> (n < WRITE_BUFFER_SIZE \<longrightarrow> ok)"
proof -
  have "file_ready fs" using assms(1) by (simp add: deaf_def)
  from wpD [OF file_write_deaf [OF this] assms(2)] wpD [OF file_frame.write_frame [of w data n h fs]] assms(2)
  show ?thesis by (auto intro!: deaf_sink [OF assms(1)])
qed

lemma deaf_dtor:
  assumes "deaf w [] (Some fs) h" "run_state (file_dtor w) (fs, h) = (u, fs', h')"
  shows "filter buffered_write (acknowledged h') = filter buffered_write (received_writes h') \<and>
    (refusing w \<longrightarrow> file_bytes h' = [])"
proof -
  have "file_ready fs" using assms(1) by (simp add: deaf_def)
  from wpD [OF file_dtor_deaf [OF this] assms(2)] have "as_before w h h'" by simp
  moreover have "outer h h'" using wpD [OF file_frame.dtor_frame [of w h fs]] assms(2) by auto
  ultimately show ?thesis
    using assms(1) by (simp add: deaf_def as_before_def acknowledged_outer received_writes_outer)
qed

lemma buffered_fits: "buffered_write cmd \<Longrightarrow> (ucast (cmd_size cmd) :: u64) < WRITE_BUFFER_SIZE"
  by (simp add: buffered_write_def word_less_nat_alt unat_WRITE_BUFFER_SIZE unat_ucast_up)

lemma deaf_served:
  assumes "served (file_vtbl w) cmd c1 h c2 h2" "deaf w ws (m_sink c1) h"
  shows "deaf w ws (m_sink c2) h2"
  using assms(1)
proof cases
  case served_other
  then show ?thesis using assms(2) deaf_quiet by simp
next
  case (served_write sk h1 sk' h1')
  then have "deaf w ws (Some sk) h1" using assms(2) deaf_quiet by simp
  then have "deaf w ws (Some sk') h1'" using deaf_write served_write(5) by simp
  then show ?thesis using served_write deaf_quiet by simp
qed

lemma deaf_step:
  assumes "device_step v (file_vtbl w) d s r s'" "deaf w [] (m_sink (cl s)) (hist s)"
  shows "deaf w [] (m_sink (cl s')) (hist s')"
  using assms(1)
proof cases
  case (graceful_end hr c c1 h sk h1 u sk' h')
  then have "hr_failed hr" by auto
  then have "deaf w [] (Some sk) h1"
    using deaf_idle [OF graceful_end(3) assms(2)] m_sink_received [OF graceful_end(3)] graceful_end(5)
      deaf_quiet [OF graceful_end(7)] by simp
  from deaf_flush [OF this] graceful_end show ?thesis by simp
next
  case (bad_write hr cmd c1 h h')
  then have "deaf w [] (m_sink c1) h"
    using deaf_idle [OF bad_write(3) assms(2)] by (simp add: writes_of_def buffered_write_def)
  then show ?thesis using bad_write by (simp add: deaf_quiet)
next
  case (sink_closed hr cmd c1 h sk h')
  then show ?thesis using assms(2) by (simp add: deaf_def file_ready_def file_is_open_def)
next
  case (write_failed hr cmd c1 h sk h1 sk' h1' h')
  then have "deaf w (writes_of (Some cmd)) (Some sk) h1"
    using deaf_received [OF write_failed(3) assms(2)] m_sink_received [OF write_failed(3)]
      deaf_quiet [OF write_failed(10)] by simp
  from deaf_write [OF this, of "cmd_memory cmd" "ucast (cmd_size cmd)" False sk' h1'] write_failed(9)
  have "deaf w (writes_of (Some cmd)) (Some sk') h1'" "\<not> buffered_write cmd"
    using buffered_fits by auto
  then have "deaf w [] (Some sk') h'"
    using deaf_drop deaf_quiet [OF write_failed(11)] write_failed(5) by (simp add: writes_of_def)
  then show ?thesis using write_failed by simp
next
  case (complete_failed hr cmd c1 h c2 h2 hr2 h')
  then show ?thesis
    using deaf_completed [OF complete_failed(6) deaf_served [OF complete_failed(5)]]
      deaf_received [OF complete_failed(3) assms(2)] by simp
next
  case (fault_injected hr cmd c1 h c2 h2 hr2 h' fi)
  then show ?thesis
    using deaf_completed [OF fault_injected(6) deaf_served [OF fault_injected(5)]]
      deaf_received [OF fault_injected(3) assms(2)] by simp
next
  case (command_done hr cmd c1 h c2 h2 hr2 h' fi tm)
  then show ?thesis
    using deaf_completed [OF command_done(6) deaf_served [OF command_done(5)]]
      deaf_received [OF command_done(3) assms(2)] by simp
next
  case (close_request hr cmd c1 h h')
  then have "writes_of (Some cmd) = []" by (simp add: VDC_defs writes_of_def)
  then show ?thesis using close_request deaf_idle [OF close_request(3) assms(2)] deaf_quiet by simp
next
  case (null_sink hr cmd c1 h h')
  then show ?thesis using assms(2) by (simp add: deaf_def)
qed (use assms(2) in \<open>auto simp: writes_of_def dest: deaf_idle [OF _ assms(2)] intro: deaf_quiet\<close>)

interpretation deaf: sink_invariant "file_vtbl w" "deaf w []" for w
proof unfold_locales
  show "deaf w [] (Some sk') h'" if "deaf w [] (Some sk) h" "run_state (vt_flush (file_vtbl w)) (sk, h) = (u, sk', h')"
    for sk h u sk' h'
    using deaf_flush [OF that(1)] that(2) by simp
qed (rule deaf_aside deaf_step; assumption)+

section \<open>The property\<close>

text \<open>
  C19. A disk that fails goes unnoticed. Run the program with a file sink that has its file, on any disk:
  at the exit every acceptable write command of less than 1 MB has been completed with success and its
  full size, and the exit code is 0 if SQL Server connected at all; none of this depends on what WriteFile
  answered. If the disk refused every WriteFile, the file is empty.
\<close>

theorem silent_data_loss:
  assumes "main w args = Some (Exit n, h')" "Sink_Name ''file'' \<in> set (tokens args)" "file_created w"
  shows "filter buffered_write (acknowledged h') = filter buffered_write (received_writes h') \<and>
    n = (if sql_connected h' then 0 else 1) \<and> (refusing w \<longrightarrow> file_bytes h' = [])"
proof -
  let ?P = "\<lambda>h. filter buffered_write (acknowledged h) = filter buffered_write (received_writes h) \<and>
    (refusing w \<longrightarrow> file_bytes h = [])"
  have "use_file_sink (parse_args args default_cli)"
    using assms(2) by (simp add: parse_args_tokens)
  from assms(1) this have "?P h'"
  proof (rule main_file)
    fix fs h nm and s' :: "file_sink sys"
    assume h: "extends is_sink_event [E_GetCurrentProcessId (r_GetCurrentProcessId w [])] h"
      and fs: "file_bytes h = []" "file_created w \<longrightarrow> file_ready fs"
      and run: "run_client w (file_vtbl w) fs (parse_args args default_cli) nm h = Some (Exit n, s')" "h' = hist s'"
    have "deaf w [] (Some fs) h"
      using fs assms(3) acknowledged_outer [OF outer_of(2) [OF h]] received_writes_outer [OF outer_of(2) [OF h]]
      by (simp add: deaf_def)
    show "?P h'"
      unfolding run(2)
    proof (rule deaf.run_client_carries [OF run(1) \<open>deaf w [] (Some fs) h\<close>])
      show "?P h2" if "deaf w [] (Some sk) h1" "run_state (vt_dtor (file_vtbl w)) (sk, h1) = (u, sk', h2)"
        for sk h1 u sk' h2
        using that(2) by (intro deaf_dtor [OF that(1)]) simp
    qed (simp add: deaf_def)
  qed
  with main_exits [OF assms(1)] show ?thesis by auto
qed

text \<open>SQL Server sends one write of four bytes and closes; the disk refuses every WriteFile.\<close>

definition refusing_world :: world where
  "refusing_world = one_chunk_world\<lparr>r_WriteFile := (\<lambda>_ _. (False, 0))\<rparr>"

lemma refusing_world_facts:
  "opens_devices refusing_world" "serves_once refusing_world" "cooperative refusing_world"
  "closes_after 1 refusing_world" "file_created refusing_world" "refusing refusing_world"
  by (auto simp: refusing_world_def one_chunk_world_def calm_world_def opens_devices_def serves_once_def
      cooperative_def closes_after_def S_OK_def VD_E_defs hr_failed_def file_created_def refusing_def)

theorem silent_data_loss_witness:
  "\<exists>h'. main refusing_world [''--sink'', ''file''] = Some (Exit 0, h') \<and> received_writes h' = [demo_write] \<and>
     filter buffered_write (acknowledged h') = [demo_write] \<and> file_bytes h' = []"
proof -
  let ?w = refusing_world and ?h0 = "[E_GetCurrentProcessId (r_GetCurrentProcessId refusing_world [])]"
  obtain fs h where new: "run_state (new_FileSink ?w ''backup_stream.bin'') ?h0 = (fs, h)" by fastforce
  have h: "outer ?h0 h" using wpD [OF new_FileSink_spec new] by auto
  obtain s' where run: "run_client ?w (file_vtbl ?w) fs (parse_args [''--sink'', ''file''] default_cli)
      (virtual_device_name (r_GetCurrentProcessId ?w [])) h = Some (Exit 0, s')"
    using run_client_completes [OF file_frame.sink_contract_axioms refusing_world_facts(3,4)] by blast
  then have main: "main ?w [''--sink'', ''file''] = Some (Exit 0, hist s')"
    using new by (simp add: main_def GetCurrentProcessId_def default_cli_def)
  have "received_writes (hist s') = [demo_write]"
    by (rule file_frame.run_client_once [OF run refusing_world_facts(2,1)])
      (simp_all add: received_writes_outer [OF h] get_count_outer [OF h])
  moreover have "buffered_write demo_write"
    by (simp add: buffered_write_def demo_write_def write_acceptable_def MAX_SANE_CHUNK_SIZE_def)
  ultimately show ?thesis
    using silent_data_loss [OF main _ refusing_world_facts(5)] refusing_world_facts(6) main by simp
qed

end
