(* ===== verification/State_Table.thy ===== *)
theory State_Table
  imports Loop_Order
begin

text \<open>
  The table of state transitions of \<open>docs/operational-behavior.md\<close> (lines 52 to 62), as a function of
  the state and the trigger, and the triggers a call of the client amounts to, read off its result and
  off the answers of the VDI calls it made. The client refines the table.
\<close>

section \<open>The documented table\<close>

datatype trigger =
    Connect_Returns bool
  | Open_Returns bool
  | Graceful_End \<comment> \<open>GetCommand returns VD_E_CLOSE or VD_E_EOF\<close>
  | Stream_Failure \<comment> \<open>sink write, CompleteCommand or GetCommand fails\<close>
  | Close_Called

text \<open>A pair of state and trigger the table has no row for is None; close is allowed in any state.\<close>

fun documented :: "session_state \<Rightarrow> trigger \<Rightarrow> session_state option" where
  "documented INIT (Connect_Returns ok) = Some (if ok then CONNECTED else FAILED)"
| "documented CONNECTED (Open_Returns ok) = Some (if ok then STREAMING else FAILED)"
| "documented STREAMING Graceful_End = Some FLUSHING"
| "documented STREAMING Stream_Failure = Some FAILED"
| "documented _ Close_Called = Some CLOSED"
| "documented _ _ = None"

fun documented_run :: "session_state \<Rightarrow> trigger list \<Rightarrow> session_state option" where
  "documented_run st [] = Some st"
| "documented_run st (t # ts) = (case documented st t of None \<Rightarrow> None | Some st' \<Rightarrow> documented_run st' ts)"

section \<open>The triggers of a call\<close>

text \<open>The newest of the GetCommand and CompleteCommand calls.\<close>

fun last_call :: "history \<Rightarrow> event option" where
  "last_call [] = None"
| "last_call (e # h) = (if is_outer e then last_call h else Some e)"

text \<open>
  The triggers with which the command loop is left, \<open>close\<close> included, from its last call: GetCommand
  has ended the session or failed, has delivered a write that was then not completed (refused, or
  failed in the sink) or a VDC_Close command, for which the table has no row; or CompleteCommand has
  failed, or the fault injector (\<open>fault\<close>) has struck. After any other call the loop goes on.
\<close>

fun stream_end :: "bool \<Rightarrow> event option \<Rightarrow> trigger list option" where
  "stream_end fault (Some (E_GetCommand d t hr c)) =
     (if hr = VD_E_CLOSE \<or> hr = VD_E_EOF then Some [Graceful_End, Close_Called]
      else if hr = VD_E_TIMEOUT then None
      else if hr_failed hr then Some [Stream_Failure]
      else case map_option commandCode c of
          None \<Rightarrow> None
        | Some code \<Rightarrow> if code = VDC_Close then Some [] else if code = VDC_Write then Some [Stream_Failure] else None)"
| "stream_end fault (Some (E_CompleteCommand d cmd code n pos hr)) =
     (if hr_failed hr \<or> fault then Some [Stream_Failure] else None)"
| "stream_end fault _ = None"

text \<open>A call in a state it is not meant for has no trigger; a failing OpenDevice is a failure of the stream.\<close>

fun call_triggers :: "world \<Rightarrow> 's sys \<Rightarrow> api_call \<Rightarrow> 's sys \<Rightarrow> trigger list option" where
  "call_triggers w s (Connect nm n) s' =
     Some (if m_state (cl s) = INIT then [Connect_Returns (fst (run_state (connect w nm n) s))] else [])"
| "call_triggers w s Open_Devices s' =
     Some (if m_state (cl s) = CONNECTED then [Open_Returns (fst (run_state (open_devices w) s))] else [])"
| "call_triggers w s Process_Commands s' =
     (if m_state (cl s) \<noteq> STREAMING then Some []
      else if length (opened (hist s')) < length (opened (hist s)) + device_total (cl s) then Some [Stream_Failure]
      else stream_end (FAULT_INJECTION_ENABLED w) (last_call (hist s')))"
| "call_triggers w s Close s' = Some [Close_Called]"
| "call_triggers w s (Set_Command_Timeout t) s' = Some []"

section \<open>The client follows the table\<close>

lemma last_call_outer: "outer h h' \<Longrightarrow> last_call h' = last_call h"
  by (rule extends_same [of is_outer]) simp_all

lemmas last_call_quiet = outer_of(1) [THEN last_call_outer]

lemma received_last: "received w d s hr c c1 h \<Longrightarrow> \<exists>t. last_call h = Some (E_GetCommand d t hr c) \<and> m_state c1 = m_state (cl s)"
  by (auto simp: received_def dest!: last_call_quiet)

lemma completed_last:
  "completed w d cmd h hr h' \<Longrightarrow> \<exists>n pos. last_call h' = Some (E_CompleteCommand d cmd ERROR_SUCCESS n pos hr)"
  by (auto simp: completed_def dest!: last_call_quiet)

lemma fault_enabled: "on_chunk_completed enabled fi = (True, fi') \<Longrightarrow> enabled"
  by (cases enabled) (simp_all add: on_chunk_completed_def)

lemma hr_failed_cases: "hr_succeeded hr \<Longrightarrow> hr \<noteq> VD_E_CLOSE \<and> hr \<noteq> VD_E_EOF \<and> hr \<noteq> VD_E_TIMEOUT"
  by (auto simp: hr_failed_def VD_E_CLOSE_def VD_E_EOF_def VD_E_TIMEOUT_def)

text \<open>The state in which the loop is left: FLUSHING is on the way to CLOSED.\<close>

definition left_by_table :: "bool \<Rightarrow> 's sys \<Rightarrow> bool" where
  "left_by_table fault s \<longleftrightarrow> (\<exists>ts. stream_end fault (last_call (hist s)) = Some ts \<and>
     documented_run STREAMING ts = Some (if m_state (cl s) = FLUSHING then CLOSED else m_state (cl s)))"

context sink_contract
begin

lemma flush_last: "run_state (vt_flush vt) (sk, h) = (u, sk', h') \<Longrightarrow> last_call h' = last_call h"
  using last_call_outer flush_outer by blast

lemma write_last: "run_state (vt_write vt data n) (sk, h) = (ok, sk', h') \<Longrightarrow> last_call h' = last_call h"
  by (drule wpD [OF write_frame]) (auto intro: last_call_outer)

lemma device_step_table:
  assumes "device_step w vt d s r s'" "r = Stop" "m_state (cl s) = STREAMING"
  shows "left_by_table (FAULT_INJECTION_ENABLED w) s'"
  using assms
  by (cases rule: device_step.cases)
    (auto simp: left_by_table_def VDC_defs dest!: received_last last_call_quiet flush_last
      write_last completed_last fault_enabled dest: hr_failed_cases)

lemma command_loop_table:
  assumes "command_loop w vt start ds s = Some (r, s')" "m_state (cl s) = STREAMING"
  shows "r = Stop \<longrightarrow> left_by_table (FAULT_INJECTION_ENABLED w) s'"
proof -
  let ?F = "\<lambda>r t. r = Stop \<longrightarrow> left_by_table (FAULT_INJECTION_ENABLED w) t"
  have step: "if r = Next then m_state (cl t') = STREAMING else ?F r t'"
    if "m_state (cl t) = STREAMING" "device_step w vt d t r t'" for d t r t'
    using device_step_state [OF that(2,1)] device_step_table [OF that(2) _ that(1)] by auto
  have "r \<noteq> Next \<and> ?F r s'"
    by (rule command_loop_rule [OF assms(1), where I = "\<lambda>t. m_state (cl t) = STREAMING" and F = ?F])
      (fact assms(2), rule step)
  then show ?thesis by blast
qed

lemma process_commands_table:
  assumes "process_commands w vt s = Some (Returned, s')" "m_state (cl s) = STREAMING"
    "m_device_set (cl s) \<noteq> None" "\<not> m_devices_closed (cl s)"
  shows "\<exists>ts. call_triggers w s Process_Commands s' = Some ts \<and> documented_run STREAMING ts = Some (m_state (cl s'))"
  using assms(1)
proof (cases rule: process_commands_cases)
  case stopped
  then show ?thesis using wpD [OF process_prologue_opened stopped(1)] assms(2,3) by auto
next
  case (ran devices s1 start s2 r s3)
  have s2: "m_state (cl s2) = STREAMING" "m_devices_closed (cl s2) = m_devices_closed (cl s)"
    using wpD [OF process_prologue_spec ran(1)] wpD [OF start_session_clock_spec ran(2)] by auto
  have r: "r = Stop" "s' = snd (run_state (after_loop w vt devices) s3)"
    using ran(4,5) by (cases r; simp)+
  then obtain ts where ts: "stream_end (FAULT_INJECTION_ENABLED w) (last_call (hist s3)) = Some ts"
      "documented_run STREAMING ts = Some (if m_state (cl s3) = FLUSHING then CLOSED else m_state (cl s3))"
    using command_loop_table [OF ran(3) s2(1)] by (auto simp: left_by_table_def)
  have "\<not> m_devices_closed (cl s3)"
    using command_loop_spec [OF ran(3) s2(1)] s2(2) assms(4) by (simp add: same_resources_def fixed_part_def)
  then have "m_state (cl s') = (if m_state (cl s3) = FLUSHING then CLOSED else m_state (cl s3))"
    using after_loop_spec [of s3 w devices] r(2) by (simp add: wp_snd split: if_splits)
  moreover have "last_call (hist s') = last_call (hist s3)"
    using after_loop_outer [of w devices s3] r(2) by (simp add: wp_snd last_call_outer)
  moreover have "\<not> length (opened (hist s')) < length (opened (hist s)) + device_total (cl s)"
    using wpD [OF process_prologue_opened ran(1)] process_commands_opened [OF assms(1) ran(1)] by auto
  ultimately show ?thesis using ts assms(2) by simp
qed

end

text \<open>
  C12. The session follows the transition table of the documentation, row by row. Take any state the
  public methods can reach, with any sink that meets its contract, and any further call: the results
  of \<open>connect\<close> and \<open>open_devices\<close>, the last answer SQL Server gave \<open>process_commands\<close> and a call of \<open>close\<close>
  amount to triggers of the table, and the new state is the one the table prescribes for them. The loop is
  left for no other reason than the triggers know, a graceful end runs through FLUSHING to CLOSED, and a call in
  a state it is not meant for has no trigger and changes no state. The one end of the loop without a
  row in the table, a VDC_Close command, is no trigger: the session stays in STREAMING.
\<close>

theorem session_state_machine:
  assumes "sink_contract vt" "session_reachable w vt s" "session_step w vt s op s'"
  shows "\<exists>ts. call_triggers w s op s' = Some ts \<and> documented_run (m_state (cl s)) ts = Some (m_state (cl s'))"
proof -
  have inv: "session_inv s" by (rule sink_contract.session_reachable_inv [OF assms(1,2)])
  from assms(3) show ?thesis
  proof cases
    case (call_connect nm n)
    with inv connect_spec [of s w nm n] show ?thesis
      by (auto simp: wp_def session_inv_def split: prod.splits if_splits)
  next
    case call_open_devices
    with inv open_devices_spec [of w s] show ?thesis
      by (auto simp: wp_def split: prod.splits if_splits)
  next
    case call_process_commands
    show ?thesis
    proof (cases "m_state (cl s) = STREAMING")
      case True
      with inv sink_contract.process_commands_table [OF assms(1) call_process_commands(2)] call_process_commands(1)
      show ?thesis by (auto simp: session_inv_def)
    next
      case False
      with call_process_commands(2) have "cl s' = cl s"
        by (auto elim!: process_commands_cases dest!: wpD [OF process_prologue_spec])
      with False call_process_commands(1) show ?thesis by simp
    qed
  next
    case call_close
    with inv sink_contract.close_spec [OF assms(1), of w s] show ?thesis
      by (cases "m_state (cl s)") (auto simp: wp_snd session_inv_def split: if_splits)
  next
    case (call_set_timeout t)
    with set_command_timeout_spec [of w t s] show ?thesis by (simp add: wp_snd)
  qed
qed

text \<open>A session SQL Server closes at once: the stream ends gracefully and the client is closed.\<close>

lemma calm_received: "received calm_world d s hr c c1 h \<Longrightarrow> hr = VD_E_CLOSE"
  by (auto simp: received_def calm_world_def)

lemma calm_step: "device_step calm_world null_vtbl d s r s' \<Longrightarrow> \<exists>t c. last_call (hist s') = Some (E_GetCommand d t VD_E_CLOSE c)"
  by (erule device_step.cases; frule calm_received)
    (auto simp: graceful_failed VD_E_CLOSE_def VD_E_TIMEOUT_def dest!: received_last last_call_quiet null.flush_last
      simp flip: VD_E_CLOSE_def)

theorem session_state_machine_witness:
  "\<exists>s'. process_commands calm_world null_vtbl demo_streaming = Some (Returned, s') \<and>
     call_triggers calm_world demo_streaming Process_Commands s' = Some [Graceful_End, Close_Called] \<and>
     documented_run STREAMING [Graceful_End, Close_Called] = Some (m_state (cl s'))"
proof -
  have "closes_after 0 calm_world" by (simp add: closes_after_def calm_world_def VD_E_defs hr_failed_def)
  then obtain s' where s': "process_commands calm_world null_vtbl demo_streaming = Some (Returned, s')"
    using process_commands_returns [OF null.sink_contract_axioms] by (fastforce simp: demo_eqs)
  obtain ts where ts: "call_triggers calm_world demo_streaming Process_Commands s' = Some ts"
      "documented_run STREAMING ts = Some (m_state (cl s'))"
    using session_state_machine [OF null.sink_contract_axioms demo_reachable(3) call_process_commands [OF s']]
    by (auto simp: demo_states)
  have "ts = [Graceful_End, Close_Called]"
    using s'
  proof (cases rule: process_commands_cases)
    case stopped
    have "run_state (process_prologue calm_world) demo_streaming = (Some [1], snd (run_state (process_prologue calm_world) demo_streaming))"
      by (simp add: process_prologue_def device_total_def OpenDevice_def demo_eqs calm_world_def do_io_def upd_def
          log_defs LOG_LEVEL_INFO_def S_OK_def hr_failed_def)
    with stopped(1) show ?thesis by simp
  next
    case (ran devices s1 start s2 r s3)
    have "\<exists>d t c. last_call (hist s3) = Some (E_GetCommand d t VD_E_CLOSE c)"
      using command_loop_rule [OF ran(3), where I = "\<lambda>_. True"
          and F = "\<lambda>_ u. \<exists>d t c. last_call (hist u) = Some (E_GetCommand d t VD_E_CLOSE c)"] calm_step by fastforce
    moreover have "last_call (hist s') = last_call (hist s3)"
      using null.after_loop_outer [of calm_world devices s3] ran(4,5) by (cases r) (auto simp: wp_snd last_call_outer)
    moreover have "length (opened (hist s')) = length (opened (hist demo_streaming)) + device_total (cl demo_streaming)"
      using wpD [OF process_prologue_opened ran(1)] null.process_commands_opened [OF s' ran(1)] by auto
    ultimately show ?thesis using ts(1) by (auto simp: demo_states)
  qed
  with s' ts show ?thesis by auto
qed

end
