(* ===== verification/Spec2Isabelle.thy ===== *)
theory Spec2Isabelle
  imports Session_Report Stage_Times Environment Com_Abi Metrics_Threads Silent_Loss State_Table
begin

text \<open>
  Verification development of the VDI C++ wrapper: a client of SQL Server's Virtual Device Interface
  (VDI) that receives a backup stream command by command, hands it to a sink and reports metrics.
  Every definition is translated from the source on the Windows branch of each \<open>#if\<close>; paths below
  are relative to \<open>src/\<close>.

  \<^bold>\<open>The outside world.\<close> COM, the VDI provider, Win32, the clocks and the C runtime are not code of the
  repository. They are one parameter, a \<open>world\<close> (theory \<open>World\<close>): for each external function the
  reply it gives as a function of the whole history of calls so far, so that one value of type
  \<open>world\<close> is an arbitrary adaptive environment. The history is a list of events, newest first; each
  call adds an event with its arguments and its reply, each line of output too. The compile-time
  constants LOGGING_LEVEL and FAULT_INJECTION_ENABLED are components of the world. A method is an
  element of the library's state monad over the object and the history, and \<open>wp\<close> with the
  collection \<open>wp_intros\<close> (theory \<open>Prelude\<close>) computes its weakest precondition construct by construct.

  \<^bold>\<open>Components and theories,\<close> in the order of the program's layers:

  \<^item> \<open>Error_Utils\<close> (\<open>include/error_utils.h\<close>, \<open>src/error_utils.cpp\<close>): the session states and the texts of
    HRESULT codes. \<open>Sqlvdi\<close> (\<open>include/sqlvdi.h\<close>): the structures and constants as the client uses them.
  \<^item> \<open>World\<close> (\<open>include/logging.h\<close>): the macros as events; \<open>Console\<close>: the exact text the events print.
  \<^item> \<open>Timer\<close> (\<open>include/timer.h\<close>): both clock backends on 64-bit words, with the contract of a
    microsecond timer as the locale \<open>us_timer\<close>.
  \<^item> \<open>Buffer_Pool\<close> (\<open>include/buffer_pool.h\<close>, \<open>src/buffer_pool.cpp\<close>): the pool, its contract as the locale
    \<open>buffer_queue\<close>, and threads that share a pool (\<open>pool_step\<close>).
  \<^item> \<open>Double\<close>: binary64 arithmetic as exact rationals rounded to 53 bits. \<open>Metrics\<close> (\<open>include/metrics.h\<close>,
    \<open>include/chunk_timing.h\<close>, the recording half of \<open>src/metrics.cpp\<close>): counters, compare-and-exchange
    loops, percentiles. \<open>Metrics_Threads\<close>: the same methods cut into atomic operations and interleaved
    (\<open>metrics_run\<close>), with the locales \<open>adding_counter\<close> and \<open>extremum_cell\<close>.
  \<^item> \<open>Metrics_Report\<close> (the reporting half of \<open>src/metrics.cpp\<close>, \<open>include/version.h\<close>): the summary and
    the JSON document, character by character. \<open>Json\<close> and \<open>Report_Json\<close>: a JSON reader and what it gets
    from the document. \<open>Report_Accuracy\<close>: the errors of the double arithmetic. \<open>Report_Values\<close>: the
    numbers the printed figures stand for.
  \<^item> \<open>Sinks\<close> (\<open>include/sink.h\<close>, \<open>include/file_sink.h\<close>, \<open>src/file_sink.cpp\<close>): the abstract sink as a record
    of methods, NullSink and FileSink. The locale \<open>sink_contract\<close> is what every sink promises, and
    \<open>durable_sink\<close> extends it to what a sink that stores bytes promises.
  \<^item> \<open>Fault_Injector\<close> (\<open>include/fault_injector.h\<close>, both compilations), \<open>Com_Runtime\<close>
    (\<open>src/com_runtime.cpp\<close>), \<open>Vdi_Protocol\<close> (\<open>src/vdi_protocol.cpp\<close>): the guard, the validation and the
    dispatch of commands.
  \<^item> \<open>Vdi_Client\<close> and \<open>Command_Loop\<close> (\<open>include/vdi_client.h\<close>, \<open>src/vdi_client.cpp\<close>): the session object;
    \<open>connect\<close>, \<open>open_devices\<close>, \<open>process_commands\<close>, \<open>close\<close>, the destructor and the stall detector.
  \<^item> \<open>Main_Program\<close> (\<open>src/main.cpp\<close>): the command line, the launch of sqlcmd, the session and the exit code.
  \<^item> \<open>Environment\<close> (\<open>include/environment.h\<close>, \<open>src/environment.cpp\<close>): the registry reads and their JSON text.
  \<^item> \<open>Com_Abi\<close> (\<open>include/sqlvdi.h\<close>, \<open>src/sqlvdi_guids.cpp\<close>) and \<open>Vdi_Header\<close> (\<open>include/vdi_real.h\<close>): the
    declarations of the client next to those of Microsoft's interface header.

  \<^bold>\<open>How they interact.\<close> \<open>main\<close> makes a sink and a client that owns it, connects, starts the backup and
  runs \<open>process_commands\<close>. Each turn of the command loop gets a command from the provider, validates
  and dispatches it, writes its block to the sink, records metrics, takes and gives back a pool
  buffer, completes the command and asks the fault injector; the ways out flush the sink and release
  the devices. \<open>close\<close> and the destructor flush again and release the device set.
\<close>

text \<open>
  \<^bold>\<open>What the lemmas show.\<close>

  \<^item> The step relation. \<open>Loop_Steps\<close> describes one turn of the loop by the inductive relation
    \<open>device_step\<close>, one rule per way through the body, and \<open>process_device_step\<close> shows that the
    translated body is an instance. The properties of the loop are invariants by rule induction over
    \<open>loop_reach\<close> and, for the whole method, over the fixed point of \<open>command_loop\<close>.
  \<^item> Data. \<open>Data_Integrity\<close>: what a durable sink holds is, at the head of the loop, the payloads of the
    write commands received, in order. \<open>Sink_Flow\<close> and \<open>Data_Flow\<close> carry facts about the sink through a
    whole session once and for all: the locale \<open>sink_invariant\<close> for any predicate on the sink and the
    history, \<open>sink_relation\<close> for any relation between the data handed over and the sink.
    \<open>End_To_End\<close>: with the file sink the file of the exited program holds the payloads of all
    acceptable writes while WriteFile works. \<open>File_Order\<close>: on any disk the file is a subsequence of
    them, and lacks as many bytes as WriteFile did not write. \<open>Interrupted\<close>: the same at every turn of
    a run that may never end, up to what the buffer holds. \<open>Silent_Loss\<close>: on any disk the writes
    below the size of the buffer are completed with success (\<open>acknowledged\<close>), so a disk that refuses
    every WriteFile goes unnoticed. The locales are interpreted on \<open>file_vtbl\<close> and \<open>null_vtbl\<close>.
  \<^item> Order. \<open>Protocol_Order\<close>: an automaton over the history, at most one command in the client's hands,
    each completed once with its own size and position. \<open>Call_Order\<close>: the contract of all the VDI calls
    as an automaton (\<open>vdi_next\<close>, \<open>vdi_run\<close>) over set, devices and command, the relation \<open>vdi_rel\<close> between
    its state and the client's, the simulation by every public method, and the final state
    (\<open>all_returned\<close>) of every run of the program.
  \<^item> Session. \<open>Session\<close> and \<open>Session_Properties\<close>: the public methods in any order as the relation
    \<open>session_step\<close>, an invariant of its reachable states, the ownership of the device set and of the
    devices. \<open>State_Table\<close>: the transition table of \<open>docs/operational-behavior.md\<close> as a function of state and
    trigger (\<open>documented\<close>), the triggers a call amounts to (\<open>call_triggers\<close>), and the client as a
    refinement of the table. \<open>Exit_Status\<close>: the same for the whole program, with the meaning of
    its exit code.
  \<^item> Turns. \<open>Loop_Order\<close>: functions of the history say who was asked for a command, what was completed
    and what was answered last; the devices are polled in turn, the last answer of GetCommand decides
    the state the session ends in, each completed command has its entry among the timings, and the
    devices opened before a failing OpenDevice are never released. \<open>Stage_Times\<close>: a second set of \<open>wp\<close>
    rules that keeps what the clock said; on a steady clock the recorded stages are disjoint parts of
    the session.
  \<^item> Termination. \<open>Liveness\<close>: the loop ends when the provider, from some call on, answers with an error
    other than a timeout, and never ends when it only times out. \<open>Session_Report\<close>: with a provider that
    cooperates (\<open>cooperative\<close>) the whole program ends and exits with 0.
  \<^item> Figures. \<open>Accounting\<close>: the counters, the pool and the stall detector against the history;
    \<open>Metrics\<close>: percentiles are the nearest-rank values and the counters are count, sum, minimum and
    maximum; \<open>Metrics_Threads\<close>: however concurrent calls interleave; \<open>Report_Json\<close> and
    \<open>Report_Values\<close>: the report can be read back and its throughput is the true rate; \<open>Session_Report\<close>:
    the document on the console of a run (\<open>shows_report\<close>) has the figures of the write commands SQL
    Server sent (\<open>describes\<close>) and the percentiles of the commands completed (\<open>describes_stages\<close>).
  \<^item> Faults. \<open>Fault_Injector\<close>: what the injector answers after any sequence of calls, from the quota, the
    progress and the pending failure the calls so far amount to.
  \<^item> Declarations. \<open>Com_Abi\<close>: a virtual call through the client's interfaces reaches the slot with the
    same method and parameter types in Microsoft's header, and data, codes and identifiers agree.

  \<^bold>\<open>Bounds and fuel.\<close> Integers have the width of the code: \<open>u8\<close>, \<open>u32\<close>, \<open>u64\<close>, signed words read by
  \<open>sint\<close>. The command loop may run for ever, so \<open>command_loop\<close> is a partial function whose value is
  None when it does; statements that it returns are proved as such. A null sink pointer used by the
  write stage is the result Crashed. The JSON reader recurses on a bound of one more than the length
  of its text, and each of its steps consumes a character. The slots of an interface follow at most
  three steps of inheritance, the depth of the declarations. The percentiles are exact below
  \<open>2 ^ 45\<close> samples; above, the product of the rank would no longer keep its distance to an integer.

  \<^bold>\<open>Not modelled.\<close>

  \<^item> Exceptions, that is failing allocations (\<open>std::bad_alloc\<close>), and the growth of vectors and strings.
  \<^item> The branches for other systems than Windows, which do nothing or use other clocks; the client
    includes \<open>windows.h\<close> unconditionally (\<open>include/sqlvdi.h\<close>), so no such build exists.
  \<^item> Reads outside an object: the memory of a command is a function on all offsets, and a registry
    value that fills its buffer without a terminator is read up to the end of the buffer.
  \<^item> Overflow, subnormals and the negative zero of doubles, which the counts and times of the reports
    do not reach; the locale of the streams.
  \<^item> The identity of output streams across threads: a session runs in one thread. Threads are modelled
    where the code provides for them, in the pool and in the counters. The vector of timings has no
    such protection and is recorded by one thread only.
  \<^item> In \<open>include/vdi_real.h\<close>: the includes, the prototypes of the allocator and the handles of the
    remote procedure calls.
  \<^item> The benchmark client in Python and the PowerShell scripts, which are not part of the program.
\<close>

end
